(* ===== verification/Prelude.thy ===== *)
theory Prelude
  imports Main "HOL-Library.Word" "HOL-Library.Multiset"
begin

text \<open>
  What the components share: the machine types of the program, its error values, the
  outcomes of Go code that may panic, the few operations on slices and strings that the
  sources call, and the generic lemmas about them. Nothing here is specific to a component.

  Conventions of the whole development. A Go \<^verbatim>\<open>struct\<close> is a record, \<^verbatim>\<open>uint64\<close> is
  \<open>64 word\<close>, \<^verbatim>\<open>byte\<close> is \<open>8 word\<close>, \<^verbatim>\<open>[]byte\<close> is a list of bytes, \<^verbatim>\<open>string\<close> is a list
  of characters. A function returning \<^verbatim>\<open>(T, error)\<close> returns \<open>error + T\<close>. A function that
  can panic returns \<open>T go\<close>. Mutation is state passing.
\<close>

section \<open>Types\<close>

type_synonym byte = "8 word"
type_synonym u32 = "32 word"
type_synonym u64 = "64 word"
type_synonym bytes = "byte list"

named_theorems go_simps \<open>unfolding of the Go run-time operations (slices, indexing, panics)\<close>
named_theorems wire \<open>wire images of the encoders as concatenations\<close>
named_theorems inv_intros \<open>preservation of the component invariants\<close>

subsection \<open>Errors\<close>

text \<open>
  The sentinel errors of the repository and of the libraries whose errors it compares
  against with \<^verbatim>\<open>errors.Is\<close>. An error is a sentinel, a formatted text with its numeric
  arguments, a formatted text wrapping another error (the verb \<^verbatim>\<open>%w\<close>), or a
  \<^verbatim>\<open>net.Error\<close> with its \<^verbatim>\<open>Timeout()\<close>.
\<close>

datatype sentinel =
    ErrUnknownProtocol | ErrUnknownALPN | ErrDestinationNotFound | ErrSessionAlreadyEstablished
  | ErrPeerGone | ErrRPCTimeout
  | ErrNoAccount | ErrAccountExists | ErrNoPKey | ErrPKeyExists | ErrNoCert
  | EOF | ErrClosed | ErrNotExist | DeadlineExceeded | Canceled | Yamux_ErrTimeout

datatype error =
    Sentinel sentinel
  | Errorf string "nat list"
  | Wrapf string "nat list" error
  | NetError bool

fun errors_Is :: "error \<Rightarrow> sentinel \<Rightarrow> bool" where
  "errors_Is (Sentinel s) t = (s = t)"
| "errors_Is (Errorf f args) t = False"
| "errors_Is (Wrapf f args e) t = errors_Is e t"
| "errors_Is (NetError b) t = False"

subsection \<open>Panics\<close>

datatype panic =
    IndexOutOfRange | SliceOutOfRange | MakeSliceLen | NilDereference
  | CloseOfClosedChannel | SendOnClosedChannel | Explicit string

datatype 'a go = Panic panic | Ret 'a

fun bind_go :: "'a go \<Rightarrow> ('a \<Rightarrow> 'b go) \<Rightarrow> 'b go" where
  "bind_go (Panic p) f = Panic p"
| "bind_go (Ret x) f = f x"

text \<open>The value of a call that returned normally, without an error.\<close>

fun ret_of :: "'a go \<Rightarrow> 'a option" where
  "ret_of (Panic p) = None"
| "ret_of (Ret x) = Some x"

fun ok_of :: "error + 'a \<Rightarrow> 'a option" where
  "ok_of (Inl e) = None"
| "ok_of (Inr x) = Some x"

fun panics :: "'a go \<Rightarrow> bool" where
  "panics (Panic p) = True"
| "panics (Ret x) = False"

text \<open>Partial correctness of a call: what holds of its result if it returns.\<close>

fun go_all :: "('a \<Rightarrow> bool) \<Rightarrow> 'a go \<Rightarrow> bool" where
  "go_all P (Panic p) = True"
| "go_all P (Ret x) = P x"

subsection \<open>Life cycle of a closable resource\<close>

text \<open>
  A Go channel, a session or a connection is open until it is closed and never opens again.
  The two states are ordered, so that "never reopens" is monotonicity.
\<close>

datatype lifecycle = Open | Closed

instantiation lifecycle :: linorder
begin

definition less_eq_lifecycle :: "lifecycle \<Rightarrow> lifecycle \<Rightarrow> bool" where
  "less_eq_lifecycle a b = (a = Open \<or> b = Closed)"

definition less_lifecycle :: "lifecycle \<Rightarrow> lifecycle \<Rightarrow> bool" where
  "less_lifecycle a b = (a = Open \<and> b = Closed)"

instance
proof
  fix x y z :: lifecycle
  show "(x < y) = (x \<le> y \<and> \<not> y \<le> x)"
    by (cases x; cases y) (simp_all add: less_eq_lifecycle_def less_lifecycle_def)
  show "x \<le> x"
    by (cases x) (simp_all add: less_eq_lifecycle_def)
  show "x \<le> y \<Longrightarrow> y \<le> z \<Longrightarrow> x \<le> z"
    by (cases x; cases y) (simp_all add: less_eq_lifecycle_def)
  show "x \<le> y \<Longrightarrow> y \<le> x \<Longrightarrow> x = y"
    by (cases x; cases y) (simp_all add: less_eq_lifecycle_def)
  show "x \<le> y \<or> y \<le> x"
    by (cases x; cases y) (simp_all add: less_eq_lifecycle_def)
qed

end

subsection \<open>Slices\<close>

text \<open>
  \<^verbatim>\<open>b[i:j]\<close> and \<^verbatim>\<open>b[i]\<close> of a slice whose capacity is its length (every slice the sources
  cut is made with \<^verbatim>\<open>make\<close> or is a received buffer), \<^verbatim>\<open>make([]byte, n)\<close> for a signed
  length, and \<^verbatim>\<open>copy(dst[off:], src)\<close>, which copies what fits.
\<close>

definition slice :: "nat \<Rightarrow> nat \<Rightarrow> 'a list \<Rightarrow> 'a list go" where
  "slice i j b = (if i \<le> j \<and> j \<le> length b then Ret (take (j - i) (drop i b)) else Panic SliceOutOfRange)"

definition index :: "'a list \<Rightarrow> nat \<Rightarrow> 'a go" where
  "index b i = (if i < length b then Ret (b ! i) else Panic IndexOutOfRange)"

text \<open>
  \<^verbatim>\<open>make([]byte, n)\<close> for a length that is not a constant of the source: the run-time panics
  above the size of the heap's address space (48 bits on the 64-bit targets; a negative
  \<^verbatim>\<open>int\<close> is above it when read unsigned).
\<close>

definition maxAlloc :: nat where
  "maxAlloc = 2 ^ 48"

definition make_slice :: "nat \<Rightarrow> bytes go" where
  "make_slice n = (if n > maxAlloc then Panic MakeSliceLen else Ret (replicate n 0))"

definition make_bytes :: "nat \<Rightarrow> bytes" where
  "make_bytes n = replicate n 0"

definition copy_at :: "nat \<Rightarrow> 'a list \<Rightarrow> 'a list \<Rightarrow> 'a list" where
  "copy_at off src dst =
     take off dst @ take (length dst - off) src @ drop (off + length src) dst"

subsection \<open>Strings\<close>

text \<open>The functions of package \<^verbatim>\<open>strings\<close> that the sources call, and decimal formatting.\<close>

definition HasSuffix :: "string \<Rightarrow> string \<Rightarrow> bool" where
  "HasSuffix s suf = (length suf \<le> length s \<and> drop (length s - length suf) s = suf)"

definition TrimSuffix :: "string \<Rightarrow> string \<Rightarrow> string" where
  "TrimSuffix s suf = (if HasSuffix s suf then take (length s - length suf) s else s)"

definition strings_Contains :: "string \<Rightarrow> string \<Rightarrow> bool" where
  "strings_Contains s sub = list_ex (\<lambda>i. take (length sub) (drop i s) = sub) [0..<Suc (length s)]"

text \<open>\<^verbatim>\<open>strings.SplitN(s, sep, 2)\<close> for a one-character separator.\<close>

fun SplitN2 :: "char \<Rightarrow> string \<Rightarrow> string list" where
  "SplitN2 sep [] = [[]]"
| "SplitN2 sep (c # s) =
     (if c = sep then [[], s] else (case SplitN2 sep s of [] \<Rightarrow> [[c]] | p # ps \<Rightarrow> (c # p) # ps))"

fun Join :: "string list \<Rightarrow> string \<Rightarrow> string" where
  "Join [] sep = []"
| "Join [s] sep = s"
| "Join (s # t # ss) sep = s @ sep @ Join (t # ss) sep"

definition digit_char :: "nat \<Rightarrow> char" where
  "digit_char d = char_of (48 + d)"

fun itoa :: "nat \<Rightarrow> string" where
  "itoa n = (if n < 10 then [digit_char n] else itoa (n div 10) @ [digit_char (n mod 10)])"

declare itoa.simps [simp del]

definition is_digit :: "char \<Rightarrow> bool" where
  "is_digit c = (48 \<le> (of_char c :: nat) \<and> (of_char c :: nat) \<le> 57)"

text \<open>The conversions \<^verbatim>\<open>[]byte(s)\<close> and \<^verbatim>\<open>string(b)\<close>.\<close>

definition string_bytes :: "string \<Rightarrow> bytes" where
  "string_bytes = map of_char"

definition bytes_string :: "bytes \<Rightarrow> string" where
  "bytes_string = map (\<lambda>b. char_of (unat b))"

section \<open>Lemmas\<close>

lemma errors_Is_Wrapf [simp]: "errors_Is (Wrapf f args e) = errors_Is e"
  by (rule ext) simp

lemma bind_go_Ret_iff:
  "bind_go m f = Ret y \<longleftrightarrow> (\<exists>x. m = Ret x \<and> f x = Ret y)"
  by (cases m) auto

lemma bind_go_RetE:
  assumes "bind_go m f = Ret y"
  obtains x where "m = Ret x" and "f x = Ret y"
  using assms by (cases m) auto

lemma go_all_bind [simp]: "go_all P (bind_go m f) = go_all (\<lambda>x. go_all P (f x)) m"
  by (cases m) simp_all

lemma go_all_Ret: "go_all P m \<Longrightarrow> m = Ret x \<Longrightarrow> P x"
  by simp

lemma go_all_I: "(\<And>x. m = Ret x \<Longrightarrow> P x) \<Longrightarrow> go_all P m"
  by (cases m) simp_all

lemma panics_iff: "panics m \<longleftrightarrow> (\<exists>p. m = Panic p)"
  by (cases m) auto

lemma ret_of_eq_Some [simp]: "ret_of m = Some x \<longleftrightarrow> m = Ret x"
  by (cases m) auto

lemma ok_of_eq_Some [simp]: "ok_of m = Some x \<longleftrightarrow> m = Inr x"
  by (cases m) auto

lemma ok_of_eq_None: "ok_of m = None \<longleftrightarrow> (\<exists>e. m = Inl e)"
  by (cases m) auto

lemma lifecycle_le_iff [simp]: "(a \<le> b) \<longleftrightarrow> (a = Closed \<longrightarrow> b = Closed)" for a b :: lifecycle
  by (cases a; cases b) (simp_all add: less_eq_lifecycle_def)

lemma not_Open_iff [simp]: "a \<noteq> Open \<longleftrightarrow> a = Closed"
  by (cases a) auto

lemma not_Closed_iff [simp]: "a \<noteq> Closed \<longleftrightarrow> a = Open"
  by (cases a) auto

subsection \<open>Slices\<close>

lemma slice_in [simp]: "i \<le> j \<Longrightarrow> j \<le> length b \<Longrightarrow> slice i j b = Ret (take (j - i) (drop i b))"
  by (simp add: slice_def)

lemma slice_out [simp]: "length b < j \<Longrightarrow> slice i j b = Panic SliceOutOfRange"
  by (simp add: slice_def)

lemma index_in [simp]: "i < length b \<Longrightarrow> index b i = Ret (b ! i)"
  by (simp add: index_def)

lemma index_out [simp]: "length b \<le> i \<Longrightarrow> index b i = Panic IndexOutOfRange"
  by (simp add: index_def)

lemma length_make_bytes [simp]: "length (make_bytes n) = n"
  by (simp add: make_bytes_def)

lemma length_copy_at [simp]: "off \<le> length dst \<Longrightarrow> length (copy_at off src dst) = length dst"
  by (simp add: copy_at_def)

text \<open>
  A buffer that is filled from left to right: what has been written stays in front, what is
  left behind it is still zero.
\<close>

lemma copy_at_fill:
  "length src \<le> n \<Longrightarrow> copy_at (length done) src (done @ replicate n 0) = (done @ src) @ replicate (n - length src) 0"
  by (simp add: copy_at_def)

lemma copy_at_front: "length src \<le> n \<Longrightarrow> copy_at 0 src (make_bytes n) = src @ replicate (n - length src) 0"
  by (simp add: copy_at_def make_bytes_def)

lemma list_update_fill:
  "0 < n \<Longrightarrow> (done @ replicate n z)[length done := v] = (done @ [v]) @ replicate (n - 1) z"
  by (cases n) (simp_all add: list_update_append)

lemma copy_at_all: "length src = length dst \<Longrightarrow> copy_at 0 src dst = src"
  by (simp add: copy_at_def)

lemma copy_at_prefix: "length src \<le> length dst \<Longrightarrow> copy_at 0 src dst = src @ drop (length src) dst"
  by (simp add: copy_at_def)

subsection \<open>Strings\<close>

lemma HasSuffix_append [simp]: "HasSuffix (s @ t) t"
  by (simp add: HasSuffix_def)

lemma HasSuffix_iff: "HasSuffix s suf \<longleftrightarrow> (\<exists>p. s = p @ suf)"
proof
  assume "HasSuffix s suf"
  then have "s = take (length s - length suf) s @ suf"
    by (metis HasSuffix_def append_take_drop_id)
  then show "\<exists>p. s = p @ suf" ..
qed auto

lemma TrimSuffix_append [simp]: "TrimSuffix (s @ t) t = s"
  by (simp add: TrimSuffix_def)

lemma SplitN2_no_sep: "sep \<notin> set s \<Longrightarrow> SplitN2 sep s = [s]"
  by (induction s) auto

lemma SplitN2_sep: "sep \<notin> set p \<Longrightarrow> SplitN2 sep (p @ sep # s) = [p, s]"
  by (induction p) auto

lemma SplitN2_not_Nil [simp]: "SplitN2 sep s \<noteq> []"
  by (induction s) (auto split: list.splits)

lemma set_Join: "set (Join ss sep) \<subseteq> \<Union> (set ` set ss) \<union> set sep"
  by (induction ss sep rule: Join.induct) auto

lemma strings_Contains_self_suffix: "strings_Contains (s @ t) s"
  by (auto simp: strings_Contains_def list_ex_iff intro!: bexI [of _ 0])

subsection \<open>Decimal texts\<close>

lemma of_char_digit [simp]: "d < 10 \<Longrightarrow> (of_char (digit_char d) :: nat) = 48 + d"
  by (simp add: digit_char_def)

lemma is_digit_digit_char [simp]: "d < 10 \<Longrightarrow> is_digit (digit_char d)"
  by (simp add: is_digit_def)

lemma digit_char_0 [simp]: "digit_char 0 = CHR ''0''"
  by (simp add: digit_char_def char_of_def bit_0)

lemma digit_char_zero_iff: "d < 10 \<Longrightarrow> digit_char d = CHR ''0'' \<longleftrightarrow> d = 0"
proof
  assume "d < 10" and "digit_char d = CHR ''0''"
  then have "(of_char (digit_char d) :: nat) = of_char (CHR ''0'')" by simp
  with \<open>d < 10\<close> show "d = 0" by simp
qed simp

lemma itoa_1: "n < 10 \<Longrightarrow> itoa n = [digit_char n]"
  by (simp add: itoa.simps [of n])

lemma itoa_2: "10 \<le> n \<Longrightarrow> n < 100 \<Longrightarrow> itoa n = [digit_char (n div 10), digit_char (n mod 10)]"
  by (simp add: itoa.simps [of n] itoa_1)

lemma itoa_3:
  "100 \<le> n \<Longrightarrow> n < 1000 \<Longrightarrow>
   itoa n = [digit_char (n div 10 div 10), digit_char (n div 10 mod 10), digit_char (n mod 10)]"
  by (simp add: itoa.simps [of n] itoa_2 del: div_mult2_eq)

lemma itoa_not_Nil [simp]: "itoa n \<noteq> []"
  by (subst itoa.simps) simp

lemma set_itoa: "c \<in> set (itoa n) \<Longrightarrow> is_digit c"
proof (induction n rule: itoa.induct)
  case (1 n)
  then show ?case
    by (cases "n < 10") (auto simp: itoa.simps [of n])
qed

subsection \<open>Bytes of a text\<close>

lemma unat_of_char: "unat (of_char c :: byte) = of_char c"
proof -
  have w: "(of_char c :: byte) = of_nat (of_char c)"
    by (cases c) (simp add: of_char_def)
  have "(of_char c :: nat) < 256"
    by simp
  then show ?thesis
    unfolding w by (simp add: unat_of_nat)
qed

lemma bytes_string_bytes [simp]: "bytes_string (string_bytes s) = s"
  by (simp add: bytes_string_def string_bytes_def unat_of_char comp_def)

lemma string_bytes_bytes_string [simp]: "string_bytes (bytes_string b) = b"
proof -
  have "of_char (char_of (unat w)) = w" for w :: byte
  proof -
    have "unat w < 256"
      using unsigned_less [of w] by simp
    then have "unat (of_char (char_of (unat w)) :: byte) = unat w"
      by (simp add: unat_of_char)
    then show ?thesis
      by (metis of_nat_unat word_unat_eq_iff)
  qed
  then show ?thesis
    by (simp add: string_bytes_def bytes_string_def comp_def)
qed

lemma length_string_bytes [simp]: "length (string_bytes s) = length s"
  by (simp add: string_bytes_def)

lemma string_bytes_Cons: "string_bytes (c # s) = of_char c # string_bytes s"
  by (simp add: string_bytes_def)

lemma string_bytes_append [simp]: "string_bytes (s @ t) = string_bytes s @ string_bytes t"
  by (simp add: string_bytes_def)

lemma bytes_string_append [simp]: "bytes_string (s @ t) = bytes_string s @ bytes_string t"
  by (simp add: bytes_string_def)

subsection \<open>Invariants of step relations\<close>

text \<open>What every step keeps, every run keeps. Each step relation interprets this with its invariant.\<close>

locale step_invariant =
  fixes step :: "'s \<Rightarrow> 's \<Rightarrow> bool" and holds :: "'s \<Rightarrow> bool"
  assumes step_keeps: "step s t \<Longrightarrow> holds s \<Longrightarrow> holds t"
begin

lemma run_keeps: "step\<^sup>*\<^sup>* s t \<Longrightarrow> holds s \<Longrightarrow> holds t"
  by (induction rule: rtranclp_induct) (auto intro: step_keeps)

end

end
