(* ===== verification/Bytes.thy ===== *)
theory Bytes
  imports Prelude
begin

text \<open>
  The big-endian integer encoding of package \<^verbatim>\<open>encoding/binary\<close>, written with the shifts
  of \<^verbatim>\<open>binary.BigEndian\<close>, its equivalence with a recursive reference encoding at any
  width, and the contracts \<open>codec\<close> and \<open>fixed_codec\<close> that the wire formats of the
  program promise to their clients.
\<close>

unbundle bit_operations_syntax

section \<open>Definitions\<close>

definition PutUint64 :: "u64 \<Rightarrow> bytes" where
  "PutUint64 v =
     [ucast (drop_bit 56 v), ucast (drop_bit 48 v), ucast (drop_bit 40 v), ucast (drop_bit 32 v),
      ucast (drop_bit 24 v), ucast (drop_bit 16 v), ucast (drop_bit 8 v), ucast v]"

definition Uint64 :: "bytes \<Rightarrow> u64" where
  "Uint64 b =
     ucast (b ! 7) OR push_bit 8 (ucast (b ! 6)) OR push_bit 16 (ucast (b ! 5)) OR
     push_bit 24 (ucast (b ! 4)) OR push_bit 32 (ucast (b ! 3)) OR push_bit 40 (ucast (b ! 2)) OR
     push_bit 48 (ucast (b ! 1)) OR push_bit 56 (ucast (b ! 0))"

definition PutUint32 :: "u32 \<Rightarrow> bytes" where
  "PutUint32 v = [ucast (drop_bit 24 v), ucast (drop_bit 16 v), ucast (drop_bit 8 v), ucast v]"

definition Uint32 :: "bytes \<Rightarrow> u32" where
  "Uint32 b =
     ucast (b ! 3) OR push_bit 8 (ucast (b ! 2)) OR push_bit 16 (ucast (b ! 1)) OR
     push_bit 24 (ucast (b ! 0))"

text \<open>The reference encoding: most significant byte first, at any width.\<close>

fun be_put :: "nat \<Rightarrow> 'a::len word \<Rightarrow> bytes" where
  "be_put 0 v = []"
| "be_put (Suc n) v = ucast (drop_bit (8 * n) v) # be_put n v"

definition be_get :: "bytes \<Rightarrow> 'a::len word" where
  "be_get = foldl (\<lambda>acc b. push_bit 8 acc OR ucast b) 0"

section \<open>The reference encoding is a bijection\<close>

lemma length_be_put [simp]: "length (be_put n v) = n"
  by (induction n) auto

lemma bit_byte: "bit (b :: byte) n \<Longrightarrow> n < 8"
  using bit_imp_le_length [of b n] by simp

lemma foldl_be_put:
  "foldl (\<lambda>acc b. push_bit 8 acc OR ucast b) acc (be_put n v) =
     push_bit (8 * n) acc OR take_bit (8 * n) (v :: 'a::len word)"
proof (induction n arbitrary: acc)
  case 0
  then show ?case by simp
next
  case (Suc n)
  have "push_bit (8 * n) (ucast (ucast (drop_bit (8 * n) v) :: byte)) OR take_bit (8 * n) v =
      take_bit (8 * Suc n) v"
    by (rule bit_word_eqI) (auto simp: bit_simps)
  then show ?case
    by (simp add: Suc.IH add.commute or.assoc)
qed

lemma be_get_put: "8 * n = LENGTH('a) \<Longrightarrow> be_get (be_put n v) = (v :: 'a::len word)"
  by (simp add: be_get_def foldl_be_put)

lemma be_get_snoc: "be_get (bs @ [b]) = push_bit 8 (be_get bs) OR ucast b"
  by (simp add: be_get_def)

lemma bit_be_get: "bit (be_get bs :: 'a::len word) n \<Longrightarrow> n < 8 * length bs"
proof (induction bs arbitrary: n rule: rev_induct)
  case Nil
  then show ?case by (simp add: be_get_def)
next
  case (snoc b bs)
  from snoc.prems show ?case
    by (auto simp: be_get_snoc bit_simps dest!: snoc.IH bit_byte)
qed

lemma be_put_Suc_snoc: "be_put (Suc n) v = be_put n (drop_bit 8 v) @ [ucast v]"
  by (induction n) (simp_all add: add.commute)

lemma be_put_get:
  "8 * length bs \<le> LENGTH('a) \<Longrightarrow> be_put (length bs) (be_get bs :: 'a::len word) = bs"
proof (induction bs rule: rev_induct)
  case Nil
  then show ?case by simp
next
  case (snoc b bs)
  let ?x = "be_get bs :: 'a word"
  have "drop_bit 8 (push_bit 8 ?x OR ucast b) = ?x"
    using snoc.prems by (intro bit_word_eqI) (auto simp: bit_simps dest: bit_byte bit_be_get)
  moreover have "ucast (push_bit 8 ?x OR ucast b) = b"
    using snoc.prems by (intro bit_word_eqI) (auto simp: bit_simps)
  ultimately show ?case using snoc
    by (simp only: length_append list.size be_get_snoc)
      (simp add: be_put_Suc_snoc del: be_put.simps)
qed

section \<open>The shifts of the library are the reference encoding\<close>

lemma PutUint64_be: "PutUint64 v = be_put 8 v"
  by (simp add: PutUint64_def numeral_eq_Suc)

lemma PutUint32_be: "PutUint32 v = be_put 4 v"
  by (simp add: PutUint32_def numeral_eq_Suc)

lemma list8_eq: "length b = 8 \<Longrightarrow> b = [b ! 0, b ! 1, b ! 2, b ! 3, b ! 4, b ! 5, b ! 6, b ! 7]"
  by (intro nth_equalityI) (auto simp: less_Suc_eq numeral_eq_Suc)

lemma list4_eq: "length b = 4 \<Longrightarrow> b = [b ! 0, b ! 1, b ! 2, b ! 3]"
  by (intro nth_equalityI) (auto simp: less_Suc_eq numeral_eq_Suc)

lemma Uint64_be: "length b = 8 \<Longrightarrow> Uint64 b = be_get b"
  by (subst (2) list8_eq, assumption) (simp add: Uint64_def be_get_def ac_simps)

lemma Uint32_be: "length b = 4 \<Longrightarrow> Uint32 b = be_get b"
  by (subst (2) list4_eq, assumption) (simp add: Uint32_def be_get_def ac_simps)

lemma length_PutUint64 [simp]: "length (PutUint64 v) = 8"
  by (simp add: PutUint64_def)

lemma length_PutUint32 [simp]: "length (PutUint32 v) = 4"
  by (simp add: PutUint32_def)

lemma Uint64_PutUint64 [simp]: "Uint64 (PutUint64 v) = v"
  by (simp add: Uint64_be PutUint64_be be_get_put)

lemma Uint32_PutUint32 [simp]: "Uint32 (PutUint32 v) = v"
  by (simp add: Uint32_be PutUint32_be be_get_put)

lemma PutUint64_Uint64 [simp]: "length b = 8 \<Longrightarrow> PutUint64 (Uint64 b) = b"
  using be_put_get [of b, where 'a = 64] by (simp add: Uint64_be PutUint64_be)

lemma PutUint32_Uint32 [simp]: "length b = 4 \<Longrightarrow> PutUint32 (Uint32 b) = b"
  using be_put_get [of b, where 'a = 32] by (simp add: Uint32_be PutUint32_be)

lemma PutUint64_inj [simp]: "PutUint64 v = PutUint64 w \<longleftrightarrow> v = w"
  by (metis Uint64_PutUint64)

section \<open>Contracts of the wire formats\<close>

text \<open>
  A \<open>codec\<close> reads back what it wrote, for the values \<open>wf\<close> that the format can carry.
  A \<open>fixed_codec\<close> moreover writes a fixed number of bytes, rejects every buffer of another
  length, and is canonical: a buffer it accepts is the encoding of what it returns.
\<close>

locale codec =
  fixes encode :: "'a \<Rightarrow> bytes"
    and decode :: "bytes \<Rightarrow> 'a option"
    and wf :: "'a \<Rightarrow> bool"
  assumes decode_encode: "wf x \<Longrightarrow> decode (encode x) = Some x"
begin

lemma encode_inj: "wf x \<Longrightarrow> wf y \<Longrightarrow> encode x = encode y \<Longrightarrow> x = y"
  by (metis decode_encode option.inject)

end

locale fixed_codec = codec +
  fixes width :: nat
  assumes length_encode: "wf x \<Longrightarrow> length (encode x) = width"
    and decode_width: "length b \<noteq> width \<Longrightarrow> decode b = None"
    and decode_total: "length b = width \<Longrightarrow> \<exists>x. decode b = Some x"
    and decode_canonical: "decode b = Some x \<Longrightarrow> wf x \<and> encode x = b"
begin

text \<open>A reader that cuts the first \<open>width\<close> bytes off a stream recovers the value and the rest.\<close>

lemma decode_stream:
  assumes "wf x"
  shows "decode (take width (encode x @ rest)) = Some x \<and> drop width (encode x @ rest) = rest"
  using assms by (simp add: length_encode decode_encode)

lemma decode_accepts_iff: "(\<exists>x. decode b = Some x) \<longleftrightarrow> length b = width"
  using decode_total decode_width by (metis option.discI)

lemma decode_unique: "decode b = Some x \<Longrightarrow> decode c = Some x \<Longrightarrow> b = c"
  using decode_canonical by blast

end

end
