(* ===== verification/JSON.thy ===== *)
theory JSON
  imports Prelude "HOL-Library.Monad_Syntax"
begin

text \<open>
  What the sources use of \<^verbatim>\<open>encoding/json\<close>: compact printing of structs made of strings,
  numbers and nested values, and decoding. A text is a list of bytes, given as characters.
  Numbers are natural: the sources encode ports and identifiers. Decoding of a member looks for
  its name exactly; the library would also accept another capitalisation.
\<close>

section \<open>Values and printing\<close>

datatype json =
    JNull
  | JNum nat
  | JStr string
  | JArr "json list"
  | JObj "(string \<times> json) list"

definition hex_char :: "nat \<Rightarrow> char" where
  "hex_char d = (if d < 10 then char_of (48 + d) else char_of (87 + d))"

text \<open>
  The escapes of \<^verbatim>\<open>encodeState.string\<close> with HTML escaping on, which is the default. Bytes above
  \<^verbatim>\<open>0x7e\<close> are copied, as they are in valid UTF-8.
\<close>

definition json_escape_char :: "char \<Rightarrow> string" where
  "json_escape_char c =
     (if c = CHR 0x22 then [CHR 0x5C, CHR 0x22]
      else if c = CHR 0x5C then [CHR 0x5C, CHR 0x5C]
      else if c = CHR 0x0A then [CHR 0x5C, CHR ''n'']
      else if c = CHR 0x0D then [CHR 0x5C, CHR ''r'']
      else if c = CHR 0x09 then [CHR 0x5C, CHR ''t'']
      else if of_char c < (32 :: nat) \<or> c = CHR ''<'' \<or> c = CHR ''>'' \<or> c = CHR ''&''
      then [CHR 0x5C, CHR ''u'', CHR ''0'', CHR ''0'', hex_char (of_char c div 16), hex_char (of_char c mod 16)]
      else [c])"

definition json_quote :: "string \<Rightarrow> string" where
  "json_quote s = CHR 0x22 # concat (map json_escape_char s) @ [CHR 0x22]"

fun json_Marshal :: "json \<Rightarrow> string" and json_elems :: "json list \<Rightarrow> string" and
    json_members :: "(string \<times> json) list \<Rightarrow> string" where
  "json_Marshal JNull = ''null''"
| "json_Marshal (JNum n) = itoa n"
| "json_Marshal (JStr s) = json_quote s"
| "json_Marshal (JArr vs) = CHR ''['' # json_elems vs"
| "json_Marshal (JObj ms) = CHR ''{'' # json_members ms"
| "json_elems [] = '']''"
| "json_elems [v] = json_Marshal v @ '']''"
| "json_elems (v # w # vs) = json_Marshal v @ CHR '','' # json_elems (w # vs)"
| "json_members [] = ''}''"
| "json_members [(k, v)] = json_quote k @ CHR '':'' # json_Marshal v @ ''}''"
| "json_members ((k, v) # m # ms) = json_quote k @ CHR '':'' # json_Marshal v @ CHR '','' # json_members (m # ms)"

text \<open>\<^verbatim>\<open>Encoder.Encode\<close> ends the value with a newline.\<close>

definition json_Encode :: "json \<Rightarrow> string" where
  "json_Encode v = json_Marshal v @ [CHR 0x0A]"

section \<open>Decoding\<close>

definition is_ws :: "char \<Rightarrow> bool" where
  "is_ws c = (c \<in> {CHR '' '', CHR 0x09, CHR 0x0A, CHR 0x0D})"

definition skip_ws :: "string \<Rightarrow> string" where
  "skip_ws = dropWhile is_ws"

text \<open>The next character that is not white space must be the given one.\<close>

definition expect :: "char \<Rightarrow> string \<Rightarrow> string option" where
  "expect c s = (case skip_ws s of [] \<Rightarrow> None | d # s' \<Rightarrow> if d = c then Some s' else None)"

definition hex_val :: "char \<Rightarrow> nat option" where
  "hex_val c =
     (let n = of_char c in
      if 48 \<le> n \<and> n \<le> 57 then Some (n - 48)
      else if 97 \<le> n \<and> n \<le> 102 then Some (n - 87)
      else if 65 \<le> n \<and> n \<le> 70 then Some (n - 55)
      else None)"

text \<open>
  A \<^verbatim>\<open>\u\<close> escape as UTF-8. Surrogates are refused here; the library pairs them.
\<close>

definition utf8 :: "nat \<Rightarrow> string option" where
  "utf8 n =
     (if n < 0x80 then Some [char_of n]
      else if n < 0x800 then Some [char_of (0xC0 + n div 64), char_of (0x80 + n mod 64)]
      else if 0xD800 \<le> n \<and> n < 0xE000 then None
      else Some [char_of (0xE0 + n div 4096), char_of (0x80 + n div 64 mod 64), char_of (0x80 + n mod 64)])"

definition unescape :: "char \<Rightarrow> char option" where
  "unescape c =
     (if c = CHR 0x22 \<or> c = CHR 0x5C \<or> c = CHR ''/'' then Some c
      else if c = CHR ''b'' then Some (CHR 0x08)
      else if c = CHR ''f'' then Some (CHR 0x0C)
      else if c = CHR ''n'' then Some (CHR 0x0A)
      else if c = CHR ''r'' then Some (CHR 0x0D)
      else if c = CHR ''t'' then Some (CHR 0x09)
      else None)"

text \<open>The rest of a string literal after its opening quote.\<close>

fun json_unquote :: "string \<Rightarrow> (string \<times> string) option" where
  "json_unquote [] = None"
| "json_unquote (c # s) =
     (if c = CHR 0x22 then Some ([], s)
      else if c = CHR 0x5C then
        (case s of
           [] \<Rightarrow> None
         | e # s' \<Rightarrow>
           if e = CHR ''u'' then
             (case s' of
                h1 # h2 # h3 # h4 # s'' \<Rightarrow>
                  do { a \<leftarrow> hex_val h1; b \<leftarrow> hex_val h2; x \<leftarrow> hex_val h3; y \<leftarrow> hex_val h4;
                       u \<leftarrow> utf8 (((a * 16 + b) * 16 + x) * 16 + y);
                       (t, r) \<leftarrow> json_unquote s'';
                       Some (u @ t, r) }
              | _ \<Rightarrow> None)
           else do { d \<leftarrow> unescape e; (t, r) \<leftarrow> json_unquote s'; Some (d # t, r) })
      else if of_char c < (32 :: nat) then None
      else do { (t, r) \<leftarrow> json_unquote s; Some (c # t, r) })"

definition atoi :: "string \<Rightarrow> nat" where
  "atoi = foldl (\<lambda>n c. n * 10 + (of_char c - 48)) 0"

text \<open>A number without sign, fraction or exponent; the integer fields accept no other.\<close>

definition json_number :: "string \<Rightarrow> (json \<times> string) option" where
  "json_number s =
     (let ds = takeWhile is_digit s; r = dropWhile is_digit s in
      if ds = [] \<or> (hd ds = CHR ''0'' \<and> 1 < length ds) \<or> (r \<noteq> [] \<and> hd r \<in> {CHR ''.'', CHR ''e'', CHR ''E''})
      then None else Some (JNum (atoi ds), r))"

text \<open>
  Values, array elements and object members. The first argument bounds the number of nested
  calls; the length of the text is always enough.
\<close>

fun json_value :: "nat \<Rightarrow> string \<Rightarrow> (json \<times> string) option"
  and json_array :: "nat \<Rightarrow> string \<Rightarrow> (json list \<times> string) option"
  and json_object :: "nat \<Rightarrow> string \<Rightarrow> ((string \<times> json) list \<times> string) option" where
  "json_value 0 s = None"
| "json_value (Suc n) s =
     (case skip_ws s of
        [] \<Rightarrow> None
      | c # r \<Rightarrow>
        if c = CHR 0x22 then map_option (map_prod JStr id) (json_unquote r)
        else if c = CHR ''{'' then
          (case expect (CHR ''}'') r of
             Some r' \<Rightarrow> Some (JObj [], r')
           | None \<Rightarrow> map_option (map_prod JObj id) (json_object n r))
        else if c = CHR ''['' then
          (case expect (CHR '']'') r of
             Some r' \<Rightarrow> Some (JArr [], r')
           | None \<Rightarrow> map_option (map_prod JArr id) (json_array n r))
        else if c = CHR ''n'' then (if take 3 r = ''ull'' then Some (JNull, drop 3 r) else None)
        else json_number (c # r))"
| "json_array 0 s = None"
| "json_array (Suc n) s =
     do { (v, r) \<leftarrow> json_value n s;
          (case expect (CHR '']'') r of
             Some r' \<Rightarrow> Some ([v], r')
           | None \<Rightarrow> do { r' \<leftarrow> expect (CHR '','') r; (vs, q) \<leftarrow> json_array n r'; Some (v # vs, q) }) }"
| "json_object 0 s = None"
| "json_object (Suc n) s =
     do { r0 \<leftarrow> expect (CHR 0x22) s;
          (k, r1) \<leftarrow> json_unquote r0;
          r2 \<leftarrow> expect (CHR '':'') r1;
          (v, r) \<leftarrow> json_value n r2;
          (case expect (CHR ''}'') r of
             Some r' \<Rightarrow> Some ([(k, v)], r')
           | None \<Rightarrow> do { r' \<leftarrow> expect (CHR '','') r; (ms, q) \<leftarrow> json_object n r'; Some ((k, v) # ms, q) }) }"

text \<open>\<^verbatim>\<open>Decoder.Decode\<close> takes the first value of the text and leaves the rest.\<close>

definition json_Decode :: "string \<Rightarrow> (json \<times> string) option" where
  "json_Decode s = json_value (Suc (length s)) s"

text \<open>\<^verbatim>\<open>Unmarshal\<close> allows nothing but white space after the value.\<close>

definition json_Unmarshal :: "string \<Rightarrow> json option" where
  "json_Unmarshal s = do { (v, r) \<leftarrow> json_Decode s; if skip_ws r = [] then Some v else None }"

text \<open>The last member of a name decides the field; \<^verbatim>\<open>null\<close> and absence leave the zero value.\<close>

definition json_field :: "json \<Rightarrow> string \<Rightarrow> json option" where
  "json_field v k = (case v of JObj ms \<Rightarrow> map_of (rev ms) k | _ \<Rightarrow> None)"

text \<open>A text that does not continue a number.\<close>

definition num_end :: "string \<Rightarrow> bool" where
  "num_end s = (s = [] \<or> (\<not> is_digit (hd s) \<and> hd s \<notin> {CHR ''.'', CHR ''e'', CHR ''E''}))"

section \<open>Lemmas\<close>

subsection \<open>Numbers\<close>

lemma atoi_itoa [simp]: "atoi (itoa n) = n"
proof (induction n rule: itoa.induct)
  case (1 n)
  then show ?case
    by (cases "n < 10") (auto simp: itoa.simps [of n] atoi_def)
qed

lemma hd_itoa: "hd (itoa n) = CHR ''0'' \<longleftrightarrow> n = 0"
proof (induction n rule: itoa.induct)
  case (1 n)
  then show ?case
    by (cases "n < 10") (auto simp: itoa.simps [of n] digit_char_zero_iff hd_append)
qed

lemma json_number_itoa:
  assumes "num_end r"
  shows "json_number (itoa n @ r) = Some (JNum n, r)"
proof -
  have "takeWhile is_digit (itoa n @ r) = itoa n" and "dropWhile is_digit (itoa n @ r) = r"
    using assms set_itoa [of _ n] by (auto simp: num_end_def takeWhile_append dropWhile_append takeWhile_eq_Nil_iff dropWhile_eq_self_iff)
  moreover have "hd (itoa n) = CHR ''0'' \<Longrightarrow> length (itoa n) = 1"
    by (simp add: hd_itoa itoa_1)
  ultimately show ?thesis
    using assms by (auto simp: json_number_def Let_def num_end_def)
qed

subsection \<open>Strings\<close>

lemma hex_val_hex_char: "d < 16 \<Longrightarrow> hex_val (hex_char d) = Some d"
  by (auto simp: hex_val_def hex_char_def Let_def)

lemma hex_val_0 [simp]: "hex_val (CHR ''0'') = Some 0"
  by (simp add: hex_val_def)

lemma json_unquote_escape:
  "json_unquote (json_escape_char c @ s) = map_option (map_prod ((#) c) id) (json_unquote s)"
proof -
  let ?short = "c = CHR 0x22 \<or> c = CHR 0x5C \<or> c = CHR 0x0A \<or> c = CHR 0x0D \<or> c = CHR 0x09"
  let ?hex = "of_char c < (32 :: nat) \<or> c = CHR ''<'' \<or> c = CHR ''>'' \<or> c = CHR ''&''"
  show ?thesis
  proof (cases ?short)
    case True
    then show ?thesis
      by (cases "json_unquote s") (elim disjE; simp add: json_escape_char_def unescape_def split: prod.split)+
  next
    case short: False
    show ?thesis
    proof (cases ?hex)
      case True
      with short have e: "json_escape_char c =
          [CHR 0x5C, CHR ''u'', CHR ''0'', CHR ''0'', hex_char (of_char c div 16), hex_char (of_char c mod 16)]"
        by (simp add: json_escape_char_def)
      have n: "of_char c < (128 :: nat)"
        using True by (elim disjE) simp_all
      then have "(of_char c :: nat) div 16 < 16" "(of_char c :: nat) mod 16 < 16"
        by simp_all
      with e n show ?thesis
        by (cases "json_unquote s") (simp_all add: hex_val_hex_char utf8_def split: prod.split)
    next
      case False
      with short have "json_escape_char c = [c]"
        by (simp add: json_escape_char_def)
      with short False show ?thesis
        by (cases "json_unquote s") (simp_all split: prod.split)
    qed
  qed
qed

lemma json_unquote_quoted:
  "json_unquote (concat (map json_escape_char s) @ CHR 0x22 # r) = Some (s, r)"
  by (induction s) (simp_all add: json_unquote_escape)

subsection \<open>Decoding what was printed\<close>

lemma expect_hd [simp]: "\<not> is_ws c \<Longrightarrow> expect c (c # s) = Some s"
  by (simp add: expect_def skip_ws_def)

lemma expect_other [simp]: "\<not> is_ws d \<Longrightarrow> d \<noteq> c \<Longrightarrow> expect c (d # s) = None"
  by (simp add: expect_def skip_ws_def)

lemma skip_ws_hd [simp]: "\<not> is_ws c \<Longrightarrow> skip_ws (c # s) = c # s"
  by (simp add: skip_ws_def)

lemma not_ws_lit [simp]:
  "\<not> is_ws (CHR 0x22)" "\<not> is_ws (CHR ''{'')" "\<not> is_ws (CHR ''}'')" "\<not> is_ws (CHR ''['')"
  "\<not> is_ws (CHR '']'')" "\<not> is_ws (CHR '','')" "\<not> is_ws (CHR '':'')" "\<not> is_ws (CHR ''n'')"
  by (simp_all add: is_ws_def)

lemma not_ws_digit: "is_digit c \<Longrightarrow> \<not> is_ws c"
  by (auto simp: is_ws_def is_digit_def)

lemma num_end_lit [simp]: "num_end (CHR ''}'' # s)" "num_end (CHR '']'' # s)" "num_end (CHR '','' # s)"
  by (simp_all add: num_end_def is_digit_def)

lemma json_value_number:
  assumes "num_end r"
  shows "json_value (Suc n) (itoa k @ r) = Some (JNum k, r)"
proof -
  obtain c s where cs: "itoa k @ r = c # s" and c: "is_digit c"
    using set_itoa [of "hd (itoa k)" k] itoa_not_Nil [of k]
    by (metis append_Cons list.collapse list.set_intros(1))
  have "c \<noteq> CHR 0x22 \<and> c \<noteq> CHR ''{'' \<and> c \<noteq> CHR ''['' \<and> c \<noteq> CHR ''n''"
    using c by (auto simp: is_digit_def)
  with cs c json_number_itoa [OF assms, of k] show ?thesis
    by (simp add: not_ws_digit)
qed

text \<open>The first character of a printed value never closes an array.\<close>

lemma expect_Marshal: "expect (CHR '']'') (json_Marshal v @ r) = None"
proof (cases v)
  case (JNum k)
  obtain c s where "itoa k @ r = c # s" and "is_digit c"
    using set_itoa [of "hd (itoa k)" k] itoa_not_Nil [of k]
    by (metis append_Cons list.collapse list.set_intros(1))
  moreover from this have "c \<noteq> CHR '']''"
    by (auto simp: is_digit_def)
  ultimately show ?thesis
    using JNum by (simp add: not_ws_digit)
qed (simp_all add: json_quote_def)

lemma json_roundtrip_aux:
  "length (json_Marshal v) \<le> n \<Longrightarrow> num_end r \<Longrightarrow> json_value n (json_Marshal v @ r) = Some (v, r)"
  "vs \<noteq> [] \<Longrightarrow> length (json_elems vs) \<le> n \<Longrightarrow> json_array n (json_elems vs @ r) = Some (vs, r)"
  "ms \<noteq> [] \<Longrightarrow> length (json_members ms) \<le> n \<Longrightarrow> json_object n (json_members ms @ r) = Some (ms, r)"
proof (induction v and vs and ms arbitrary: n r and n r and n r rule: json_Marshal_json_elems_json_members.induct)
  case 1
  then show ?case by (cases n) auto
next
  case (2 k)
  then show ?case by (cases n) (auto simp: json_value_number simp del: json_value.simps)
next
  case (3 s)
  then show ?case by (cases n) (auto simp: json_quote_def json_unquote_quoted)
next
  case (4 vs)
  then show ?case
    by (cases n; cases vs rule: json_elems.cases) (auto simp: expect_Marshal)
next
  case (5 ms)
  then show ?case
    by (cases n; cases ms rule: json_members.cases) (auto simp: json_quote_def)
next
  case (7 v)
  then show ?case by (cases n) auto
next
  case (8 v w vs)
  then show ?case by (cases n) auto
next
  case (10 k v)
  then show ?case by (cases n) (auto simp: json_quote_def json_unquote_quoted)
next
  case (11 k v m ms)
  then show ?case by (cases n) (auto simp: json_quote_def json_unquote_quoted)
qed simp_all

lemma json_Decode_Marshal: "num_end r \<Longrightarrow> json_Decode (json_Marshal v @ r) = Some (v, r)"
  unfolding json_Decode_def by (rule json_roundtrip_aux(1)) simp_all

lemma json_Decode_Encode: "json_Decode (json_Encode v @ r) = Some (v, CHR 0x0A # r)"
  by (simp add: json_Encode_def json_Decode_Marshal num_end_def is_digit_def)

lemma json_Unmarshal_Marshal [simp]: "json_Unmarshal (json_Marshal v) = Some v"
  using json_Decode_Marshal [of "[]" v] by (simp add: json_Unmarshal_def num_end_def skip_ws_def)

end
