(* ===== verification/Link.thy ===== *)
theory Link
  imports Bytes JSON
begin

text \<open>
  Package \<^verbatim>\<open>multiplexer\<close> without its goroutines: the protocol and ALPN numbers and their
  printed names (\<^verbatim>\<open>protocol/\<close>, \<^verbatim>\<open>alpn/\<close>), the \<^verbatim>\<open>Link\<close> that every stream starts with and
  its 18-byte wire form (\<^verbatim>\<open>link.go\<close>), the configuration check (\<^verbatim>\<open>const.go\<close>) and the
  registries of peer constructors and dialers (\<^verbatim>\<open>constructor.go\<close>, \<^verbatim>\<open>dialer.go\<close>).
\<close>

section \<open>Protocols\<close>

text \<open>
  \<^verbatim>\<open>type Protocol byte\<close>: a value read from the wire may be any byte, so the type is the
  byte and the enumeration is a set of constants.
\<close>

type_synonym Protocol = byte

definition Unknown :: Protocol where
  "Unknown = 0"

definition Yamux :: Protocol where
  "Yamux = 1"

definition Mplex :: Protocol where
  "Mplex = 2"

definition QUIC :: Protocol where
  "QUIC = 3"

definition TLSProtos :: "Protocol list" where
  "TLSProtos = [Yamux, Mplex]"

definition QUICProtos :: "Protocol list" where
  "QUICProtos = [QUIC]"

definition Protocol_name :: string where
  "Protocol_name = ''unknownyamuxmplexquic''"

definition Protocol_index :: "nat list" where
  "Protocol_index = [0, 7, 12, 17, 21]"

definition Protocol_String :: "Protocol \<Rightarrow> string" where
  "Protocol_String i =
     (if unat i \<ge> length Protocol_index - 1 then ''Protocol('' @ itoa (unat i) @ '')''
      else take (Protocol_index ! (unat i + 1) - Protocol_index ! unat i)
             (drop (Protocol_index ! unat i) Protocol_name))"

section \<open>ALPN\<close>

type_synonym ALPN = byte

definition ALPN_Unknown :: ALPN where
  "ALPN_Unknown = 0"

definition ALPN_Multiplexer :: ALPN where
  "ALPN_Multiplexer = 1"

definition ALPN_HTTP :: ALPN where
  "ALPN_HTTP = 2"

definition ALPN_Raw :: ALPN where
  "ALPN_Raw = 3"

definition ALPN_name :: string where
  "ALPN_name = ''multiplexerhttp/1.1raw''"

definition ALPN_index :: "nat list" where
  "ALPN_index = [0, 0, 11, 19, 22]"

definition ALPN_String :: "ALPN \<Rightarrow> string" where
  "ALPN_String i =
     (if unat i \<ge> length ALPN_index - 1 then ''ALPN('' @ itoa (unat i) @ '')''
      else take (ALPN_index ! (unat i + 1) - ALPN_index ! unat i)
             (drop (ALPN_index ! unat i) ALPN_name))"

definition ALPN_Map :: "ALPN \<rightharpoonup> string" where
  "ALPN_Map = [ALPN_Unknown \<mapsto> ALPN_String ALPN_Unknown,
               ALPN_Multiplexer \<mapsto> ALPN_String ALPN_Multiplexer,
               ALPN_HTTP \<mapsto> ALPN_String ALPN_HTTP,
               ALPN_Raw \<mapsto> ALPN_String ALPN_Raw]"

text \<open>
  \<^verbatim>\<open>for k, v := range Map\<close> visits the entries of the map in an unspecified order: the order
  of the keys is an argument.
\<close>

definition map_order :: "('k \<rightharpoonup> 'v) \<Rightarrow> 'k list \<Rightarrow> bool" where
  "map_order m order = (distinct order \<and> set order = dom m)"

definition ReverseMap :: "ALPN list \<Rightarrow> string \<rightharpoonup> ALPN" where
  "ReverseMap order = foldl (\<lambda>m k. m(the (ALPN_Map k) \<mapsto> k)) Map.empty order"

definition Protos :: "ALPN list \<Rightarrow> string list" where
  "Protos order = foldl (\<lambda>s k. s @ [the (ALPN_Map k)]) [] order"

text \<open>\<^verbatim>\<open>ReverseMap[proto]\<close>: a missing key reads as the zero value.\<close>

definition ReverseMap_get :: "ALPN list \<Rightarrow> string \<Rightarrow> ALPN" where
  "ReverseMap_get order proto = (case ReverseMap order proto of None \<Rightarrow> 0 | Some a \<Rightarrow> a)"

section \<open>Links\<close>

definition LinkSize :: nat where
  "LinkSize = 18"

record Link =
  Source :: u64
  Destination :: u64
  Protocol :: Protocol
  ALPN :: ALPN

definition MessagingLink :: Link where
  "MessagingLink = \<lparr>Source = 0, Destination = 0, Protocol = 0, ALPN = 0\<rparr>"

text \<open>
  The methods \<^verbatim>\<open>MarshalLogObject\<close>: the fields that are added to a log entry, in order. Their
  error result is the constant \<^verbatim>\<open>nil\<close> and is left out.
\<close>

datatype log_field = AddString string string | AddUint64 string u64 | AddBool string bool

definition Protocol_MarshalLogObject :: "Protocol \<Rightarrow> log_field list" where
  "Protocol_MarshalLogObject p = [AddString ''Protocol'' (Protocol_String p)]"

definition ALPN_MarshalLogObject :: "ALPN \<Rightarrow> log_field list" where
  "ALPN_MarshalLogObject a = [AddString ''ALPN'' (ALPN_String a)]"

definition Link_MarshalLogObject :: "Link \<Rightarrow> log_field list" where
  "Link_MarshalLogObject l =
     [AddUint64 ''Source'' (Source l), AddUint64 ''Destination'' (Destination l)] @
     Protocol_MarshalLogObject (Protocol l) @ ALPN_MarshalLogObject (ALPN l)"

text \<open>The error result of \<^verbatim>\<open>MarshalBinary\<close> is the constant \<^verbatim>\<open>nil\<close> and is left out.\<close>

definition Link_MarshalBinary :: "Link \<Rightarrow> bytes" where
  "Link_MarshalBinary s =
     (let b = make_bytes LinkSize;
          b = copy_at 0 (PutUint64 (Source s)) b;
          b = copy_at 8 (PutUint64 (Destination s)) b;
          b = b[16 := Protocol s];
          b = b[17 := ALPN s]
      in b)"

definition Link_UnmarshalBinary :: "Link \<Rightarrow> bytes \<Rightarrow> error + Link" where
  "Link_UnmarshalBinary s b =
     (if length b \<noteq> LinkSize then Inl (Errorf ''invalid buffer length: %d'' [length b])
      else Inr (s\<lparr>Source := Uint64 (take 8 b),
                  Destination := Uint64 (take 8 (drop 8 b)),
                  Protocol := b ! 16,
                  ALPN := b ! 17\<rparr>))"

definition Flip :: "Link \<Rightarrow> Link" where
  "Flip s = s\<lparr>Destination := Source s, Source := Destination s\<rparr>"

section \<open>Configuration and registries\<close>

text \<open>
  \<^verbatim>\<open>Config.Logger\<close> and \<^verbatim>\<open>Config.Conn\<close> are references that may be \<^verbatim>\<open>nil\<close>; a connection is
  named by a number. \<^verbatim>\<open>Wait\<close> is in nanoseconds.
\<close>

record Config =
  cfg_Logger :: "unit option"
  cfg_Conn :: "nat option"
  cfg_Peer :: u64
  cfg_Initiator :: bool
  cfg_Wait :: nat

definition Config_Validate :: "Config \<Rightarrow> error option" where
  "Config_Validate p =
     (if cfg_Logger p = None then Some (Errorf ''nil logger is invalid'' [])
      else if cfg_Conn p = None then Some (Errorf ''nil conn is invalid'' [])
      else if cfg_Peer p = 0 then Some (Errorf ''peer cannot be 0'' [])
      else None)"

type_synonym 'c registry = "Protocol \<rightharpoonup> 'c"

definition RegisterConstructor :: "'c registry \<Rightarrow> Protocol \<Rightarrow> 'c \<Rightarrow> 'c registry" where
  "RegisterConstructor reg p c = reg(p \<mapsto> c)"

definition New :: "'c registry \<Rightarrow> Protocol \<Rightarrow> error + 'c" where
  "New reg p =
     (case reg p of
        None \<Rightarrow> Inl (Sentinel ErrUnknownProtocol)
      | Some c \<Rightarrow> if p = Unknown then Inl (Sentinel ErrUnknownProtocol) else Inr c)"

definition RegisterDialer :: "'d registry \<Rightarrow> Protocol \<Rightarrow> 'd \<Rightarrow> 'd registry" where
  "RegisterDialer reg p d = reg(p \<mapsto> d)"

definition Dialer :: "'d registry \<Rightarrow> Protocol \<Rightarrow> error + 'd" where
  "Dialer reg p =
     (case reg p of
        None \<Rightarrow> Inl (Sentinel ErrUnknownProtocol)
      | Some d \<Rightarrow> if p = Unknown then Inl (Sentinel ErrUnknownProtocol) else Inr d)"

section \<open>Lemmas\<close>

lemmas proto_defs = Unknown_def Yamux_def Mplex_def QUIC_def

lemmas alpn_defs = ALPN_Unknown_def ALPN_Multiplexer_def ALPN_HTTP_def ALPN_Raw_def

subsection \<open>Names\<close>

lemma ALPN_String_known [simp]:
  "ALPN_String ALPN_Unknown = ''''"
  "ALPN_String ALPN_Multiplexer = ''multiplexer''"
  "ALPN_String ALPN_HTTP = ''http/1.1''"
  "ALPN_String ALPN_Raw = ''raw''"
  by (simp_all add: ALPN_String_def ALPN_index_def ALPN_name_def alpn_defs)

lemma Protocol_String_known [simp]:
  "Protocol_String Unknown = ''unknown''"
  "Protocol_String Yamux = ''yamux''"
  "Protocol_String Mplex = ''mplex''"
  "Protocol_String QUIC = ''quic''"
  by (simp_all add: Protocol_String_def Protocol_index_def Protocol_name_def proto_defs)

text \<open>The printed names tell all 256 bytes apart, so a logged link can be told from every other.\<close>

lemma byte_cases:
  fixes i :: byte
  obtains "i = 0" | "i = 1" | "i = 2" | "i = 3" | "4 \<le> unat i"
proof -
  have "unat i = 0 \<or> unat i = 1 \<or> unat i = 2 \<or> unat i = 3 \<or> 4 \<le> unat i"
    by arith
  then show ?thesis
    using that by (auto simp: word_unat_eq_iff)
qed

lemma Protocol_String_large: "4 \<le> unat i \<Longrightarrow> Protocol_String i = ''Protocol('' @ itoa (unat i) @ '')''"
  by (simp add: Protocol_String_def Protocol_index_def)

lemma ALPN_String_large: "4 \<le> unat i \<Longrightarrow> ALPN_String i = ''ALPN('' @ itoa (unat i) @ '')''"
  by (simp add: ALPN_String_def ALPN_index_def)

lemma itoa_inj: "itoa m = itoa n \<Longrightarrow> m = n"
  by (metis atoi_itoa)

lemma Protocol_String_inj: "Protocol_String i = Protocol_String j \<longleftrightarrow> i = j"
proof
  assume "Protocol_String i = Protocol_String j"
  with Protocol_String_known [unfolded proto_defs] show "i = j"
    by (cases i rule: byte_cases; cases j rule: byte_cases)
      (auto simp: Protocol_String_large dest!: itoa_inj intro: word_unat_eq_iff [THEN iffD2])
qed simp

lemma ALPN_String_inj: "ALPN_String i = ALPN_String j \<longleftrightarrow> i = j"
proof
  assume "ALPN_String i = ALPN_String j"
  with ALPN_String_known [unfolded alpn_defs] show "i = j"
    by (cases i rule: byte_cases; cases j rule: byte_cases)
      (auto simp: ALPN_String_large dest!: itoa_inj intro: word_unat_eq_iff [THEN iffD2])
qed simp

lemma Link_MarshalLogObject_inj: "Link_MarshalLogObject k = Link_MarshalLogObject l \<longleftrightarrow> k = l"
  by (cases k; cases l)
    (auto simp: Link_MarshalLogObject_def Protocol_MarshalLogObject_def ALPN_MarshalLogObject_def Protocol_String_inj ALPN_String_inj)

lemma alpn_distinct [simp]:
  "ALPN_Unknown \<noteq> ALPN_Multiplexer" "ALPN_Unknown \<noteq> ALPN_HTTP" "ALPN_Unknown \<noteq> ALPN_Raw"
  "ALPN_Multiplexer \<noteq> ALPN_Unknown" "ALPN_Multiplexer \<noteq> ALPN_HTTP" "ALPN_Multiplexer \<noteq> ALPN_Raw"
  "ALPN_HTTP \<noteq> ALPN_Unknown" "ALPN_HTTP \<noteq> ALPN_Multiplexer" "ALPN_HTTP \<noteq> ALPN_Raw"
  "ALPN_Raw \<noteq> ALPN_Unknown" "ALPN_Raw \<noteq> ALPN_Multiplexer" "ALPN_Raw \<noteq> ALPN_HTTP"
  by (simp_all add: alpn_defs)

lemma dom_ALPN_Map: "dom ALPN_Map = {ALPN_Unknown, ALPN_Multiplexer, ALPN_HTTP, ALPN_Raw}"
  by (auto simp: ALPN_Map_def)

lemma ALPN_Map_dom: "a \<in> dom ALPN_Map \<Longrightarrow> ALPN_Map a = Some (ALPN_String a)"
  by (auto simp: ALPN_Map_def split: if_splits)

lemma ALPN_Map_inj:
  "a \<in> dom ALPN_Map \<Longrightarrow> b \<in> dom ALPN_Map \<Longrightarrow> the (ALPN_Map a) = the (ALPN_Map b) \<Longrightarrow> a = b"
  by (auto simp: ALPN_Map_dom dom_ALPN_Map)

text \<open>Inverting an injective finite map by a loop over its keys, in any order.\<close>

lemma foldl_invert:
  assumes "inj_on f (set ks)" and "distinct ks" and "k \<in> set ks"
  shows "foldl (\<lambda>m k. m(f k \<mapsto> k)) m0 ks (f k) = Some k"
  using assms
proof (induction ks arbitrary: m0 rule: rev_induct)
  case Nil
  then show ?case by simp
next
  case (snoc x ks)
  show ?case
  proof (cases "k = x")
    case True
    then show ?thesis by simp
  next
    case False
    with snoc.prems have "f k \<noteq> f x" and "k \<in> set ks"
      by (auto simp: inj_on_def)
    with snoc.prems snoc.IH show ?thesis
      by (auto simp: inj_on_def)
  qed
qed

lemma foldl_invert_dom: "dom (foldl (\<lambda>m k. m(f k \<mapsto> k)) m0 ks) = dom m0 \<union> f ` set ks"
  by (induction ks arbitrary: m0) auto

lemma ReverseMap_String:
  assumes "map_order ALPN_Map order" and "a \<in> dom ALPN_Map"
  shows "ReverseMap order (ALPN_String a) = Some a"
proof -
  have "inj_on (\<lambda>k. the (ALPN_Map k)) (set order)"
    using assms(1) ALPN_Map_inj unfolding inj_on_def map_order_def by blast
  then have "ReverseMap order (the (ALPN_Map a)) = Some a"
    unfolding ReverseMap_def using assms by (intro foldl_invert) (auto simp: map_order_def)
  with assms(2) show ?thesis by (simp add: ALPN_Map_dom)
qed

lemma ReverseMap_unknown:
  assumes "map_order ALPN_Map order" and "s \<notin> ALPN_String ` dom ALPN_Map"
  shows "ReverseMap order s = None"
proof -
  have "dom (ReverseMap order) = ALPN_String ` dom ALPN_Map"
    using assms(1) by (auto simp: ReverseMap_def foldl_invert_dom map_order_def ALPN_Map_dom image_iff)
  with assms(2) show ?thesis by blast
qed

subsection \<open>The wire form of a link\<close>

lemma Link_MarshalBinary_wire [wire]:
  "Link_MarshalBinary l =
     PutUint64 (Source l) @ PutUint64 (Destination l) @ [Protocol l, ALPN l]"
proof -
  have s: "copy_at 0 (PutUint64 (Source l)) (make_bytes LinkSize) = PutUint64 (Source l) @ replicate 10 0"
    by (simp add: copy_at_front LinkSize_def)
  have d: "copy_at 8 (PutUint64 (Destination l)) (PutUint64 (Source l) @ replicate 10 0) =
      (PutUint64 (Source l) @ PutUint64 (Destination l)) @ replicate 2 0"
    using copy_at_fill [of "PutUint64 (Destination l)" 10 "PutUint64 (Source l)"] by simp
  show ?thesis
    unfolding Link_MarshalBinary_def Let_def s d
    by (simp add: list_update_append numeral_2_eq_2)
qed

lemma length_Link_MarshalBinary [simp]: "length (Link_MarshalBinary l) = LinkSize"
  by (simp add: wire LinkSize_def)

lemma Link_MarshalBinary_not_Nil [simp]: "Link_MarshalBinary l \<noteq> []"
  by (simp add: wire)

lemma Link_Unmarshal_Marshal [simp]: "Link_UnmarshalBinary s (Link_MarshalBinary l) = Inr l"
  unfolding Link_UnmarshalBinary_def by (simp add: wire LinkSize_def nth_append)

lemma Link_Marshal_Unmarshal:
  assumes "Link_UnmarshalBinary s b = Inr l"
  shows "Link_MarshalBinary l = b"
proof -
  from assms have len: "length b = 18"
    and l: "l = s\<lparr>Source := Uint64 (take 8 b), Destination := Uint64 (take 8 (drop 8 b)),
                  Protocol := b ! 16, ALPN := b ! 17\<rparr>"
    by (auto simp: Link_UnmarshalBinary_def LinkSize_def split: if_splits)
  have "drop 16 b = [b ! 16, b ! 17]"
    using len by (intro nth_equalityI) (auto simp: less_Suc_eq numeral_2_eq_2)
  moreover have "b = take 8 b @ take 8 (drop 8 b) @ drop 16 b"
    by (metis append_take_drop_id drop_drop numeral_Bit0)
  ultimately show ?thesis
    using len l by (simp add: wire)
qed

lemma Link_UnmarshalBinary_short: "length b \<noteq> LinkSize \<Longrightarrow> \<exists>e. Link_UnmarshalBinary s b = Inl e"
  by (simp add: Link_UnmarshalBinary_def)

interpretation link_wire: fixed_codec Link_MarshalBinary "\<lambda>b. ok_of (Link_UnmarshalBinary s b)" "\<lambda>_. True" LinkSize
proof unfold_locales
  fix b
  show "length b \<noteq> LinkSize \<Longrightarrow> ok_of (Link_UnmarshalBinary s b) = None"
    by (simp add: ok_of_eq_None Link_UnmarshalBinary_short)
  show "length b = LinkSize \<Longrightarrow> \<exists>x. ok_of (Link_UnmarshalBinary s b) = Some x"
    by (simp add: Link_UnmarshalBinary_def)
qed (simp_all add: Link_Marshal_Unmarshal)

subsection \<open>Registries\<close>

lemma New_Inr_iff: "New reg p = Inr c \<longleftrightarrow> reg p = Some c \<and> p \<noteq> Unknown"
  by (auto simp: New_def split: option.splits)

lemma Dialer_Inr_iff: "Dialer reg p = Inr d \<longleftrightarrow> reg p = Some d \<and> p \<noteq> Unknown"
  by (auto simp: Dialer_def split: option.splits)

lemma New_Inl: "New reg p = Inl e \<Longrightarrow> e = Sentinel ErrUnknownProtocol"
  by (auto simp: New_def split: option.splits if_splits)

lemma Config_Validate_None_iff:
  "Config_Validate p = None \<longleftrightarrow> cfg_Logger p \<noteq> None \<and> cfg_Conn p \<noteq> None \<and> cfg_Peer p \<noteq> 0"
  by (simp add: Config_Validate_def)

section \<open>Properties\<close>

text \<open>Round trip of the link handshake. Every link survives encoding and decoding into any
  receiver, the encoding has exactly \<^verbatim>\<open>LinkSize\<close> bytes, a buffer is accepted exactly when it
  has that length, and no two accepted buffers decode to the same link.\<close>

lemma link_roundtrip:
  "Link_UnmarshalBinary s (Link_MarshalBinary l) = Inr l \<and>
   length (Link_MarshalBinary l) = LinkSize \<and>
   (length b = LinkSize \<longleftrightarrow> (\<exists>m. Link_UnmarshalBinary s b = Inr m \<and> Link_MarshalBinary m = b))"
  using link_wire.decode_accepts_iff [of s b] Link_Marshal_Unmarshal [of s b] by auto

end
