(* ===== verification/Channel.thy ===== *)
theory Channel
  imports Link
begin

text \<open>
  The helper that hands accepted streams to the owner of a session
  (\<^verbatim>\<open>multiplexer/channel.go\<close>): an unbuffered incoming channel, a buffered outgoing one, a
  closer, and three flags set by compare-and-swap. Goroutines inside \<^verbatim>\<open>Run\<close>, \<^verbatim>\<open>Put\<close> and
  \<^verbatim>\<open>Close\<close> interleave in atomic steps; the operations that would panic (closing a closed
  channel, sending on one) do so in the model.
\<close>

section \<open>State\<close>

definition outgoing_cap :: nat where
  "outgoing_cap = 32"

record 'a Channel =
  outgoing :: "'a list"
  outgoing_st :: lifecycle
  closer :: lifecycle
  closed :: bool
  chClosed :: bool
  started :: bool

definition NewChannel :: "'a Channel" where
  "NewChannel =
     \<lparr>outgoing = [], outgoing_st = Open, closer = Open, closed = False, chClosed = False, started = False\<rparr>"

text \<open>
  Where a goroutine stands. \<open>R_Start\<close> is at the first compare-and-swap of \<^verbatim>\<open>Run\<close>,
  \<open>R_Select\<close> at the \<^verbatim>\<open>select\<close>, \<open>R_Send x\<close> at \<^verbatim>\<open>c.outgoing <- x\<close>, \<open>R_Cas\<close> and \<open>R_Close\<close>
  in \<^verbatim>\<open>closeChannel\<close>; \<open>C_Cas\<close> and \<open>C_Close\<close> are in \<^verbatim>\<open>Close\<close>.
\<close>

datatype 'a run_pc = R_Start | R_Select | R_Send 'a | R_Cas | R_Close | R_Exit

datatype close_pc = C_Cas | C_Close | C_Done bool

record 'a chan_sys =
  chan :: "'a Channel"
  runners :: "'a run_pc multiset"
  putters :: "'a multiset"
  closers :: "close_pc multiset"
  ctx_done :: bool
  accepted :: "'a list"
  received :: "'a list"
  panicked :: "panic option"

definition chan_init :: "'a chan_sys" where
  "chan_init = \<lparr>chan = NewChannel, runners = {#}, putters = {#}, closers = {#}, ctx_done = False,
                accepted = [], received = [], panicked = None\<rparr>"

section \<open>Steps\<close>

inductive chan_step :: "'a chan_sys \<Rightarrow> 'a chan_sys \<Rightarrow> bool" where
  cancel: "chan_step S (S\<lparr>ctx_done := True\<rparr>)"
| call_run: "chan_step S (S\<lparr>runners := add_mset R_Start (runners S)\<rparr>)"
| run_lose: "runners S = add_mset R_Start R \<Longrightarrow> started (chan S) \<Longrightarrow>
    chan_step S (S\<lparr>runners := add_mset R_Exit R\<rparr>)"
| run_win: "runners S = add_mset R_Start R \<Longrightarrow> \<not> started (chan S) \<Longrightarrow>
    chan_step S (S\<lparr>chan := (chan S)\<lparr>started := True\<rparr>, runners := add_mset R_Select R\<rparr>)"
| run_ctx: "runners S = add_mset R_Select R \<Longrightarrow> ctx_done S \<Longrightarrow>
    chan_step S (S\<lparr>runners := add_mset R_Cas R\<rparr>)"
| run_closer: "runners S = add_mset R_Select R \<Longrightarrow> closer (chan S) = Closed \<Longrightarrow>
    chan_step S (S\<lparr>runners := add_mset R_Cas R\<rparr>)"
| run_incoming: "runners S = add_mset R_Select R \<Longrightarrow> putters S = add_mset x P \<Longrightarrow>
    chan_step S (S\<lparr>runners := add_mset (R_Send x) R, putters := P, accepted := accepted S @ [x]\<rparr>)"
| run_send: "runners S = add_mset (R_Send x) R \<Longrightarrow> outgoing_st (chan S) = Open \<Longrightarrow>
    length (outgoing (chan S)) < outgoing_cap \<Longrightarrow>
    chan_step S (S\<lparr>chan := (chan S)\<lparr>outgoing := outgoing (chan S) @ [x]\<rparr>, runners := add_mset R_Select R\<rparr>)"
| run_send_closed: "runners S = add_mset (R_Send x) R \<Longrightarrow> outgoing_st (chan S) = Closed \<Longrightarrow>
    chan_step S (S\<lparr>panicked := Some SendOnClosedChannel\<rparr>)"
| cas_lose: "runners S = add_mset R_Cas R \<Longrightarrow> chClosed (chan S) \<Longrightarrow>
    chan_step S (S\<lparr>runners := add_mset R_Exit R\<rparr>)"
| cas_win: "runners S = add_mset R_Cas R \<Longrightarrow> \<not> chClosed (chan S) \<Longrightarrow>
    chan_step S (S\<lparr>chan := (chan S)\<lparr>chClosed := True\<rparr>, runners := add_mset R_Close R\<rparr>)"
| close_outgoing: "runners S = add_mset R_Close R \<Longrightarrow> outgoing_st (chan S) = Open \<Longrightarrow>
    chan_step S (S\<lparr>chan := (chan S)\<lparr>outgoing_st := Closed\<rparr>, runners := add_mset R_Exit R\<rparr>)"
| close_outgoing_twice: "runners S = add_mset R_Close R \<Longrightarrow> outgoing_st (chan S) = Closed \<Longrightarrow>
    chan_step S (S\<lparr>panicked := Some CloseOfClosedChannel\<rparr>)"
| call_put: "chan_step S (S\<lparr>putters := add_mset x (putters S)\<rparr>)"
| recv: "outgoing (chan S) = x # xs \<Longrightarrow>
    chan_step S (S\<lparr>chan := (chan S)\<lparr>outgoing := xs\<rparr>, received := received S @ [x]\<rparr>)"
| call_close: "chan_step S (S\<lparr>closers := add_mset C_Cas (closers S)\<rparr>)"
| close_lose: "closers S = add_mset C_Cas C \<Longrightarrow> closed (chan S) \<Longrightarrow>
    chan_step S (S\<lparr>closers := add_mset (C_Done False) C\<rparr>)"
| close_win: "closers S = add_mset C_Cas C \<Longrightarrow> \<not> closed (chan S) \<Longrightarrow>
    chan_step S (S\<lparr>chan := (chan S)\<lparr>closed := True\<rparr>, closers := add_mset C_Close C\<rparr>)"
| close_closer: "closers S = add_mset C_Close C \<Longrightarrow> closer (chan S) = Open \<Longrightarrow>
    chan_step S (S\<lparr>chan := (chan S)\<lparr>closer := Closed\<rparr>, closers := add_mset (C_Done True) C\<rparr>)"
| close_closer_twice: "closers S = add_mset C_Close C \<Longrightarrow> closer (chan S) = Closed \<Longrightarrow>
    chan_step S (S\<lparr>panicked := Some CloseOfClosedChannel\<rparr>)"

section \<open>Invariant\<close>

text \<open>A goroutine that has won the first compare-and-swap and has not returned.\<close>

fun active :: "'a run_pc \<Rightarrow> bool" where
  "active R_Start = False"
| "active R_Exit = False"
| "active _ = True"

text \<open>What an active goroutine carries between the two channels.\<close>

fun in_hand :: "'a run_pc \<Rightarrow> 'a list" where
  "in_hand (R_Send x) = [x]"
| "in_hand _ = []"

text \<open>
  There is at most one active goroutine, which has the right to close the outgoing channel;
  at most one \<^verbatim>\<open>Close\<close> call, which has the right to close the closer; and what was taken from
  the senders is, in order, what was received, what is buffered and what is in hand.
\<close>

definition run_inv :: "'a chan_sys \<Rightarrow> bool" where
  "run_inv S =
     (case filter_mset active (runners S) of R \<Rightarrow>
        (R = {#} \<longrightarrow> accepted S = received S @ outgoing (chan S)) \<and>
        (R \<noteq> {#} \<longrightarrow> started (chan S) \<and> outgoing_st (chan S) = Open \<and>
           (\<exists>r. R = {#r#} \<and> (chClosed (chan S) \<longleftrightarrow> r = R_Close) \<and>
                accepted S = received S @ outgoing (chan S) @ in_hand r)))"

definition closer_inv :: "'a chan_sys \<Rightarrow> bool" where
  "closer_inv S =
     (case filter_mset (\<lambda>c. c = C_Close) (closers S) of C \<Rightarrow>
        (\<not> closed (chan S) \<longrightarrow> C = {#} \<and> closer (chan S) = Open) \<and>
        (C \<noteq> {#} \<longrightarrow> C = {#C_Close#} \<and> closer (chan S) = Open))"

definition chan_inv :: "'a chan_sys \<Rightarrow> bool" where
  "chan_inv S =
     (run_inv S \<and> closer_inv S \<and> panicked S = None \<and>
      (started (chan S) \<or> \<not> chClosed (chan S) \<and> outgoing_st (chan S) = Open) \<and>
      length (outgoing (chan S)) \<le> outgoing_cap)"

section \<open>Lemmas\<close>

lemma chan_inv_init: "chan_inv chan_init"
  by (simp add: chan_inv_def run_inv_def closer_inv_def chan_init_def NewChannel_def)

lemma chan_inv_step: "chan_step S T \<Longrightarrow> chan_inv S \<Longrightarrow> chan_inv T"
  by (induction rule: chan_step.induct)
    (auto simp: chan_inv_def run_inv_def closer_inv_def add_mset_eq_single split: if_splits)

interpretation chan_runs: step_invariant chan_step chan_inv
  by unfold_locales (rule chan_inv_step)

lemma chan_inv_reachable: "chan_step\<^sup>*\<^sup>* chan_init S \<Longrightarrow> chan_inv S"
  by (rule chan_runs.run_keeps [OF _ chan_inv_init])

text \<open>Once \<^verbatim>\<open>Run\<close> has returned, no later step takes a value from a sender.\<close>

lemma no_run_step:
  assumes "chan_step S T" and "started (chan S)" and "filter_mset active (runners S) = {#}"
  shows "started (chan T) \<and> filter_mset active (runners T) = {#} \<and> putters S \<subseteq># putters T \<and>
    accepted T = accepted S"
  using assms by (induction rule: chan_step.induct) auto

lemma no_run_steps:
  assumes "chan_step\<^sup>*\<^sup>* S T" and "started (chan S)" and "filter_mset active (runners S) = {#}"
  shows "started (chan T) \<and> filter_mset active (runners T) = {#} \<and> putters S \<subseteq># putters T \<and>
    accepted T = accepted S"
  using assms
proof (induction rule: rtranclp_induct)
  case base
  then show ?case by simp
next
  case (step T U)
  then show ?case
    using no_run_step [OF step.hyps(2)] by (auto intro: subset_mset.order_trans)
qed

lemma chan_step_mono:
  "chan_step S T \<Longrightarrow> closer (chan S) \<le> closer (chan T) \<and> outgoing_st (chan S) \<le> outgoing_st (chan T)"
  by (induction rule: chan_step.induct) auto

subsection \<open>Two runs\<close>

text \<open>One value travels from \<^verbatim>\<open>Put\<close> to the consumer.\<close>

lemma deliver_run:
  "chan_step\<^sup>*\<^sup>* chan_init
     (chan_init\<lparr>chan := NewChannel\<lparr>started := True\<rparr>, runners := {#R_Select#},
                accepted := [7 :: nat], received := [7]\<rparr>)"
proof -
  let ?c = "NewChannel\<lparr>started := True\<rparr> :: nat Channel"
  let ?S1 = "chan_init\<lparr>runners := {#R_Start#}\<rparr> :: nat chan_sys"
  let ?S2 = "chan_init\<lparr>chan := ?c, runners := {#R_Select#}\<rparr>"
  let ?S3 = "?S2\<lparr>putters := {#7#}\<rparr>"
  let ?S4 = "chan_init\<lparr>chan := ?c, runners := {#R_Send 7#}, accepted := [7]\<rparr>"
  let ?S5 = "chan_init\<lparr>chan := ?c\<lparr>outgoing := [7]\<rparr>, runners := {#R_Select#}, accepted := [7]\<rparr>"
  have "chan_step chan_init ?S1"
    using chan_step.call_run [of chan_init] by (simp add: chan_init_def)
  moreover have "chan_step ?S1 ?S2"
    using chan_step.run_win [of ?S1 "{#}"] by (simp add: chan_init_def NewChannel_def)
  moreover have "chan_step ?S2 ?S3"
    using chan_step.call_put [of ?S2 7] by (simp add: chan_init_def)
  moreover have "chan_step ?S3 ?S4"
    using chan_step.run_incoming [of ?S3 "{#}" 7 "{#}"] by (simp add: chan_init_def)
  moreover have "chan_step ?S4 ?S5"
    using chan_step.run_send [of ?S4 7 "{#}"] by (simp add: chan_init_def NewChannel_def outgoing_cap_def)
  moreover have "chan_step ?S5 (chan_init\<lparr>chan := ?c, runners := {#R_Select#}, accepted := [7], received := [7]\<rparr>)"
    using chan_step.recv [of ?S5 7 "[]"] by (simp add: chan_init_def NewChannel_def)
  ultimately show ?thesis
    by (meson rtranclp.rtrancl_into_rtrancl rtranclp.rtrancl_refl)
qed

text \<open>\<^verbatim>\<open>Run\<close> returns on a cancelled context; a stream is accepted afterwards.\<close>

lemma late_put_run:
  "chan_step\<^sup>*\<^sup>* chan_init
     (chan_init\<lparr>chan := NewChannel\<lparr>started := True, chClosed := True, outgoing_st := Closed\<rparr>,
                runners := {#R_Exit#}, ctx_done := True, putters := {#7 :: nat#}\<rparr>)"
proof -
  let ?c = "NewChannel\<lparr>started := True\<rparr> :: nat Channel"
  let ?S1 = "chan_init\<lparr>runners := {#R_Start#}\<rparr> :: nat chan_sys"
  let ?S2 = "chan_init\<lparr>chan := ?c, runners := {#R_Select#}\<rparr>"
  let ?S3 = "?S2\<lparr>ctx_done := True\<rparr>"
  let ?S4 = "?S3\<lparr>runners := {#R_Cas#}\<rparr>"
  let ?S5 = "?S4\<lparr>chan := ?c\<lparr>chClosed := True\<rparr>, runners := {#R_Close#}\<rparr>"
  let ?S6 = "?S4\<lparr>chan := ?c\<lparr>chClosed := True, outgoing_st := Closed\<rparr>, runners := {#R_Exit#}\<rparr>"
  have "chan_step chan_init ?S1"
    using chan_step.call_run [of chan_init] by (simp add: chan_init_def)
  moreover have "chan_step ?S1 ?S2"
    using chan_step.run_win [of ?S1 "{#}"] by (simp add: chan_init_def NewChannel_def)
  moreover have "chan_step ?S2 ?S3"
    using chan_step.cancel [of ?S2] by (simp add: chan_init_def)
  moreover have "chan_step ?S3 ?S4"
    using chan_step.run_ctx [of ?S3 "{#}"] by (simp add: chan_init_def)
  moreover have "chan_step ?S4 ?S5"
    using chan_step.cas_win [of ?S4 "{#}"] by (simp add: chan_init_def NewChannel_def)
  moreover have "chan_step ?S5 ?S6"
    using chan_step.close_outgoing [of ?S5 "{#}"] by (simp add: chan_init_def NewChannel_def)
  moreover have "chan_step ?S6 (?S6\<lparr>putters := {#7#}\<rparr>)"
    using chan_step.call_put [of ?S6 7] by (simp add: chan_init_def)
  ultimately have "chan_step\<^sup>*\<^sup>* chan_init (?S6\<lparr>putters := {#7#}\<rparr>)"
    by (meson rtranclp.rtrancl_into_rtrancl rtranclp.rtrancl_refl)
  then show ?thesis
    by (simp add: chan_init_def)
qed

section \<open>Properties\<close>

text \<open>C6: safety of the stream hand-over under every interleaving of \<^verbatim>\<open>Run\<close>, \<^verbatim>\<open>Put\<close>, \<^verbatim>\<open>Close\<close>,
  cancellation and the consumer. No goroutine ever sends on or closes a closed channel, the
  buffer never exceeds its capacity, and streams come out in the order in which they were
  taken in, none lost and none duplicated, with at most one in flight.\<close>

theorem channel_safe_fifo:
  assumes "chan_step\<^sup>*\<^sup>* chan_init S"
  shows "panicked S = None \<and> length (outgoing (chan S)) \<le> outgoing_cap \<and>
    (\<exists>flight. accepted S = received S @ outgoing (chan S) @ flight \<and> length flight \<le> 1)"
proof -
  have inv: "chan_inv S"
    using assms by (rule chan_inv_reachable)
  have "length (in_hand r) \<le> 1" for r :: "'a run_pc"
    by (cases r) auto
  with inv have "\<exists>flight. accepted S = received S @ outgoing (chan S) @ flight \<and> length flight \<le> 1"
    by (cases "filter_mset active (runners S) = {#}") (auto simp: chan_inv_def run_inv_def)
  with inv show ?thesis
    by (simp add: chan_inv_def)
qed

lemma channel_safe_fifo_witness:
  "\<exists>S :: nat chan_sys. chan_step\<^sup>*\<^sup>* chan_init S \<and> received S = [7] \<and> panicked S = None \<and>
     length (outgoing (chan S)) \<le> outgoing_cap \<and>
     (\<exists>flight. accepted S = received S @ outgoing (chan S) @ flight \<and> length flight \<le> 1)"
  by (rule exI, rule conjI [OF deliver_run], rule conjI [OF _ channel_safe_fifo [OF deliver_run]]) simp

text \<open>C28: a sender that comes after \<^verbatim>\<open>Run\<close> has returned blocks for ever. A reachable state has a
  goroutine inside \<^verbatim>\<open>Put\<close> that no continuation of the run can release.\<close>

theorem channel_put_stuck:
  "\<exists>S. chan_step\<^sup>*\<^sup>* chan_init S \<and> 7 \<in># putters S \<and>
     \<not> (\<exists>T. chan_step\<^sup>*\<^sup>* S T \<and> (7 :: nat) \<notin># putters T)"
proof -
  let ?S = "chan_init\<lparr>chan := NewChannel\<lparr>started := True, chClosed := True, outgoing_st := Closed\<rparr>,
                runners := {#R_Exit#}, ctx_done := True, putters := {#7 :: nat#}\<rparr>"
  have "7 \<in># putters T" if "chan_step\<^sup>*\<^sup>* ?S T" for T
    using no_run_steps [OF that] by (auto dest: mset_subset_eqD)
  with late_put_run show ?thesis
    by (intro exI [of _ ?S]) auto
qed

end
