(* ===== verification/Net.thy ===== *)
theory Net
  imports JSON
begin

text \<open>
  Connections as the sources use them. A \<^verbatim>\<open>net.Conn\<close> is a device of any type with a read and
  a write operation, which are arguments, together with its deadlines and whether it was
  closed. A read may store fewer bytes than asked for and may report an error beside them.
\<close>

section \<open>Readers, writers and connections\<close>

text \<open>\<^verbatim>\<open>time.Second\<close>.\<close>

definition second :: nat where
  "second = 1000000000"

type_synonym 'r reader = "nat \<Rightarrow> 'r \<Rightarrow> bytes \<times> error option \<times> 'r"

type_synonym 'w writer = "bytes \<Rightarrow> 'w \<Rightarrow> nat \<times> error option \<times> 'w"

record 'c net_conn =
  dev :: 'c
  read_deadline :: "nat option"
  write_deadline :: "nat option"
  conn_st :: lifecycle

definition net_conn_of :: "'c \<Rightarrow> 'c net_conn" where
  "net_conn_of d = \<lparr>dev = d, read_deadline = None, write_deadline = None, conn_st = Open\<rparr>"

definition SetReadDeadline :: "nat option \<Rightarrow> 'c net_conn \<Rightarrow> 'c net_conn" where
  "SetReadDeadline t c = c\<lparr>read_deadline := t\<rparr>"

definition SetWriteDeadline :: "nat option \<Rightarrow> 'c net_conn \<Rightarrow> 'c net_conn" where
  "SetWriteDeadline t c = c\<lparr>write_deadline := t\<rparr>"

definition conn_Close :: "'c net_conn \<Rightarrow> 'c net_conn" where
  "conn_Close c = c\<lparr>conn_st := Closed\<rparr>"

definition conn_Read :: "'c reader \<Rightarrow> 'c net_conn reader" where
  "conn_Read Read n c = (case Read n (dev c) of (b, err, d) \<Rightarrow> (b, err, c\<lparr>dev := d\<rparr>))"

definition conn_Write :: "'c writer \<Rightarrow> 'c net_conn writer" where
  "conn_Write Write b c = (case Write b (dev c) of (n, err, d) \<Rightarrow> (n, err, c\<lparr>dev := d\<rparr>))"

text \<open>\<^verbatim>\<open>r := make([]byte, n)\<close> followed by \<^verbatim>\<open>_, err = conn.Read(r)\<close>: the count is not looked at.\<close>

definition read_into :: "'r reader \<Rightarrow> nat \<Rightarrow> 'r \<Rightarrow> bytes \<times> error option \<times> 'r" where
  "read_into Read n c = (case Read n c of (b, err, c') \<Rightarrow> (copy_at 0 b (make_bytes n), err, c'))"

text \<open>What the documentation of \<^verbatim>\<open>io.Reader\<close> and \<^verbatim>\<open>io.Writer\<close> promises of the counts.\<close>

definition reader_contract :: "'r reader \<Rightarrow> bool" where
  "reader_contract Read = (\<forall>n r. length (fst (Read n r)) \<le> n)"

definition writer_contract :: "'w writer \<Rightarrow> bool" where
  "writer_contract Write =
     (\<forall>b w. case Write b w of (n, err, w') \<Rightarrow> n \<le> length b \<and> (n < length b \<longrightarrow> err \<noteq> None))"

section \<open>JSON over a connection\<close>

text \<open>
  \<^verbatim>\<open>json.NewEncoder(conn).Encode(v)\<close> makes one \<^verbatim>\<open>Write\<close> and looks at its error only.
\<close>

definition Encoder_Encode :: "'w writer \<Rightarrow> json \<Rightarrow> 'w \<Rightarrow> error option \<times> 'w" where
  "Encoder_Encode Write v w = (case Write (string_bytes (json_Encode v)) w of (n, err, w') \<Rightarrow> (err, w'))"

text \<open>
  \<^verbatim>\<open>json.NewDecoder(conn).Decode(&v)\<close>: the decoder reads chunks of 512 bytes into its buffer
  until the buffer starts with a whole value; an error counts only if the bytes that came with
  it do not complete one. What is left in the buffer is given beside the value: it is gone
  for every other reader of the connection. A reader that gives nothing for ever makes the call
  hang, which is the result \<^const>\<open>None\<close>.
\<close>

partial_function (option) Decoder_Decode ::
  "'r reader \<Rightarrow> bytes \<Rightarrow> 'r \<Rightarrow> (error + json \<times> bytes \<times> 'r) option" where
  "Decoder_Decode Read buf r =
     (case json_Decode (bytes_string buf) of
        Some (v, rest) \<Rightarrow> Some (Inr (v, string_bytes rest, r))
      | None \<Rightarrow>
        (case Read 512 r of
           (b, Some err, r') \<Rightarrow>
             (case json_Decode (bytes_string (buf @ b)) of
                Some (v, rest) \<Rightarrow> Some (Inr (v, string_bytes rest, r'))
              | None \<Rightarrow> Some (Inl err))
         | (b, None, r') \<Rightarrow> Decoder_Decode Read (buf @ b) r'))"

section \<open>Two devices\<close>

text \<open>
  A byte list read from the front, with \<^verbatim>\<open>io.EOF\<close> at the end, and a pair of such lists: what is
  still to be read and what has been written.
\<close>

definition list_reader :: "bytes reader" where
  "list_reader n bs = (if bs = [] \<and> 0 < n then ([], Some (Sentinel EOF), []) else (take n bs, None, drop n bs))"

record duplex =
  inbox :: bytes
  outbox :: bytes

definition duplex_Read :: "duplex reader" where
  "duplex_Read n d = (case list_reader n (inbox d) of (b, err, bs) \<Rightarrow> (b, err, d\<lparr>inbox := bs\<rparr>))"

definition duplex_Write :: "duplex writer" where
  "duplex_Write b d = (length b, None, d\<lparr>outbox := outbox d @ b\<rparr>)"

section \<open>Lemmas\<close>

lemma reader_contract_duplex [simp]: "reader_contract duplex_Read"
  by (simp add: reader_contract_def duplex_Read_def list_reader_def)

lemma writer_contract_duplex [simp]: "writer_contract duplex_Write"
  by (simp add: writer_contract_def duplex_Write_def)

lemma length_read_into: "reader_contract Read \<Longrightarrow> length (fst (read_into Read n c)) = n"
  by (simp add: read_into_def split: prod.split)

lemma conn_Read_contract: "reader_contract Read \<Longrightarrow> reader_contract (conn_Read Read)"
  by (auto simp: reader_contract_def conn_Read_def split: prod.split) (metis fst_conv)

text \<open>A value that is already in the next chunk is found by the first read.\<close>

lemma Decoder_Decode_one_read:
  assumes "json_Decode (bytes_string []) = None"
    and "Read 512 r = (b, None, r')" and "json_Decode (bytes_string b) = Some (v, rest)"
  shows "Decoder_Decode Read [] r = Some (Inr (v, string_bytes rest, r'))"
  using assms by (subst Decoder_Decode.simps, simp, subst Decoder_Decode.simps) simp

end
