(* ===== verification/Messages.thy ===== *)
theory Messages
  imports Bytes Net
begin

text \<open>
  The frames of the messaging channel between peers: \<^verbatim>\<open>messaging/const.go\<close>,
  \<^verbatim>\<open>messaging/message.go\<close> and the request/reply envelope of \<^verbatim>\<open>messaging/rpc.go\<close>. Decoding
  slices and allocates from lengths found in the input, so it is modelled with its panics.
\<close>

section \<open>Message types\<close>

text \<open>\<^verbatim>\<open>type MessageType int\<close>: a 64-bit value, converted to and from \<^verbatim>\<open>uint64\<close> on the wire.\<close>

type_synonym MessageType = u64

definition MessageUnknown :: MessageType where
  "MessageUnknown = 0"

definition MessageACMEAccountKey :: MessageType where
  "MessageACMEAccountKey = 1"

definition MessageClientCerts :: MessageType where
  "MessageClientCerts = 2"

definition MessageTest :: MessageType where
  "MessageTest = 3"

definition messageRequestReply :: MessageType where
  "messageRequestReply = 4"

definition messageHeaderLength :: nat where
  "messageHeaderLength = 24"

definition rrHeaderLength :: nat where
  "rrHeaderLength = 17"

section \<open>Messages (\<^verbatim>\<open>messaging/message.go\<close>)\<close>

record Message =
  msg_Type :: MessageType
  msg_From :: u64
  msg_Data :: bytes

definition Message_MarshalBinary :: "Message \<Rightarrow> bytes" where
  "Message_MarshalBinary m =
     (let dl = length (msg_Data m);
          buf = make_bytes (messageHeaderLength + dl);
          buf = copy_at 0 (PutUint64 (of_nat dl)) buf;
          buf = copy_at 8 (PutUint64 (msg_Type m)) buf;
          buf = copy_at 16 (PutUint64 (msg_From m)) buf;
          buf = copy_at messageHeaderLength (msg_Data m) buf
      in buf)"

definition Message_UnmarshalBinary :: "Message \<Rightarrow> bytes \<Rightarrow> Message go" where
  "Message_UnmarshalBinary m b =
     bind_go (slice 0 8 b) (\<lambda>b0.
       (let dl = Uint64 b0 in
        bind_go (slice 8 16 b) (\<lambda>b8.
        bind_go (slice 16 messageHeaderLength b) (\<lambda>b16.
        bind_go (make_slice (unat dl)) (\<lambda>d.
        bind_go (slice messageHeaderLength (length b) b) (\<lambda>rest.
          Ret (m\<lparr>msg_Type := Uint64 b8, msg_From := Uint64 b16, msg_Data := copy_at 0 rest d\<rparr>)))))))"

text \<open>
  \<^verbatim>\<open>ReadFrom\<close> makes one \<^verbatim>\<open>Read\<close> call for the header and one for the data. The reader is an
  argument \<open>Read n r\<close>, giving the bytes stored in a buffer of \<open>n\<close> bytes, the error and the
  reader's next state. The result is the message, the count, the error and the reader.
\<close>

definition Message_ReadFrom ::
  "'r reader \<Rightarrow> Message \<Rightarrow> 'r \<Rightarrow> (Message \<times> nat \<times> error option \<times> 'r) go" where
  "Message_ReadFrom Read m f =
     (case Read messageHeaderLength f of (head_read, err, f) \<Rightarrow>
      let head = copy_at 0 head_read (make_bytes messageHeaderLength);
          l = length head_read;
          x = l
      in case err of
           Some e \<Rightarrow> Ret (m, x, Some (Wrapf ''reading message header: %w'' [] e), f)
         | None \<Rightarrow>
           if l \<noteq> messageHeaderLength
           then Ret (m, x, Some (Errorf ''invalid buffer length: %d'' [l]), f)
           else
             (let m = m\<lparr>msg_Type := Uint64 (take 8 (drop 8 head))\<rparr>;
                  m = m\<lparr>msg_From := Uint64 (take 8 (drop 16 head))\<rparr>;
                  dl = unat (Uint64 (take 8 head))
              in bind_go (make_slice dl) (\<lambda>data.
                   case Read dl f of (data_read, err, f) \<Rightarrow>
                     let m = m\<lparr>msg_Data := copy_at 0 data_read data\<rparr>;
                         l = length data_read;
                         x = x + l
                     in case err of
                          Some e \<Rightarrow> Ret (m, x, Some (Wrapf ''reading message data: %w'' [] e), f)
                        | None \<Rightarrow>
                          if l \<noteq> dl then Ret (m, x, Some (Errorf ''incomplete data buffer read'' []), f)
                          else Ret (m, x, None, f))))"

section \<open>Requests and replies (\<^verbatim>\<open>messaging/rpc.go\<close>)\<close>

record requestReply =
  rr_request :: bool
  rr_key :: u64
  rr_data :: bytes

definition requestReply_Pack :: "requestReply \<Rightarrow> bytes" where
  "requestReply_Pack r =
     (let dl = length (rr_data r);
          buf = make_bytes (rrHeaderLength + dl);
          buf = copy_at 0 (PutUint64 (of_nat dl)) buf;
          buf = copy_at 8 (PutUint64 (rr_key r)) buf;
          buf = (if rr_request r then buf[16 := 1] else buf);
          buf = copy_at rrHeaderLength (rr_data r) buf
      in buf)"

definition requestReply_Unpack :: "requestReply \<Rightarrow> bytes \<Rightarrow> requestReply go" where
  "requestReply_Unpack r b =
     bind_go (slice 0 8 b) (\<lambda>b0.
       (let dl = unat (Uint64 b0) in
        bind_go (slice 8 16 b) (\<lambda>b8.
        bind_go (make_slice dl) (\<lambda>d.
        bind_go (index b 16) (\<lambda>flag.
        bind_go (slice rrHeaderLength (length b) b) (\<lambda>rest.
          (let r = r\<lparr>rr_key := Uint64 b8\<rparr>;
               r = (if flag = 1 then r\<lparr>rr_request := True\<rparr> else r);
               r = r\<lparr>rr_data := copy_at 0 rest d\<rparr>
           in Ret r)))))))"

definition requestReply_zero :: requestReply where
  "requestReply_zero = \<lparr>rr_request = False, rr_key = 0, rr_data = []\<rparr>"

section \<open>Lemmas\<close>

lemma unat_of_nat_alloc: "n \<le> maxAlloc \<Longrightarrow> unat (of_nat n :: u64) = n"
  by (simp add: unat_of_nat maxAlloc_def)

lemma make_slice_ok [simp]: "n \<le> maxAlloc \<Longrightarrow> make_slice n = Ret (replicate n 0)"
  by (simp add: make_slice_def)

lemma make_slice_big [simp]: "maxAlloc < n \<Longrightarrow> make_slice n = Panic MakeSliceLen"
  by (simp add: make_slice_def)

lemma make_slice_Ret_iff: "make_slice n = Ret d \<longleftrightarrow> n \<le> maxAlloc \<and> d = replicate n 0"
  by (auto simp: make_slice_def)

lemma Message_MarshalBinary_wire [wire]:
  "Message_MarshalBinary m =
     PutUint64 (of_nat (length (msg_Data m))) @ PutUint64 (msg_Type m) @ PutUint64 (msg_From m) @ msg_Data m"
proof -
  let ?n = "length (msg_Data m)" and ?t = "PutUint64 (msg_Type m)" and ?f = "PutUint64 (msg_From m)"
  let ?l = "PutUint64 (of_nat ?n)"
  have c1: "copy_at 0 ?l (make_bytes (24 + ?n)) = ?l @ replicate (16 + ?n) 0"
    by (simp add: copy_at_front)
  have c2: "copy_at 8 ?t (?l @ replicate (16 + ?n) 0) = (?l @ ?t) @ replicate (8 + ?n) 0"
    using copy_at_fill [of ?t "16 + ?n" ?l] by simp
  have c3: "copy_at 16 ?f ((?l @ ?t) @ replicate (8 + ?n) 0) = (?l @ ?t @ ?f) @ replicate ?n 0"
    using copy_at_fill [of ?f "8 + ?n" "?l @ ?t"] by simp
  have c4: "copy_at 24 (msg_Data m) ((?l @ ?t @ ?f) @ replicate ?n 0) = ?l @ ?t @ ?f @ msg_Data m"
    using copy_at_fill [of "msg_Data m" ?n "?l @ ?t @ ?f"] by simp
  show ?thesis
    unfolding Message_MarshalBinary_def Let_def messageHeaderLength_def c1 c2 c3 c4 by (rule refl)
qed

lemma requestReply_Pack_wire [wire]:
  "requestReply_Pack r =
     PutUint64 (of_nat (length (rr_data r))) @ PutUint64 (rr_key r) @ [if rr_request r then 1 else 0] @ rr_data r"
proof -
  let ?n = "length (rr_data r)" and ?k = "PutUint64 (rr_key r)"
  let ?l = "PutUint64 (of_nat ?n)" and ?b = "[if rr_request r then 1 else 0 :: byte]"
  have c1: "copy_at 0 ?l (make_bytes (17 + ?n)) = ?l @ replicate (9 + ?n) 0"
    by (simp add: copy_at_front)
  have c2: "copy_at 8 ?k (?l @ replicate (9 + ?n) 0) = (?l @ ?k) @ replicate (Suc ?n) 0"
    using copy_at_fill [of ?k "9 + ?n" ?l] by simp
  have c3: "(if rr_request r then ((?l @ ?k) @ replicate (Suc ?n) 0)[16 := 1] else (?l @ ?k) @ replicate (Suc ?n) 0) =
      (?l @ ?k @ ?b) @ replicate ?n 0"
    by (simp add: list_update_append)
  have c4: "copy_at 17 (rr_data r) ((?l @ ?k @ ?b) @ replicate ?n 0) = ?l @ ?k @ ?b @ rr_data r"
    using copy_at_fill [of "rr_data r" ?n "?l @ ?k @ ?b"] by simp
  show ?thesis
    unfolding requestReply_Pack_def Let_def rrHeaderLength_def c1 c2 c3 c4 by (rule refl)
qed

lemma length_Message_MarshalBinary [simp]:
  "length (Message_MarshalBinary m) = messageHeaderLength + length (msg_Data m)"
  by (simp add: wire messageHeaderLength_def)

lemma Message_Unmarshal_Marshal:
  "length (msg_Data m) \<le> maxAlloc \<Longrightarrow> Message_UnmarshalBinary m0 (Message_MarshalBinary m) = Ret m"
  by (simp add: Message_UnmarshalBinary_def wire messageHeaderLength_def unat_of_nat_alloc copy_at_all)

interpretation message_wire:
  codec Message_MarshalBinary "\<lambda>b. ret_of (Message_UnmarshalBinary m0 b)" "\<lambda>m. length (msg_Data m) \<le> maxAlloc"
  by unfold_locales (simp add: Message_Unmarshal_Marshal)

lemma requestReply_Unpack_Pack:
  "length (rr_data r) \<le> maxAlloc \<Longrightarrow>
   requestReply_Unpack r0 (requestReply_Pack r) = Ret (r\<lparr>rr_request := rr_request r0 \<or> rr_request r\<rparr>)"
  by (auto simp: requestReply_Unpack_def wire rrHeaderLength_def unat_of_nat_alloc copy_at_all nth_append)

lemma requestReply_Unpack_zero:
  "length (rr_data r) \<le> maxAlloc \<Longrightarrow> requestReply_Unpack requestReply_zero (requestReply_Pack r) = Ret r"
  by (simp add: requestReply_Unpack_Pack requestReply_zero_def)

interpretation rpc_wire:
  codec requestReply_Pack "\<lambda>b. ret_of (requestReply_Unpack requestReply_zero b)" "\<lambda>r. length (rr_data r) \<le> maxAlloc"
  by unfold_locales (simp add: requestReply_Unpack_zero)

text \<open>When \<^verbatim>\<open>Unpack\<close> survives: the envelope is complete and its length field can be allocated.\<close>

lemma requestReply_Unpack_panics_iff:
  "panics (requestReply_Unpack r b) \<longleftrightarrow>
     length b < rrHeaderLength \<or> maxAlloc < unat (Uint64 (take 8 b))"
proof (cases "length b < 16")
  case True
  then show ?thesis
    by (cases "length b < 8") (simp_all add: requestReply_Unpack_def rrHeaderLength_def)
next
  case False
  then show ?thesis
    by (cases "maxAlloc < unat (Uint64 (take 8 b))"; cases "length b = 16")
      (auto simp: requestReply_Unpack_def rrHeaderLength_def Let_def)
qed

subsection \<open>Reading a frame\<close>

lemma Uint64_header:
  assumes "length h = 24"
  shows "h = PutUint64 (Uint64 (take 8 h)) @ PutUint64 (Uint64 (take 8 (drop 8 h))) @
             PutUint64 (Uint64 (take 8 (drop 16 h)))"
proof -
  have "h = take 8 h @ take 8 (drop 8 h) @ drop 16 h"
    by (metis append_take_drop_id drop_drop numeral_Bit0)
  with assms show ?thesis by simp
qed

lemma Message_ReadFrom_ok:
  assumes "Read messageHeaderLength f = (take messageHeaderLength (Message_MarshalBinary m), None, f1)"
    and "Read (length (msg_Data m)) f1 = (msg_Data m, None, f2)"
    and "length (msg_Data m) \<le> maxAlloc"
  shows "Message_ReadFrom Read m0 f = Ret (m, length (Message_MarshalBinary m), None, f2)"
  using assms
  by (simp add: Message_ReadFrom_def Let_def wire messageHeaderLength_def unat_of_nat_alloc copy_at_all)

lemma Message_ReadFrom_sound:
  assumes ret: "Message_ReadFrom Read m0 f = Ret (m, x, None, f2)"
    and contract: "\<And>n r. length (fst (Read n r)) \<le> n"
  obtains f1 where "Read messageHeaderLength f = (take messageHeaderLength (Message_MarshalBinary m), None, f1)"
    and "Read (length (msg_Data m)) f1 = (msg_Data m, None, f2)"
    and "length (msg_Data m) \<le> maxAlloc" and "x = length (Message_MarshalBinary m)"
proof -
  obtain h e1 f1 where r1: "Read 24 f = (h, e1, f1)"
    by (metis prod_cases3)
  define dl where "dl = unat (Uint64 (take 8 h))"
  obtain d e2 f3 where r2: "Read dl f1 = (d, e2, f3)"
    by (metis prod_cases3)
  have h: "e1 = None" "length h = 24"
    using ret r1 by (auto simp: Message_ReadFrom_def messageHeaderLength_def Let_def split: option.splits if_splits)
  have dm: "e2 = None" "length d = dl" "dl \<le> maxAlloc" "f2 = f3" "x = 24 + dl"
      "m = \<lparr>msg_Type = Uint64 (take 8 (drop 8 h)), msg_From = Uint64 (take 8 (drop 16 h)), msg_Data = d\<rparr>"
    using ret r1 r2 h
    by (auto simp: Message_ReadFrom_def messageHeaderLength_def Let_def dl_def [symmetric] copy_at_all
        bind_go_Ret_iff make_slice_Ret_iff split: option.splits if_splits prod.splits)
  have "of_nat dl = Uint64 (take 8 h)"
    by (simp add: dl_def)
  then have "take 24 (Message_MarshalBinary m) = h"
    using Uint64_header [OF h(2)] dm by (simp add: wire)
  with r1 r2 h dm show ?thesis
    by (intro that [of f1]) (simp_all add: messageHeaderLength_def)
qed

lemma Message_ReadFrom_panics_iff:
  assumes "Read messageHeaderLength f = (h, None, f1)" and "length h = messageHeaderLength"
  shows "panics (Message_ReadFrom Read m0 f) \<longleftrightarrow> maxAlloc < unat (Uint64 (take 8 h))"
  using assms
  by (cases "maxAlloc < unat (Uint64 (take 8 h))")
    (auto simp: Message_ReadFrom_def Let_def copy_at_all messageHeaderLength_def split: prod.splits option.splits)

section \<open>Properties\<close>

text \<open>C26: reading a frame is exact. For a reader that never stores more than the buffer holds,
  \<^verbatim>\<open>ReadFrom\<close> returns a message without an error if and only if the two reads delivered exactly
  the wire image of that message, and the count is the length of that image.\<close>

theorem message_ReadFrom_exact:
  assumes contract: "\<And>n r. length (fst (Read n r)) \<le> n"
  shows "Message_ReadFrom Read m0 f = Ret (m, x, None, f2) \<longleftrightarrow>
    (\<exists>f1. Read messageHeaderLength f = (take messageHeaderLength (Message_MarshalBinary m), None, f1) \<and>
          Read (length (msg_Data m)) f1 = (msg_Data m, None, f2) \<and>
          length (msg_Data m) \<le> maxAlloc \<and> x = length (Message_MarshalBinary m))"
    (is "_ = ?delivered")
proof
  assume "Message_ReadFrom Read m0 f = Ret (m, x, None, f2)"
  then show "?delivered"
    by (rule Message_ReadFrom_sound [OF _ contract]) blast
next
  assume "?delivered"
  then show "Message_ReadFrom Read m0 f = Ret (m, x, None, f2)"
    using Message_ReadFrom_ok [of Read f m _ f2 m0] by auto
qed

lemma message_ReadFrom_exact_witness:
  "Message_ReadFrom list_reader \<lparr>msg_Type = 0, msg_From = 0, msg_Data = []\<rparr>
     (Message_MarshalBinary \<lparr>msg_Type = 1, msg_From = 7, msg_Data = [1, 2, 3, 4]\<rparr> @ [9]) =
   Ret (\<lparr>msg_Type = 1, msg_From = 7, msg_Data = [1, 2, 3, 4]\<rparr>, 28, None, [9])"
proof -
  have "length (fst (list_reader n r)) \<le> n" for n r
    by (simp add: list_reader_def)
  then show ?thesis
    by (subst message_ReadFrom_exact)
      (auto simp: list_reader_def wire messageHeaderLength_def maxAlloc_def)
qed

text \<open>Unpacking a request or reply panics exactly when the payload is shorter than the
  17-byte envelope or its length field exceeds what can be allocated.\<close>

theorem rpc_Unpack_panics:
  "panics (requestReply_Unpack r b) \<longleftrightarrow>
     length b < rrHeaderLength \<or> maxAlloc < unat (Uint64 (take 8 b))"
  by (rule requestReply_Unpack_panics_iff)

end
