(* ===== verification/Messaging.thy ===== *)
theory Messaging
  imports Messages Link
begin

text \<open>
  The messaging channel of a server: the goroutines of \<^verbatim>\<open>messaging/channel.go\<close> (registration of
  a stream, its writer, its reader, the goroutine that waits for both, \<^verbatim>\<open>forget\<close>, \<^verbatim>\<open>write\<close> and
  \<^verbatim>\<open>Announce\<close>) and the calls of \<^verbatim>\<open>messaging/rpc.go\<close>. Streams and goroutines are numbered in the
  order in which they were started. An event says which goroutine moves and what the
  environment chose for it; the transition of an event is a function, so runs can be
  evaluated, and a state is reachable by any sequence of events.
\<close>

section \<open>Streams (\<^verbatim>\<open>messaging/channel.go\<close>)\<close>

definition chan_cap :: nat where
  "chan_cap = 16"

record 'c messageChannel =
  mc_conn :: "'c net_conn"
  mc_in :: "Message list"
  mc_in_st :: lifecycle
  mc_out :: "Message list"
  mc_out_st :: lifecycle

text \<open>
  Positions in \<^verbatim>\<open>forget\<close>: before \<^verbatim>\<open>LoadAndDelete\<close>, before closing the connection, \<^verbatim>\<open>in\<close> and \<^verbatim>\<open>out\<close>
  of the stream that was loaded, and after the call. The reader and the waiting goroutine call
  it last, so that \<open>F_Done\<close> is their end.
\<close>

datatype forget_pc = F_Load | F_Conn nat | F_In nat | F_Out nat | F_Done

datatype writer_pc = W_Range | W_Write Message | W_Done

datatype reader_pc = Rd_Read | Rd_Send Message | Rd_Forget forget_pc

datatype wait_pc = Wt_Wait | Wt_Forget forget_pc

text \<open>
  A registered stream with its three goroutines. The last five fields are its history: the
  messages put into \<^verbatim>\<open>out\<close>, the buffers given to \<^verbatim>\<open>conn.Write\<close>, the messages whose write was
  complete, the messages put into \<^verbatim>\<open>in\<close> and those taken from it.
\<close>

record 'c stream =
  st_peer :: u64
  st_mc :: "'c messageChannel"
  st_writer :: writer_pc
  st_reader :: reader_pc
  st_wait :: wait_pc
  sent :: "Message list"
  wire_log :: "bytes list"
  written :: "Message list"
  got :: "Message list"
  taken :: "Message list"

record 'c mchan =
  mc_peers :: "u64 \<rightharpoonup> nat"
  streams :: "'c stream list"
  calls :: "u64 list"
  crashed :: "panic option"

definition mchan_New :: "'c mchan" where
  "mchan_New = \<lparr>mc_peers = Map.empty, streams = [], calls = [], crashed = None\<rparr>"

definition messageChannel_New :: "'c \<Rightarrow> 'c messageChannel" where
  "messageChannel_New c =
     \<lparr>mc_conn = net_conn_of c, mc_in = [], mc_in_st = Open, mc_out = [], mc_out_st = Open\<rparr>"

definition upd_stream :: "nat \<Rightarrow> ('c stream \<Rightarrow> 'c stream) \<Rightarrow> 'c mchan \<Rightarrow> 'c mchan" where
  "upd_stream n f C = C\<lparr>streams := (streams C)[n := f (streams C ! n)]\<rparr>"

definition upd_mc :: "nat \<Rightarrow> ('c messageChannel \<Rightarrow> 'c messageChannel) \<Rightarrow> 'c mchan \<Rightarrow> 'c mchan" where
  "upd_mc n f = upd_stream n (\<lambda>s. s\<lparr>st_mc := f (st_mc s)\<rparr>)"

definition set_reader :: "nat \<Rightarrow> reader_pc \<Rightarrow> 'c mchan \<Rightarrow> 'c mchan" where
  "set_reader n pc = upd_stream n (\<lambda>s. s\<lparr>st_reader := pc\<rparr>)"

definition set_wait :: "nat \<Rightarrow> wait_pc \<Rightarrow> 'c mchan \<Rightarrow> 'c mchan" where
  "set_wait n pc = upd_stream n (\<lambda>s. s\<lparr>st_wait := pc\<rparr>)"

definition duplicated_stream :: panic where
  "duplicated_stream = Explicit ''duplicated messaging stream when it should not be possible''"

text \<open>\<^verbatim>\<open>Register\<close> up to its \<^verbatim>\<open>return\<close>, which is one atomic step of the shared map.\<close>

definition Register :: "u64 \<Rightarrow> 'c \<Rightarrow> 'c mchan \<Rightarrow> 'c mchan" where
  "Register p c C =
     (case mc_peers C p of
        Some k \<Rightarrow> C\<lparr>calls := p # calls C, crashed := Some duplicated_stream\<rparr>
      | None \<Rightarrow>
        C\<lparr>mc_peers := (mc_peers C)(p \<mapsto> length (streams C)), calls := p # calls C,
          streams := streams C @
            [\<lparr>st_peer = p, st_mc = messageChannel_New c, st_writer = W_Range, st_reader = Rd_Read,
              st_wait = Wt_Wait, sent = [], wire_log = [], written = [], got = [], taken = []\<rparr>]\<rparr>)"

text \<open>The writer of stream \<open>n\<close>; \<^const>\<open>None\<close> is a goroutine that waits.\<close>

definition writer_step :: "'c writer \<Rightarrow> nat \<Rightarrow> 'c mchan \<Rightarrow> 'c mchan option" where
  "writer_step Write n C =
     (let s = streams C ! n; comm = st_mc s in
      case st_writer s of
        W_Range \<Rightarrow>
          (case mc_out comm of
             m # ms \<Rightarrow> Some (upd_stream n (\<lambda>s. s\<lparr>st_mc := comm\<lparr>mc_out := ms\<rparr>, st_writer := W_Write m\<rparr>) C)
           | [] \<Rightarrow> if mc_out_st comm = Closed then Some (upd_stream n (\<lambda>s. s\<lparr>st_writer := W_Done\<rparr>) C) else None)
      | W_Write m \<Rightarrow>
          (let b = Message_MarshalBinary m in
           case conn_Write Write b (mc_conn comm) of (w, err, c) \<Rightarrow>
             let ok = (err = None \<and> w = length b) in
             Some (upd_stream n (\<lambda>s. s\<lparr>st_mc := comm\<lparr>mc_conn := c\<rparr>, wire_log := wire_log s @ [b],
                      written := (if ok then written s @ [m] else written s),
                      st_writer := (if ok then W_Range else W_Done)\<rparr>) C))
      | W_Done \<Rightarrow> None)"

text \<open>One step of \<^verbatim>\<open>forget(peer)\<close>.\<close>

fun forget_step :: "u64 \<Rightarrow> forget_pc \<Rightarrow> 'c mchan \<Rightarrow> forget_pc \<times> 'c mchan" where
  "forget_step p F_Load C =
     (case mc_peers C p of
        None \<Rightarrow> (F_Done, C)
      | Some k \<Rightarrow> (F_Conn k, C\<lparr>mc_peers := (mc_peers C)(p := None)\<rparr>))"
| "forget_step p (F_Conn k) C = (F_In k, upd_mc k (\<lambda>c. c\<lparr>mc_conn := conn_Close (mc_conn c)\<rparr>) C)"
| "forget_step p (F_In k) C =
     (if mc_in_st (st_mc (streams C ! k)) = Closed then (F_In k, C\<lparr>crashed := Some CloseOfClosedChannel\<rparr>)
      else (F_Out k, upd_mc k (\<lambda>c. c\<lparr>mc_in_st := Closed\<rparr>) C))"
| "forget_step p (F_Out k) C =
     (if mc_out_st (st_mc (streams C ! k)) = Closed then (F_Out k, C\<lparr>crashed := Some CloseOfClosedChannel\<rparr>)
      else (F_Done, upd_mc k (\<lambda>c. c\<lparr>mc_out_st := Closed\<rparr>) C))"
| "forget_step p F_Done C = (F_Done, C)"

definition Message_zero :: Message where
  "Message_zero = \<lparr>msg_Type = 0, msg_From = 0, msg_Data = []\<rparr>"

text \<open>
  The reader of stream \<open>n\<close>. Beside the state it gives the request or reply for which it starts
  \<^verbatim>\<open>handleRPC\<close>, with its sender.
\<close>

definition reader_step ::
  "'c reader \<Rightarrow> nat \<Rightarrow> 'c mchan \<Rightarrow> ((u64 \<times> requestReply) option \<times> 'c mchan) option" where
  "reader_step Read n C =
     (let s = streams C ! n; comm = st_mc s in
      case st_reader s of
        Rd_Read \<Rightarrow>
          (case Message_ReadFrom (conn_Read Read) Message_zero (mc_conn comm) of
             Panic p \<Rightarrow> Some (None, C\<lparr>crashed := Some p\<rparr>)
           | Ret (m, x, err, c) \<Rightarrow>
             let C = upd_mc n (\<lambda>mc. mc\<lparr>mc_conn := c\<rparr>) C in
             if err \<noteq> None then Some (None, set_reader n (Rd_Forget F_Load) C)
             else if msg_Type m = messageRequestReply then
               (case requestReply_Unpack requestReply_zero (msg_Data m) of
                  Panic p \<Rightarrow> Some (None, C\<lparr>crashed := Some p\<rparr>)
                | Ret r \<Rightarrow> Some (Some (msg_From m, r), C))
             else Some (None, set_reader n (Rd_Send m) C))
      | Rd_Send m \<Rightarrow>
          if mc_in_st comm = Closed then Some (None, C\<lparr>crashed := Some SendOnClosedChannel\<rparr>)
          else if length (mc_in comm) < chan_cap then
            Some (None, upd_stream n (\<lambda>s. s\<lparr>st_mc := comm\<lparr>mc_in := mc_in comm @ [m]\<rparr>, got := got s @ [m],
                     st_reader := Rd_Read\<rparr>) C)
          else None
      | Rd_Forget F_Done \<Rightarrow> None
      | Rd_Forget f \<Rightarrow>
          (case forget_step (st_peer s) f C of (f, C) \<Rightarrow> Some (None, set_reader n (Rd_Forget f) C)))"

text \<open>The goroutine that waits for the writer and the reader of stream \<open>n\<close>.\<close>

definition wait_step :: "nat \<Rightarrow> 'c mchan \<Rightarrow> 'c mchan option" where
  "wait_step n C =
     (let s = streams C ! n in
      case st_wait s of
        Wt_Wait \<Rightarrow>
          if st_writer s = W_Done \<and> st_reader s = Rd_Forget F_Done
          then Some (set_wait n (Wt_Forget F_Load) C) else None
      | Wt_Forget F_Done \<Rightarrow> None
      | Wt_Forget f \<Rightarrow> (case forget_step (st_peer s) f C of (f, C) \<Rightarrow> Some (set_wait n (Wt_Forget f) C)))"

text \<open>The owner of stream \<open>n\<close> takes a message from the channel that \<^verbatim>\<open>Register\<close> returned.\<close>

definition take_step :: "nat \<Rightarrow> 'c mchan \<Rightarrow> 'c mchan option" where
  "take_step n C =
     (case mc_in (st_mc (streams C ! n)) of
        [] \<Rightarrow> None
      | m # ms \<Rightarrow> Some (upd_stream n (\<lambda>s. s\<lparr>st_mc := (st_mc s)\<lparr>mc_in := ms\<rparr>, taken := taken s @ [m]\<rparr>) C))"

text \<open>\<^verbatim>\<open>write(peer, m)\<close>. A send on a closed channel panics and is recovered as \<^verbatim>\<open>ErrPeerGone\<close>.\<close>

datatype write_pc = Wr_Load | Wr_Send nat | Wr_Ret "error option"

fun write_step :: "u64 \<Rightarrow> Message \<Rightarrow> write_pc \<Rightarrow> 'c mchan \<Rightarrow> (write_pc \<times> 'c mchan) option" where
  "write_step p m Wr_Load C =
     (case mc_peers C p of
        None \<Rightarrow> Some (Wr_Ret (Some (Sentinel ErrPeerGone)), C)
      | Some k \<Rightarrow> Some (Wr_Send k, C))"
| "write_step p m (Wr_Send k) C =
     (let comm = st_mc (streams C ! k) in
      if mc_out_st comm = Closed then Some (Wr_Ret (Some (Sentinel ErrPeerGone)), C)
      else if length (mc_out comm) < chan_cap then
        Some (Wr_Ret None,
          upd_stream k (\<lambda>s. s\<lparr>st_mc := (st_mc s)\<lparr>mc_out := mc_out (st_mc s) @ [m]\<rparr>, sent := sent s @ [m]\<rparr>) C)
      else None)"
| "write_step p m (Wr_Ret e) C = None"

section \<open>Calls (\<^verbatim>\<open>messaging/rpc.go\<close>)\<close>

text \<open>
  Positions in \<^verbatim>\<open>Call\<close> and in \<^verbatim>\<open>handleRPC\<close>. The reply channels of both are made by the goroutine
  and never shared by two, so a channel is named by the number of its goroutine.
\<close>

datatype call_pc =
    Cl_Key | Cl_Write write_pc | Cl_Select | Cl_Delete "error + bytes" | Cl_Done "error + bytes"

datatype rpc_pc =
    H_Enqueue | H_Wait | H_Write write_pc | H_Lookup | H_Send nat | H_Exit

datatype goroutine =
    T_write u64 Message write_pc
  | T_Call u64 bytes u64 call_pc
  | T_rpc u64 requestReply rpc_pc

record 'c messaging =
  m_chan :: "'c mchan"
  m_rr :: "u64 \<rightharpoonup> nat"
  m_req :: "(bytes \<times> nat) list"
  m_self :: u64
  tasks :: "goroutine list"
  handlers :: "nat list"

definition messaging_New :: "u64 \<Rightarrow> 'c messaging" where
  "messaging_New self =
     \<lparr>m_chan = mchan_New, m_rr = Map.empty, m_req = [], m_self = self, tasks = [], handlers = []\<rparr>"

definition spawn :: "goroutine list \<Rightarrow> 'c messaging \<Rightarrow> 'c messaging" where
  "spawn ts S = S\<lparr>tasks := tasks S @ ts\<rparr>"

definition set_task :: "nat \<Rightarrow> goroutine \<Rightarrow> 'c messaging \<Rightarrow> 'c messaging" where
  "set_task i t S = S\<lparr>tasks := (tasks S)[i := t]\<rparr>"

text \<open>\<^verbatim>\<open>Announce\<close>: one goroutine per registered peer, in the order in which the map is ranged over.\<close>

definition Announce :: "u64 list \<Rightarrow> MessageType \<Rightarrow> bytes \<Rightarrow> 'c messaging \<Rightarrow> 'c messaging" where
  "Announce order t b S =
     (let m = \<lparr>msg_Type = t, msg_From = m_self S, msg_Data = b\<rparr>
      in spawn (map (\<lambda>p. T_write p m Wr_Load) order) S)"

definition request_message :: "u64 \<Rightarrow> u64 \<Rightarrow> bytes \<Rightarrow> Message" where
  "request_message self key b =
     \<lparr>msg_Type = messageRequestReply, msg_From = self,
      msg_Data = requestReply_Pack \<lparr>rr_request = True, rr_key = key, rr_data = b\<rparr>\<rparr>"

definition reply_message :: "u64 \<Rightarrow> requestReply \<Rightarrow> Message" where
  "reply_message self r =
     \<lparr>msg_Type = messageRequestReply, msg_From = self, msg_Data = requestReply_Pack r\<rparr>"

text \<open>
  The steps of \<^verbatim>\<open>Call\<close> number \<open>i\<close> that need no choice: sending the request, and the deferred
  \<^verbatim>\<open>c.rr.Delete(key)\<close> on the way out.
\<close>

fun Call_step :: "nat \<Rightarrow> u64 \<Rightarrow> bytes \<Rightarrow> u64 \<Rightarrow> call_pc \<Rightarrow> 'c messaging \<Rightarrow> 'c messaging option" where
  "Call_step i p b key (Cl_Write (Wr_Ret None)) S = Some (set_task i (T_Call p b key Cl_Select) S)"
| "Call_step i p b key (Cl_Write (Wr_Ret (Some e))) S =
     Some (set_task i (T_Call p b key (Cl_Delete (Inl (Wrapf ''sending request to peer: %w'' [] e)))) S)"
| "Call_step i p b key (Cl_Write pc) S =
     (case write_step p (request_message (m_self S) key b) pc (m_chan S) of
        None \<Rightarrow> None
      | Some (pc, C) \<Rightarrow> Some (set_task i (T_Call p b key (Cl_Write pc)) (S\<lparr>m_chan := C\<rparr>)))"
| "Call_step i p b key (Cl_Delete res) S =
     Some (set_task i (T_Call p b key (Cl_Done res)) (S\<lparr>m_rr := (m_rr S)(key := None)\<rparr>))"
| "Call_step i p b key pc S = None"

text \<open>The steps of \<^verbatim>\<open>handleRPC\<close> number \<open>i\<close> that need no choice.\<close>

definition handleRPC_start :: "requestReply \<Rightarrow> rpc_pc" where
  "handleRPC_start r = (if rr_request r then H_Enqueue else H_Lookup)"

fun handleRPC_step :: "nat \<Rightarrow> u64 \<Rightarrow> requestReply \<Rightarrow> rpc_pc \<Rightarrow> 'c messaging \<Rightarrow> 'c messaging option" where
  "handleRPC_step i sender r H_Enqueue S =
     (if length (m_req S) < chan_cap
      then Some (set_task i (T_rpc sender r H_Wait) (S\<lparr>m_req := m_req S @ [(rr_data r, i)]\<rparr>)) else None)"
| "handleRPC_step i sender r (H_Write (Wr_Ret e)) S = Some (set_task i (T_rpc sender r H_Exit) S)"
| "handleRPC_step i sender r (H_Write pc) S =
     (case write_step sender (reply_message (m_self S) r) pc (m_chan S) of
        None \<Rightarrow> None
      | Some (pc, C) \<Rightarrow> Some (set_task i (T_rpc sender r (H_Write pc)) (S\<lparr>m_chan := C\<rparr>)))"
| "handleRPC_step i sender r H_Lookup S =
     (case m_rr S (rr_key r) of
        None \<Rightarrow> Some (set_task i (T_rpc sender r H_Exit) S)
      | Some j \<Rightarrow> Some (set_task i (T_rpc sender r (H_Send j)) (S\<lparr>m_rr := (m_rr S)(rr_key r := None)\<rparr>)))"
| "handleRPC_step i sender r pc S = None"

definition task_step :: "nat \<Rightarrow> 'c messaging \<Rightarrow> 'c messaging option" where
  "task_step i S =
     (case tasks S ! i of
        T_write p m pc \<Rightarrow>
          (case write_step p m pc (m_chan S) of
             None \<Rightarrow> None
           | Some (pc, C) \<Rightarrow> Some (set_task i (T_write p m pc) (S\<lparr>m_chan := C\<rparr>)))
      | T_Call p b key pc \<Rightarrow> Call_step i p b key pc S
      | T_rpc sender r pc \<Rightarrow> handleRPC_step i sender r pc S)"

text \<open>The \<^verbatim>\<open>select\<close> statements that wait ten seconds, when the timer fires.\<close>

definition timeout_step :: "nat \<Rightarrow> 'c messaging \<Rightarrow> 'c messaging option" where
  "timeout_step i S =
     (case tasks S ! i of
        T_Call p b key Cl_Select \<Rightarrow> Some (set_task i (T_Call p b key (Cl_Delete (Inl (Sentinel ErrRPCTimeout)))) S)
      | T_rpc sender r H_Wait \<Rightarrow> Some (set_task i (T_rpc sender r H_Exit) S)
      | _ \<Rightarrow> None)"

text \<open>\<^verbatim>\<open>Call\<close> draws a key; it draws again while the key is in use.\<close>

definition key_step :: "nat \<Rightarrow> u64 \<Rightarrow> 'c messaging \<Rightarrow> 'c messaging option" where
  "key_step i key S =
     (case tasks S ! i of
        T_Call p b k Cl_Key \<Rightarrow>
          (case m_rr S key of
             Some j \<Rightarrow> Some S
           | None \<Rightarrow> Some (set_task i (T_Call p b key (Cl_Write Wr_Load)) (S\<lparr>m_rr := (m_rr S)(key \<mapsto> i)\<rparr>)))
      | _ \<Rightarrow> None)"

text \<open>
  The two synchronous hand-overs: \<^verbatim>\<open>handleRPC\<close> number \<open>i\<close> gives a reply to the \<^verbatim>\<open>Call\<close> whose
  channel it loaded, and whoever took a request from \<^verbatim>\<open>HandleRequest()\<close> answers it.
\<close>

definition reply_step :: "nat \<Rightarrow> 'c messaging \<Rightarrow> 'c messaging option" where
  "reply_step i S =
     (case tasks S ! i of
        T_rpc sender r (H_Send j) \<Rightarrow>
          (case tasks S ! j of
             T_Call p b key Cl_Select \<Rightarrow>
               Some (set_task j (T_Call p b key (Cl_Delete (Inr (rr_data r)))) (set_task i (T_rpc sender r H_Exit) S))
           | _ \<Rightarrow> None)
      | _ \<Rightarrow> None)"

definition answer_step :: "nat \<Rightarrow> bytes \<Rightarrow> 'c messaging \<Rightarrow> 'c messaging option" where
  "answer_step i d S =
     (case tasks S ! i of
        T_rpc sender r H_Wait \<Rightarrow>
          if i \<in> set (handlers S)
          then Some (set_task i (T_rpc sender (r\<lparr>rr_data := d, rr_request := False\<rparr>) (H_Write Wr_Load))
                       (S\<lparr>handlers := remove1 i (handlers S)\<rparr>))
          else None
      | _ \<Rightarrow> None)"

section \<open>Runs\<close>

datatype 'c event =
    Ev_Register u64 'c | Ev_Device nat 'c | Ev_Writer nat | Ev_Reader nat | Ev_Wait nat | Ev_Take nat
  | Ev_Announce "u64 list" MessageType bytes | Ev_Call u64 bytes | Ev_Key nat u64 | Ev_Task nat
  | Ev_Timeout nat | Ev_Reply nat | Ev_Request | Ev_Answer nat bytes

definition lift_chan :: "'c messaging \<Rightarrow> 'c mchan option \<Rightarrow> 'c messaging option" where
  "lift_chan S r = map_option (\<lambda>C. S\<lparr>m_chan := C\<rparr>) r"

fun msg_next :: "'c reader \<Rightarrow> 'c writer \<Rightarrow> 'c event \<Rightarrow> 'c messaging \<Rightarrow> 'c messaging option" where
  "msg_next Read Write (Ev_Register p c) S = lift_chan S (Some (Register p c (m_chan S)))"
| "msg_next Read Write (Ev_Device n d) S =
     (if n < length (streams (m_chan S))
      then lift_chan S (Some (upd_mc n (\<lambda>mc. mc\<lparr>mc_conn := (mc_conn mc)\<lparr>dev := d\<rparr>\<rparr>) (m_chan S))) else None)"
| "msg_next Read Write (Ev_Writer n) S =
     (if n < length (streams (m_chan S)) then lift_chan S (writer_step Write n (m_chan S)) else None)"
| "msg_next Read Write (Ev_Reader n) S =
     (if n < length (streams (m_chan S))
      then (case reader_step Read n (m_chan S) of
              None \<Rightarrow> None
            | Some (None, C) \<Rightarrow> Some (S\<lparr>m_chan := C\<rparr>)
            | Some (Some (sender, r), C) \<Rightarrow> Some (spawn [T_rpc sender r (handleRPC_start r)] (S\<lparr>m_chan := C\<rparr>)))
      else None)"
| "msg_next Read Write (Ev_Wait n) S =
     (if n < length (streams (m_chan S)) then lift_chan S (wait_step n (m_chan S)) else None)"
| "msg_next Read Write (Ev_Take n) S =
     (if n < length (streams (m_chan S)) then lift_chan S (take_step n (m_chan S)) else None)"
| "msg_next Read Write (Ev_Announce order t b) S =
     (if map_order (mc_peers (m_chan S)) order then Some (Announce order t b S) else None)"
| "msg_next Read Write (Ev_Call p b) S = Some (spawn [T_Call p b 0 Cl_Key] S)"
| "msg_next Read Write (Ev_Key i key) S = (if i < length (tasks S) then key_step i key S else None)"
| "msg_next Read Write (Ev_Task i) S = (if i < length (tasks S) then task_step i S else None)"
| "msg_next Read Write (Ev_Timeout i) S = (if i < length (tasks S) then timeout_step i S else None)"
| "msg_next Read Write (Ev_Reply i) S = (if i < length (tasks S) then reply_step i S else None)"
| "msg_next Read Write Ev_Request S =
     (case m_req S of [] \<Rightarrow> None | (d, i) # q \<Rightarrow> Some (S\<lparr>m_req := q, handlers := i # handlers S\<rparr>))"
| "msg_next Read Write (Ev_Answer i d) S = (if i < length (tasks S) then answer_step i d S else None)"

text \<open>What the messages of a byte string are, for a reader that gets it in whole frames.\<close>

fun read_frames :: "nat \<Rightarrow> bytes \<Rightarrow> Message list" where
  "read_frames 0 bs = []"
| "read_frames (Suc n) bs =
     (case Message_ReadFrom list_reader Message_zero bs of
        Ret (m, x, None, bs') \<Rightarrow> m # read_frames n bs' | _ \<Rightarrow> [])"

text \<open>A panic that nothing recovers ends the process.\<close>

inductive msg_step :: "'c reader \<Rightarrow> 'c writer \<Rightarrow> 'c messaging \<Rightarrow> 'c messaging \<Rightarrow> bool" for Read Write where
  "crashed (m_chan S) = None \<Longrightarrow> msg_next Read Write e S = Some T \<Longrightarrow> msg_step Read Write S T"

fun msg_run :: "'c reader \<Rightarrow> 'c writer \<Rightarrow> 'c event list \<Rightarrow> 'c messaging \<Rightarrow> 'c messaging option" where
  "msg_run Read Write [] S = Some S"
| "msg_run Read Write (e # es) S =
     (if crashed (m_chan S) = None
      then (case msg_next Read Write e S of None \<Rightarrow> None | Some T \<Rightarrow> msg_run Read Write es T) else None)"

text \<open>A call is sent, its reply arrives, and the call either gets it or gives up first.\<close>

definition call_events :: "duplex event list" where
  "call_events =
     [Ev_Register 5 \<lparr>inbox = [], outbox = []\<rparr>, Ev_Call 5 [7], Ev_Key 0 9, Ev_Task 0, Ev_Task 0, Ev_Task 0,
      Ev_Device 0 \<lparr>inbox = Message_MarshalBinary (reply_message 5 \<lparr>rr_request = False, rr_key = 9, rr_data = [8]\<rparr>),
                   outbox = []\<rparr>,
      Ev_Reader 0, Ev_Task 1]"

section \<open>Invariants\<close>

text \<open>
  Messages leave a stream in the order in which they were put into \<^verbatim>\<open>out\<close>: written ones first,
  then at most one whose write failed (the writer has stopped), the one the writer holds, and
  the buffered ones. Every buffer given to the connection is the image of one message.
\<close>

fun in_writer :: "writer_pc \<Rightarrow> Message list" where
  "in_writer (W_Write m) = [m]"
| "in_writer _ = []"

definition stream_inv :: "'c stream \<Rightarrow> bool" where
  "stream_inv s =
     ((\<exists>lost. sent s = written s @ lost @ in_writer (st_writer s) @ mc_out (st_mc s) \<and>
        length lost \<le> 1 \<and> (lost \<noteq> [] \<longrightarrow> st_writer s = W_Done) \<and>
        wire_log s = map Message_MarshalBinary (written s @ lost)) \<and>
      got s = taken s @ mc_in (st_mc s) \<and>
      length (mc_out (st_mc s)) \<le> chan_cap \<and> length (mc_in (st_mc s)) \<le> chan_cap \<and>
      (\<forall>m. st_reader s = Rd_Send m \<longrightarrow> msg_Type m \<noteq> messageRequestReply) \<and>
      list_all (\<lambda>m. msg_Type m \<noteq> messageRequestReply) (got s))"

definition fifo_inv :: "'c mchan \<Rightarrow> bool" where
  "fifo_inv C = list_all stream_inv (streams C)"

text \<open>
  Position of the reader (\<^const>\<open>True\<close>) and of the waiting goroutine (\<^const>\<open>False\<close>) in \<^verbatim>\<open>forget\<close>,
  and the stream a position is about to close.
\<close>

definition forgets :: "'c stream \<Rightarrow> bool \<Rightarrow> forget_pc" where
  "forgets s b =
     (if b then (case st_reader s of Rd_Forget f \<Rightarrow> f | _ \<Rightarrow> F_Load)
      else (case st_wait s of Wt_Forget f \<Rightarrow> f | _ \<Rightarrow> F_Load))"

fun held :: "forget_pc \<Rightarrow> nat option" where
  "held (F_Conn k) = Some k"
| "held (F_In k) = Some k"
| "held (F_Out k) = Some k"
| "held _ = None"

definition peers_inv :: "'c mchan \<Rightarrow> bool" where
  "peers_inv C =
     (\<forall>p k. mc_peers C p = Some k \<longrightarrow> k < length (streams C) \<and> st_peer (streams C ! k) = p \<and>
        mc_in_st (st_mc (streams C ! k)) = Open \<and> mc_out_st (st_mc (streams C ! k)) = Open)"

definition hold_inv :: "'c mchan \<Rightarrow> bool" where
  "hold_inv C =
     (\<forall>n b k. n < length (streams C) \<longrightarrow> held (forgets (streams C ! n) b) = Some k \<longrightarrow>
        k < length (streams C) \<and> st_peer (streams C ! k) = st_peer (streams C ! n) \<and>
        (\<forall>p. mc_peers C p \<noteq> Some k) \<and> mc_out_st (st_mc (streams C ! k)) = Open \<and>
        (forgets (streams C ! n) b \<noteq> F_Out k \<longrightarrow> mc_in_st (st_mc (streams C ! k)) = Open))"

definition unique_inv :: "'c mchan \<Rightarrow> bool" where
  "unique_inv C =
     (\<forall>n b n' b' k. n < length (streams C) \<longrightarrow> n' < length (streams C) \<longrightarrow>
        held (forgets (streams C ! n) b) = Some k \<longrightarrow> held (forgets (streams C ! n') b') = Some k \<longrightarrow>
        n' = n \<and> b' = b)"

definition wait_inv :: "'c mchan \<Rightarrow> bool" where
  "wait_inv C =
     (\<forall>n < length (streams C). st_wait (streams C ! n) \<noteq> Wt_Wait \<longrightarrow>
        st_reader (streams C ! n) = Rd_Forget F_Done \<and> st_writer (streams C ! n) = W_Done)"

definition own_inv :: "'c mchan \<Rightarrow> bool" where
  "own_inv C =
     (distinct (calls C) \<longrightarrow>
       (\<forall>n < length (streams C). (\<forall>f. st_reader (streams C ! n) \<noteq> Rd_Forget f) \<longrightarrow>
          mc_peers C (st_peer (streams C ! n)) = Some n))"

definition mchan_inv :: "'c mchan \<Rightarrow> bool" where
  "mchan_inv C =
     (peers_inv C \<and> hold_inv C \<and> unique_inv C \<and> wait_inv C \<and> own_inv C \<and>
      map st_peer (streams C) = rev (calls C))"

definition set_forget :: "nat \<Rightarrow> bool \<Rightarrow> forget_pc \<Rightarrow> 'c mchan \<Rightarrow> 'c mchan" where
  "set_forget n b f = (if b then set_reader n (Rd_Forget f) else set_wait n (Wt_Forget f))"

definition in_forget :: "'c stream \<Rightarrow> bool \<Rightarrow> forget_pc \<Rightarrow> bool" where
  "in_forget s b f = (if b then st_reader s = Rd_Forget f else st_wait s = Wt_Forget f)"

text \<open>What of a stream the invariant depends on, the writer apart.\<close>

definition control :: "'c stream \<Rightarrow> u64 \<times> forget_pc option \<times> wait_pc \<times> lifecycle \<times> lifecycle" where
  "control s = (st_peer s, (case st_reader s of Rd_Forget f \<Rightarrow> Some f | _ \<Rightarrow> None), st_wait s,
     mc_in_st (st_mc s), mc_out_st (st_mc s))"

text \<open>The panics of decoding a malformed frame, and the state of the process.\<close>

definition decode_panic :: "panic \<Rightarrow> bool" where
  "decode_panic p = (p = IndexOutOfRange \<or> p = SliceOutOfRange \<or> p = MakeSliceLen)"

definition crash_inv :: "'c mchan \<Rightarrow> bool" where
  "crash_inv C =
     (case crashed C of
        None \<Rightarrow> mchan_inv C
      | Some p \<Rightarrow> decode_panic p \<or>
          \<not> distinct (calls C) \<and> (p = SendOnClosedChannel \<or> p = duplicated_stream))"

text \<open>
  The tasks refer to each other consistently: a key in \<^verbatim>\<open>rr\<close> belongs to the call that drew it, a
  reply under way answers the key of the call it goes to, and a call that got a reply got it
  from a goroutine that handled a reply with its key.
\<close>

definition call_has_key :: "goroutine list \<Rightarrow> nat \<Rightarrow> u64 \<Rightarrow> bool" where
  "call_has_key ts j key =
     (j < length ts \<and> (case ts ! j of T_Call p b k pc \<Rightarrow> k = key \<and> pc \<noteq> Cl_Key | _ \<Rightarrow> False))"

definition handled_reply :: "goroutine list \<Rightarrow> u64 \<Rightarrow> bytes \<Rightarrow> bool" where
  "handled_reply ts key d =
     (\<exists>sender r. T_rpc sender r H_Exit \<in> set ts \<and> \<not> rr_request r \<and> rr_key r = key \<and> rr_data r = d)"

fun result_of :: "call_pc \<Rightarrow> (error + bytes) option" where
  "result_of (Cl_Delete res) = Some res"
| "result_of (Cl_Done res) = Some res"
| "result_of _ = None"

fun task_ok :: "goroutine list \<Rightarrow> goroutine \<Rightarrow> bool" where
  "task_ok ts (T_write p m pc) = (\<forall>e. pc = Wr_Ret (Some e) \<longrightarrow> e = Sentinel ErrPeerGone)"
| "task_ok ts (T_Call p b key pc) =
     ((\<forall>e. pc = Cl_Write (Wr_Ret (Some e)) \<longrightarrow> e = Sentinel ErrPeerGone) \<and>
      (\<forall>res. result_of pc = Some res \<longrightarrow>
        (case res of Inl e \<Rightarrow> errors_Is e ErrPeerGone \<or> errors_Is e ErrRPCTimeout | Inr d \<Rightarrow> handled_reply ts key d)))"
| "task_ok ts (T_rpc sender r pc) =
     ((pc = H_Lookup \<longrightarrow> \<not> rr_request r) \<and>
      (\<forall>j. pc = H_Send j \<longrightarrow> \<not> rr_request r \<and> call_has_key ts j (rr_key r)))"

definition rpc_inv :: "'c messaging \<Rightarrow> bool" where
  "rpc_inv S =
     ((\<forall>key j. m_rr S key = Some j \<longrightarrow> call_has_key (tasks S) j key) \<and>
      list_all (task_ok (tasks S)) (tasks S))"

text \<open>How a task may change: a call keeps its key, a finished \<^verbatim>\<open>handleRPC\<close> stays as it is.\<close>

fun progress :: "goroutine \<Rightarrow> goroutine \<Rightarrow> bool" where
  "progress (T_Call p b k pc) t =
     (case t of T_Call p' b' k' pc' \<Rightarrow> pc \<noteq> Cl_Key \<longrightarrow> k' = k \<and> pc' \<noteq> Cl_Key | _ \<Rightarrow> False)"
| "progress (T_rpc sender r pc) t = (pc = H_Exit \<longrightarrow> t = T_rpc sender r H_Exit)"
| "progress (T_write p m pc) t = True"

section \<open>Lemmas\<close>

lemma streams_upd_stream [simp]:
  "streams (upd_stream n f C) = (streams C)[n := f (streams C ! n)]"
  "mc_peers (upd_stream n f C) = mc_peers C"
  "calls (upd_stream n f C) = calls C"
  "crashed (upd_stream n f C) = crashed C"
  by (simp_all add: upd_stream_def)

lemmas upd_defs = upd_mc_def set_reader_def set_wait_def

subsection \<open>Order of the messages of a stream\<close>

lemma fifo_inv_upd:
  assumes "fifo_inv C" and "stream_inv (streams C ! n) \<Longrightarrow> stream_inv (f (streams C ! n))"
  shows "fifo_inv (upd_stream n f C)"
proof (cases "n < length (streams C)")
  case True
  with assms show ?thesis
    by (simp add: fifo_inv_def list_all_length nth_list_update)
next
  case False
  with assms show ?thesis
    by (simp add: fifo_inv_def list_update_beyond)
qed

lemma fifo_inv_cong [simp]:
  "fifo_inv (C\<lparr>crashed := x\<rparr>) = fifo_inv C" "fifo_inv (C\<lparr>mc_peers := y\<rparr>) = fifo_inv C"
  by (simp_all add: fifo_inv_def)

lemma fifo_Register: "fifo_inv C \<Longrightarrow> fifo_inv (Register p c C)"
  by (auto simp: Register_def fifo_inv_def stream_inv_def messageChannel_New_def split: option.split)

lemma fifo_set [intro]:
  "fifo_inv C \<Longrightarrow> (\<And>m. pc = Rd_Send m \<Longrightarrow> msg_Type m \<noteq> messageRequestReply) \<Longrightarrow> fifo_inv (set_reader n pc C)"
  "fifo_inv C \<Longrightarrow> fifo_inv (set_wait n pc' C)"
  by (auto simp: upd_defs stream_inv_def intro!: fifo_inv_upd)

lemma fifo_upd_conn [intro]: "fifo_inv C \<Longrightarrow> fifo_inv (upd_mc n (mc_conn_update h) C)"
  by (auto simp: upd_defs stream_inv_def intro!: fifo_inv_upd)

lemma fifo_forget_step: "fifo_inv C \<Longrightarrow> fifo_inv (snd (forget_step p f C))"
  by (cases f) (auto simp: upd_defs stream_inv_def intro!: fifo_inv_upd split: option.split)

lemma fifo_writer_step: "fifo_inv C \<Longrightarrow> writer_step Write n C = Some C' \<Longrightarrow> fifo_inv C'"
proof (cases "st_writer (streams C ! n)")
  case W_Range
  assume "fifo_inv C" and "writer_step Write n C = Some C'"
  with W_Range show ?thesis
    by (auto simp: writer_step_def Let_def stream_inv_def intro!: fifo_inv_upd split: list.splits if_splits)
next
  case (W_Write m)
  assume "fifo_inv C" and "writer_step Write n C = Some C'"
  with W_Write show ?thesis
    by (auto simp: writer_step_def Let_def stream_inv_def intro!: fifo_inv_upd split: prod.splits)
qed (simp add: writer_step_def)

lemma fifo_reader_step:
  assumes "fifo_inv C" and "reader_step Read n C = Some (r, C')"
  shows "fifo_inv C'"
proof (cases "st_reader (streams C ! n)")
  case Rd_Read
  with assms show ?thesis
    by (auto simp: reader_step_def Let_def intro!: fifo_set fifo_upd_conn split: go.splits if_splits)
next
  case (Rd_Send m)
  with assms show ?thesis
    by (auto simp: reader_step_def Let_def stream_inv_def intro!: fifo_inv_upd split: if_splits)
next
  case (Rd_Forget f)
  with assms fifo_forget_step [OF assms(1), of "st_peer (streams C ! n)" f] show ?thesis
    by (cases f) (auto simp: reader_step_def Let_def split: prod.splits)
qed

lemma fifo_wait_step:
  assumes "fifo_inv C" and "wait_step n C = Some C'"
  shows "fifo_inv C'"
proof (cases "st_wait (streams C ! n)")
  case Wt_Wait
  with assms show ?thesis
    by (auto simp: wait_step_def Let_def split: if_splits)
next
  case (Wt_Forget f)
  with assms fifo_forget_step [OF assms(1), of "st_peer (streams C ! n)" f] show ?thesis
    by (cases f) (auto simp: wait_step_def Let_def split: prod.splits)
qed

lemma fifo_take_step: "fifo_inv C \<Longrightarrow> take_step n C = Some C' \<Longrightarrow> fifo_inv C'"
  by (auto simp: take_step_def stream_inv_def intro!: fifo_inv_upd split: list.splits)

lemma fifo_write_step: "fifo_inv C \<Longrightarrow> write_step p m pc C = Some (pc', C') \<Longrightarrow> fifo_inv C'"
  by (cases pc) (auto simp: Let_def stream_inv_def intro!: fifo_inv_upd split: option.splits if_splits)

subsection \<open>Who closes a stream\<close>

lemma in_forget_forgets: "in_forget s b f \<Longrightarrow> forgets s b = f"
  by (simp add: in_forget_def forgets_def split: if_splits)

lemma length_forget_step [simp]: "length (streams (snd (forget_step p f C))) = length (streams C)"
  by (cases f) (simp_all add: upd_defs split: option.split)

lemma control_simps:
  assumes "control s = control t"
  shows "st_peer t = st_peer s" "forgets t b = forgets s b" "st_wait t = st_wait s"
    "mc_in_st (st_mc t) = mc_in_st (st_mc s)" "mc_out_st (st_mc t) = mc_out_st (st_mc s)"
    "(st_reader t = Rd_Forget f) = (st_reader s = Rd_Forget f)"
  using assms by (auto simp: control_def forgets_def split: reader_pc.splits)

lemma control_nth:
  "map control (streams C) = map control (streams D) \<Longrightarrow> i < length (streams C) \<Longrightarrow>
   control (streams C ! i) = control (streams D ! i)"
  by (metis length_map nth_map)

text \<open>A step that changes neither the control part nor the map keeps the invariant.\<close>

lemma mchan_inv_control:
  assumes "mchan_inv C" and ctl: "map control (streams C) = map control (streams D)"
    and "mc_peers D = mc_peers C" "calls D = calls C"
    and w: "\<And>i. i < length (streams C) \<Longrightarrow> st_writer (streams C ! i) = W_Done \<Longrightarrow> st_writer (streams D ! i) = W_Done"
  shows "mchan_inv D"
proof -
  have len: "length (streams D) = length (streams C)"
    using ctl by (metis length_map)
  note * = control_simps [OF control_nth [OF ctl]]
  have "map st_peer (streams D) = map st_peer (streams C)"
    using ctl len * by (simp add: list_eq_iff_nth_eq)
  moreover have "peers_inv D"
    using assms(1,3) by (simp add: mchan_inv_def peers_inv_def len *)
  moreover have "hold_inv D"
    using assms(1,3) unfolding mchan_inv_def hold_inv_def len by (metis *(1,2,4,5))
  moreover have "unique_inv D"
    using assms(1) unfolding mchan_inv_def unique_inv_def len by (metis *(2))
  moreover have "wait_inv D"
    using assms(1) w unfolding mchan_inv_def wait_inv_def len by (metis *(3,6))
  moreover have "own_inv D"
    using assms(1,3,4) unfolding mchan_inv_def own_inv_def len by (metis *(1,6))
  ultimately show ?thesis
    using assms(1,4) by (simp add: mchan_inv_def)
qed

lemma control_upd: "control (f (streams C ! n)) = control (streams C ! n) \<Longrightarrow>
   map control (streams C) = map control (streams (upd_stream n f C))"
  by (simp add: map_update list_update_same_conv) (metis list_update_id map_update)

lemma mchan_inv_upd:
  assumes "mchan_inv C" and "control (f (streams C ! n)) = control (streams C ! n)"
    and "st_writer (streams C ! n) = W_Done \<Longrightarrow> st_writer (f (streams C ! n)) = W_Done"
  shows "mchan_inv (upd_stream n f C)"
proof (rule mchan_inv_control [OF assms(1) control_upd])
  fix i assume "i < length (streams C)" and "st_writer (streams C ! i) = W_Done"
  then show "st_writer (streams (upd_stream n f C) ! i) = W_Done"
    using assms(3) by (cases "i = n") simp_all
qed (simp_all add: assms(2))

lemma set_forget_view:
  assumes "in_forget (streams C ! n) b f" and "n < length (streams C)"
  shows "length (streams (set_forget n b f' C)) = length (streams C)"
    and "mc_peers (set_forget n b f' C) = mc_peers C" and "calls (set_forget n b f' C) = calls C"
    and "i < length (streams C) \<Longrightarrow> forgets (streams (set_forget n b f' C) ! i) c =
           (if i = n \<and> c = b then f' else forgets (streams C ! i) c)"
    and "i < length (streams C) \<Longrightarrow> st_peer (streams (set_forget n b f' C) ! i) = st_peer (streams C ! i)"
    and "i < length (streams C) \<Longrightarrow> st_mc (streams (set_forget n b f' C) ! i) = st_mc (streams C ! i)"
    and "map st_peer (streams (set_forget n b f' C)) = map st_peer (streams C)"
  using assms by (auto simp: set_forget_def upd_defs nth_list_update forgets_def map_update list_update_same_conv)

lemma upd_mc_view:
  assumes "k < length (streams C)"
  shows "length (streams (upd_mc k g C)) = length (streams C)"
    and "mc_peers (upd_mc k g C) = mc_peers C" and "calls (upd_mc k g C) = calls C"
    and "i < length (streams C) \<Longrightarrow> forgets (streams (upd_mc k g C) ! i) c = forgets (streams C ! i) c"
    and "i < length (streams C) \<Longrightarrow> st_peer (streams (upd_mc k g C) ! i) = st_peer (streams C ! i)"
    and "i < length (streams C) \<Longrightarrow> st_mc (streams (upd_mc k g C) ! i) =
           (if i = k then g (st_mc (streams C ! k)) else st_mc (streams C ! i))"
    and "map st_peer (streams (upd_mc k g C)) = map st_peer (streams C)"
    and "i < length (streams C) \<Longrightarrow> st_writer (streams (upd_mc k g C) ! i) = st_writer (streams C ! i)"
    and "i < length (streams C) \<Longrightarrow> st_reader (streams (upd_mc k g C) ! i) = st_reader (streams C ! i)"
    and "i < length (streams C) \<Longrightarrow> st_wait (streams (upd_mc k g C) ! i) = st_wait (streams C ! i)"
  using assms by (auto simp: upd_defs nth_list_update forgets_def map_update list_update_same_conv)

lemma wait_inv_set_forget:
  assumes "wait_inv C" and "in_forget (streams C ! n) b f" and "n < length (streams C)" and "f \<noteq> F_Done"
  shows "wait_inv (set_forget n b f' C)"
  using assms unfolding wait_inv_def
  by (auto simp: set_forget_def upd_defs nth_list_update in_forget_def split: if_splits)

lemma own_inv_set_forget:
  assumes "own_inv C" and "in_forget (streams C ! n) b f" and "n < length (streams C)"
  shows "own_inv (set_forget n b f' C)"
  using assms unfolding own_inv_def
  by (auto simp: set_forget_def upd_defs nth_list_update in_forget_def split: if_splits)

text \<open>A goroutine moves on in \<^verbatim>\<open>forget\<close> without taking another stream.\<close>

lemma mchan_inv_set_forget:
  assumes inv: "mchan_inv C" and at: "in_forget (streams C ! n) b f" "n < length (streams C)" and "f \<noteq> F_Done"
    and step: "held f' = None \<or> held f' = held f \<and> (\<forall>k. f \<noteq> F_Out k)"
  shows "mchan_inv (set_forget n b f' C)"
proof -
  note v = set_forget_view [OF at] and fg = in_forget_forgets [OF at(1)]
  have "peers_inv (set_forget n b f' C)"
    using inv by (auto simp: mchan_inv_def peers_inv_def v)
  moreover have "hold_inv (set_forget n b f' C)"
    using inv step fg at(2) unfolding mchan_inv_def hold_inv_def
    by (auto simp: v)
  moreover have "held (forgets (streams C ! i) c) = Some k"
    if "i < length (streams C)" "held (forgets (streams (set_forget n b f' C) ! i) c) = Some k" for i c k
    using step fg that by (auto simp: v split: if_splits)
  then have "unique_inv (set_forget n b f' C)"
    using inv unfolding mchan_inv_def unique_inv_def v(1) by meson
  ultimately show ?thesis
    using inv wait_inv_set_forget [OF _ at assms(4)] own_inv_set_forget [OF _ at]
    by (simp add: mchan_inv_def v)
qed

lemma hold_invD:
  "hold_inv C \<Longrightarrow> n < length (streams C) \<Longrightarrow> held (forgets (streams C ! n) b) = Some k \<Longrightarrow>
   k < length (streams C) \<and> st_peer (streams C ! k) = st_peer (streams C ! n) \<and>
   (\<forall>p. mc_peers C p \<noteq> Some k) \<and> mc_out_st (st_mc (streams C ! k)) = Open \<and>
   (forgets (streams C ! n) b \<noteq> F_Out k \<longrightarrow> mc_in_st (st_mc (streams C ! k)) = Open)"
  by (simp add: hold_inv_def)

text \<open>The goroutine that holds a stream closes \<^verbatim>\<open>in\<close>; then \<^verbatim>\<open>out\<close>, when nobody holds it any more.\<close>

lemma mchan_inv_close_in:
  assumes inv: "mchan_inv C" and at: "forgets (streams C ! n) b = F_Out k" "n < length (streams C)"
  shows "mchan_inv (upd_mc k (mc_in_st_update (\<lambda>_. Closed)) C)" (is "mchan_inv ?D")
proof -
  have parts: "peers_inv C" "hold_inv C" "unique_inv C"
    using inv by (simp_all add: mchan_inv_def)
  have k: "k < length (streams C)" "\<forall>p. mc_peers C p \<noteq> Some k"
    using parts(2) at unfolding hold_inv_def by (metis held.simps(3))+
  note v = upd_mc_view [OF k(1)]
  have uniq: "n' = n \<and> b' = b" if "n' < length (streams C)" "held (forgets (streams C ! n') b') = Some k" for n' b'
    using parts(3) at that unfolding unique_inv_def by (metis held.simps(3))
  have "hold_inv ?D"
    unfolding hold_inv_def v(1,2)
  proof (intro allI impI)
    fix i c j
    assume i: "i < length (streams C)"
      and "held (forgets (streams ?D ! i) c) = Some j"
    then have j: "held (forgets (streams C ! i) c) = Some j"
      by (simp add: v)
    have "j = k \<Longrightarrow> forgets (streams C ! i) c = F_Out k"
      using uniq [OF i] j at(1) by auto
    with parts(2) i j show "j < length (streams C) \<and>
        st_peer (streams ?D ! j) = st_peer (streams ?D ! i) \<and>
        (\<forall>p. mc_peers C p \<noteq> Some j) \<and>
        mc_out_st (st_mc (streams ?D ! j)) = Open \<and>
        (forgets (streams ?D ! i) c \<noteq> F_Out j \<longrightarrow>
          mc_in_st (st_mc (streams ?D ! j)) = Open)"
      unfolding hold_inv_def by (auto simp: v)
  qed
  moreover have "peers_inv ?D"
    using parts(1) k unfolding peers_inv_def by (auto simp: v)
  moreover have "unique_inv ?D"
    using parts(3) unfolding unique_inv_def by (simp add: v)
  ultimately show ?thesis
    using inv unfolding mchan_inv_def wait_inv_def own_inv_def by (simp add: v)
qed

lemma mchan_inv_close_out:
  assumes inv: "mchan_inv C" and k: "k < length (streams C)" "\<forall>p. mc_peers C p \<noteq> Some k"
    and free: "\<And>n b. n < length (streams C) \<Longrightarrow> held (forgets (streams C ! n) b) \<noteq> Some k"
  shows "mchan_inv (upd_mc k (mc_out_st_update (\<lambda>_. Closed)) C)" (is "mchan_inv ?D")
proof -
  note v = upd_mc_view [OF k(1)]
  have parts: "peers_inv C" "hold_inv C" "unique_inv C"
    using inv by (simp_all add: mchan_inv_def)
  have "hold_inv ?D"
    unfolding hold_inv_def v(1,2)
  proof (intro allI impI)
    fix i c j
    assume i: "i < length (streams C)" and "held (forgets (streams ?D ! i) c) = Some j"
    then have j: "held (forgets (streams C ! i) c) = Some j" "j \<noteq> k"
      using free [OF i] by (auto simp: v)
    with parts(2) i show "j < length (streams C) \<and> st_peer (streams ?D ! j) = st_peer (streams ?D ! i) \<and>
        (\<forall>p. mc_peers C p \<noteq> Some j) \<and> mc_out_st (st_mc (streams ?D ! j)) = Open \<and>
        (forgets (streams ?D ! i) c \<noteq> F_Out j \<longrightarrow> mc_in_st (st_mc (streams ?D ! j)) = Open)"
      unfolding hold_inv_def by (auto simp: v)
  qed
  moreover have "peers_inv ?D"
    using parts(1) k unfolding peers_inv_def by (auto simp: v)
  moreover have "unique_inv ?D"
    using parts(3) unfolding unique_inv_def by (simp add: v)
  ultimately show ?thesis
    using inv unfolding mchan_inv_def wait_inv_def own_inv_def by (simp add: v)
qed

lemma distinct_peers:
  "mchan_inv C \<Longrightarrow> distinct (calls C) \<Longrightarrow> i < length (streams C) \<Longrightarrow> j < length (streams C) \<Longrightarrow>
   st_peer (streams C ! i) = st_peer (streams C ! j) \<Longrightarrow> i = j"
  unfolding mchan_inv_def by (metis distinct_rev length_map nth_eq_iff_index_eq nth_map)

text \<open>A goroutine takes the stream that is registered for its peer.\<close>

lemma own_inv_load:
  assumes inv: "mchan_inv C" and at: "in_forget (streams C ! n) b F_Load" "n < length (streams C)"
  shows "own_inv (C\<lparr>mc_peers := (mc_peers C)(st_peer (streams C ! n) := None)\<rparr>)"
proof -
  have "\<exists>f. st_reader (streams C ! n) = Rd_Forget f"
    using inv at unfolding mchan_inv_def wait_inv_def in_forget_def by (metis wait_pc.distinct(1))
  moreover have "st_peer (streams C ! i) \<noteq> st_peer (streams C ! n)"
    if "distinct (calls C)" "i < length (streams C)" "i \<noteq> n" for i
    using distinct_peers [OF inv that(1,2) at(2)] that by auto
  ultimately show ?thesis
    using inv unfolding mchan_inv_def own_inv_def by auto
qed

lemma mchan_inv_load:
  assumes inv: "mchan_inv C" and at: "in_forget (streams C ! n) b F_Load" "n < length (streams C)"
    and k: "mc_peers C (st_peer (streams C ! n)) = Some k"
  shows "mchan_inv (set_forget n b (F_Conn k) (C\<lparr>mc_peers := (mc_peers C)(st_peer (streams C ! n) := None)\<rparr>))"
    (is "mchan_inv (set_forget n b _ ?C)")
proof -
  let ?D = "set_forget n b (F_Conn k) ?C"
  have at': "in_forget (streams ?C ! n) b F_Load" "n < length (streams ?C)"
    using at by simp_all
  note v = set_forget_view [OF at', simplified]
  have parts: "peers_inv C" "hold_inv C" "unique_inv C"
    using inv by (simp_all add: mchan_inv_def)
  have pk: "((mc_peers C)(st_peer (streams C ! n) := None)) q \<noteq> Some k" for q
    using parts(1) k unfolding peers_inv_def by (metis fun_upd_apply option.distinct(1))
  have K: "k < length (streams C)" "st_peer (streams C ! k) = st_peer (streams C ! n)"
    "mc_in_st (st_mc (streams C ! k)) = Open" "mc_out_st (st_mc (streams C ! k)) = Open"
    using parts(1) k unfolding peers_inv_def by blast+
  have free: "i < length (streams C) \<Longrightarrow> held (forgets (streams C ! i) c) \<noteq> Some k" for i c
    using parts(2) k unfolding hold_inv_def by metis
  have "peers_inv ?D"
    using parts(1) by (auto simp: peers_inv_def v split: if_splits)
  moreover have "hold_inv ?D"
    unfolding hold_inv_def v(1,2)
  proof (intro allI impI)
    fix i c j
    assume i: "i < length (streams C)" and "held (forgets (streams ?D ! i) c) = Some j"
    then have j: "i = n \<and> c = b \<and> j = k \<or> \<not> (i = n \<and> c = b) \<and> held (forgets (streams C ! i) c) = Some j"
      by (auto simp: v split: if_splits)
    then show "j < length (streams C) \<and> st_peer (streams ?D ! j) = st_peer (streams ?D ! i) \<and>
        (\<forall>p. ((mc_peers C)(st_peer (streams C ! n) := None)) p \<noteq> Some j) \<and>
        mc_out_st (st_mc (streams ?D ! j)) = Open \<and>
        (forgets (streams ?D ! i) c \<noteq> F_Out j \<longrightarrow> mc_in_st (st_mc (streams ?D ! j)) = Open)"
    proof
      assume "i = n \<and> c = b \<and> j = k"
      with i pk show ?thesis
        by (simp add: v K)
    next
      assume "\<not> (i = n \<and> c = b) \<and> held (forgets (streams C ! i) c) = Some j"
      with hold_invD [OF parts(2) i, of c j] i show ?thesis
        by (auto simp: v)
    qed
  qed
  moreover have "unique_inv ?D"
    unfolding unique_inv_def v(1)
  proof (intro allI impI)
    fix i c i' c' j
    assume "i < length (streams C)" "i' < length (streams C)"
      "held (forgets (streams ?D ! i) c) = Some j" "held (forgets (streams ?D ! i') c') = Some j"
    with parts(3) free show "i' = i \<and> c' = c"
      unfolding unique_inv_def by (auto simp: v split: if_splits)
  qed
  moreover have "wait_inv ?D"
    using inv by (intro wait_inv_set_forget [OF _ at']) (simp_all add: mchan_inv_def wait_inv_def)
  moreover have "own_inv ?D"
    by (rule own_inv_set_forget [OF own_inv_load [OF inv at] at'])
  ultimately show ?thesis
    using inv by (simp add: mchan_inv_def v)
qed

lemma stream_update_swap:
  "(s :: 'c stream)\<lparr>st_reader := r, st_mc := c\<rparr> = s\<lparr>st_mc := c, st_reader := r\<rparr>"
  "s\<lparr>st_wait := w, st_mc := c\<rparr> = s\<lparr>st_mc := c, st_wait := w\<rparr>"
  by (cases s, simp)+

lemma set_forget_upd_mc: "set_forget n b f (upd_mc k g C) = upd_mc k g (set_forget n b f C)"
  by (cases "n = k"; cases "n < length (streams C)"; cases "k < length (streams C)")
    (simp_all add: set_forget_def upd_defs upd_stream_def stream_update_swap list_update_beyond list_update_swap)

lemma crashed_upd_mc [simp]: "crashed (upd_mc k g C) = crashed C"
  by (simp add: upd_mc_def)

lemma mchan_inv_upd_mc:
  "mchan_inv C \<Longrightarrow> (\<And>c. mc_in_st (g c) = mc_in_st c \<and> mc_out_st (g c) = mc_out_st c) \<Longrightarrow> mchan_inv (upd_mc k g C)"
  unfolding upd_mc_def by (rule mchan_inv_upd) (simp_all add: control_def)

text \<open>Together: no step of \<^verbatim>\<open>forget\<close> closes a closed channel.\<close>

lemma mchan_inv_forget_step:
  assumes inv: "mchan_inv C" and at: "in_forget (streams C ! n) b f" "n < length (streams C)" and "f \<noteq> F_Done"
    and step: "forget_step (st_peer (streams C ! n)) f C = (f', C')"
  shows "mchan_inv (set_forget n b f' C') \<and> crashed C' = crashed C"
proof (cases f)
  case F_Load
  with step mchan_inv_set_forget [OF inv at] mchan_inv_load [OF inv _ at(2), of b] at show ?thesis
    by (auto split: option.splits)
next
  case (F_Conn k)
  have "mchan_inv (set_forget n b (F_In k) C)"
    using F_Conn by (intro mchan_inv_set_forget [OF inv at]) simp_all
  with F_Conn step show ?thesis
    by (auto simp: set_forget_upd_mc intro!: mchan_inv_upd_mc)
next
  case (F_In k)
  have "mchan_inv (set_forget n b (F_Out k) C)"
    using F_In by (intro mchan_inv_set_forget [OF inv at]) simp_all
  moreover have "mc_in_st (st_mc (streams C ! k)) = Open"
    using inv at F_In in_forget_forgets [OF at(1)] unfolding mchan_inv_def hold_inv_def
    by (metis forget_pc.distinct(15) held.simps(2))
  ultimately show ?thesis
    using F_In step at(2) mchan_inv_close_in [of "set_forget n b (F_Out k) C" n b k]
    by (auto simp: set_forget_upd_mc set_forget_view [OF at])
next
  case (F_Out k)
  have inv': "mchan_inv (set_forget n b F_Done C)"
    using F_Out by (intro mchan_inv_set_forget [OF inv at]) simp_all
  have k: "mc_out_st (st_mc (streams C ! k)) = Open" "k < length (streams C)" "\<forall>p. mc_peers C p \<noteq> Some k"
    using inv at F_Out in_forget_forgets [OF at(1)] unfolding mchan_inv_def hold_inv_def
    by (metis held.simps(3))+
  have "held (forgets (streams (set_forget n b F_Done C) ! i) c) \<noteq> Some k" if "i < length (streams C)" for i c
    using inv at F_Out in_forget_forgets [OF at(1)] that unfolding mchan_inv_def unique_inv_def
    by (simp add: set_forget_view [OF at]) (metis held.simps(3))
  with F_Out step k inv' mchan_inv_close_out [of "set_forget n b F_Done C" k] show ?thesis
    by (auto simp: set_forget_upd_mc set_forget_view [OF at])
qed (use assms in simp)

subsection \<open>The other goroutines\<close>

lemma mchan_inv_start:
  assumes inv: "mchan_inv C" and "n < length (streams C)"
    and same: "st_peer (f (streams C ! n)) = st_peer (streams C ! n)" "st_mc (f (streams C ! n)) = st_mc (streams C ! n)"
      "\<And>b. forgets (f (streams C ! n)) b = forgets (streams C ! n) b"
    and w: "wait_inv (upd_stream n f C)" and o: "own_inv (upd_stream n f C)"
  shows "mchan_inv (upd_stream n f C)"
proof -
  have v: "i < length (streams C) \<Longrightarrow> forgets (streams (upd_stream n f C) ! i) c = forgets (streams C ! i) c"
    "i < length (streams C) \<Longrightarrow> st_peer (streams (upd_stream n f C) ! i) = st_peer (streams C ! i)"
    "i < length (streams C) \<Longrightarrow> st_mc (streams (upd_stream n f C) ! i) = st_mc (streams C ! i)"
    "map st_peer (streams (upd_stream n f C)) = map st_peer (streams C)" for i c
    using assms(2) same by (auto simp: nth_list_update map_update list_update_same_conv)
  have "peers_inv (upd_stream n f C) \<and> unique_inv (upd_stream n f C)"
    using inv v unfolding mchan_inv_def peers_inv_def unique_inv_def by auto
  moreover have "hold_inv (upd_stream n f C)"
    using inv v unfolding mchan_inv_def hold_inv_def by auto
  ultimately show ?thesis
    using inv w o v(4) by (simp add: mchan_inv_def)
qed

lemma mchan_inv_reader_forgets:
  assumes inv: "mchan_inv C" and n: "n < length (streams C)" and "\<And>f. st_reader (streams C ! n) \<noteq> Rd_Forget f"
  shows "mchan_inv (set_reader n (Rd_Forget F_Load) C)"
  unfolding set_reader_def
proof (rule mchan_inv_start [OF inv n])
  show "forgets ((streams C ! n)\<lparr>st_reader := Rd_Forget F_Load\<rparr>) b = forgets (streams C ! n) b" for b
    using assms(3) by (auto simp: forgets_def split: reader_pc.split)
qed (use assms in \<open>auto simp: mchan_inv_def wait_inv_def own_inv_def nth_list_update\<close>)

lemma mchan_inv_wait_forgets:
  assumes inv: "mchan_inv C" and n: "n < length (streams C)" and "st_wait (streams C ! n) = Wt_Wait"
    and "st_writer (streams C ! n) = W_Done" "st_reader (streams C ! n) = Rd_Forget F_Done"
  shows "mchan_inv (set_wait n (Wt_Forget F_Load) C)"
  unfolding set_wait_def
proof (rule mchan_inv_start [OF inv n])
  show "forgets ((streams C ! n)\<lparr>st_wait := Wt_Forget F_Load\<rparr>) b = forgets (streams C ! n) b" for b
    using assms(3) by (auto simp: forgets_def)
qed (use assms in \<open>auto simp: mchan_inv_def wait_inv_def own_inv_def nth_list_update\<close>)

lemma mchan_inv_Register:
  assumes inv: "mchan_inv C" and "mc_peers C p = None"
  shows "mchan_inv (Register p c C)"
proof -
  have v: "length (streams (Register p c C)) = Suc (length (streams C))"
    "mc_peers (Register p c C) = (mc_peers C)(p \<mapsto> length (streams C))" "calls (Register p c C) = p # calls C"
    "i < length (streams C) \<Longrightarrow> streams (Register p c C) ! i = streams C ! i"
    "streams (Register p c C) ! length (streams C) =
       \<lparr>st_peer = p, st_mc = messageChannel_New c, st_writer = W_Range, st_reader = Rd_Read,
        st_wait = Wt_Wait, sent = [], wire_log = [], written = [], got = [], taken = []\<rparr>"
    "map st_peer (streams (Register p c C)) = map st_peer (streams C) @ [p]" for i
    using assms(2) by (simp_all add: Register_def nth_append)
  have nth: "st_peer (streams C ! i) \<in> set (calls C)" if "i < length (streams C)" for i
    using inv that unfolding mchan_inv_def by (metis length_map nth_map nth_mem set_rev)
  have free: "\<not> held (forgets (streams (Register p c C) ! length (streams C)) b) = Some k" for b k
    by (simp add: v(5) forgets_def)
  have "peers_inv (Register p c C)"
    using inv by (auto simp: mchan_inv_def peers_inv_def v less_Suc_eq messageChannel_New_def)
  moreover have "hold_inv (Register p c C)"
    using inv free by (auto simp: mchan_inv_def hold_inv_def v(1-4) less_Suc_eq) (metis less_not_refl)
  moreover have "unique_inv (Register p c C)"
    using inv free unfolding mchan_inv_def unique_inv_def by (auto simp: v(1-4) less_Suc_eq)
  moreover have "wait_inv (Register p c C)"
    using inv by (auto simp: mchan_inv_def wait_inv_def v less_Suc_eq)
  moreover have "own_inv (Register p c C)"
    using inv nth by (auto simp: mchan_inv_def own_inv_def v less_Suc_eq)
  ultimately show ?thesis
    using inv by (simp add: mchan_inv_def v(3,6))
qed

lemma ReadFrom_panic: "Message_ReadFrom Read m f = Panic p \<Longrightarrow> decode_panic p"
  by (auto simp: Message_ReadFrom_def Let_def make_slice_def decode_panic_def split: prod.splits option.splits if_splits)

lemma Unpack_panic: "requestReply_Unpack r b = Panic p \<Longrightarrow> decode_panic p"
  by (auto simp: requestReply_Unpack_def Let_def make_slice_def slice_def index_def decode_panic_def split: if_splits)

lemma crash_invI: "mchan_inv C \<Longrightarrow> crashed C = None \<Longrightarrow> crash_inv C"
  by (simp add: crash_inv_def)

lemma crash_Register:
  assumes "crashed C = None" and "crash_inv C"
  shows "crash_inv (Register p c C)"
proof (cases "mc_peers C p")
  case None
  with assms mchan_inv_Register [of C p c] show ?thesis
    by (auto simp: crash_inv_def Register_def)
next
  case (Some k)
  with assms have "k < length (streams C)" "st_peer (streams C ! k) = p" "map st_peer (streams C) = rev (calls C)"
    by (auto simp: crash_inv_def mchan_inv_def peers_inv_def)
  then have "p \<in> set (calls C)"
    by (metis length_map nth_map nth_mem set_rev)
  with Some show ?thesis
    by (simp add: crash_inv_def Register_def)
qed

lemma crash_writer_step:
  assumes "crashed C = None" and "crash_inv C" and "writer_step Write n C = Some C'"
  shows "crash_inv C'"
  using assms
  by (auto simp: writer_step_def Let_def crash_inv_def control_def intro!: mchan_inv_upd
      split: writer_pc.splits list.splits prod.splits if_splits)

lemma crash_reader_step:
  assumes "crashed C = None" and "crash_inv C" and n: "n < length (streams C)" and step: "reader_step Read n C = Some (r, C')"
  shows "crash_inv C'"
proof -
  have inv: "mchan_inv C"
    using assms by (simp add: crash_inv_def)
  have upd: "mchan_inv (upd_mc n (mc_conn_update h) C)" for h
    using inv by (rule mchan_inv_upd_mc) simp
  show ?thesis
  proof (cases "st_reader (streams C ! n)")
    case Rd_Read
    have "mchan_inv (set_reader n (Rd_Forget F_Load) (upd_mc n (mc_conn_update h) C))" for h
      using Rd_Read n by (intro mchan_inv_reader_forgets [OF upd]) (simp_all add: upd_mc_def)
    moreover have "mchan_inv (set_reader n (Rd_Send m) (upd_mc n (mc_conn_update h) C))" for h m
      unfolding set_reader_def using Rd_Read n by (intro mchan_inv_upd [OF upd]) (simp_all add: upd_mc_def control_def)
    ultimately show ?thesis
      using step Rd_Read upd assms(1)
      by (auto simp: reader_step_def Let_def crash_inv_def set_reader_def dest!: ReadFrom_panic Unpack_panic
          split: go.splits if_splits)
  next
    case (Rd_Send m)
    have "mc_in_st (st_mc (streams C ! n)) = Open" if "distinct (calls C)"
      using inv that Rd_Send n unfolding mchan_inv_def own_inv_def peers_inv_def by (metis reader_pc.distinct(5))
    with step Rd_Send inv assms(1) show ?thesis
      by (auto simp: reader_step_def Let_def crash_inv_def control_def intro!: mchan_inv_upd split: if_splits)
  next
    case (Rd_Forget f)
    then have "in_forget (streams C ! n) True f"
      by (simp add: in_forget_def)
    with step Rd_Forget assms(1) mchan_inv_forget_step [OF inv _ n, of True f] show ?thesis
      by (cases f) (auto simp: reader_step_def Let_def set_forget_def set_reader_def intro!: crash_invI split: prod.splits)
  qed
qed

lemma crash_wait_step:
  assumes "crashed C = None" and "crash_inv C" and n: "n < length (streams C)" and step: "wait_step n C = Some C'"
  shows "crash_inv C'"
proof -
  have inv: "mchan_inv C"
    using assms by (simp add: crash_inv_def)
  show ?thesis
  proof (cases "st_wait (streams C ! n)")
    case Wt_Wait
    with step inv n assms(1) show ?thesis
      by (auto simp: wait_step_def Let_def set_wait_def intro!: crash_invI mchan_inv_wait_forgets [unfolded set_wait_def] split: if_splits)
  next
    case (Wt_Forget f)
    then have "in_forget (streams C ! n) False f"
      by (simp add: in_forget_def)
    with step Wt_Forget assms(1) mchan_inv_forget_step [OF inv _ n, of False f] show ?thesis
      by (cases f) (auto simp: wait_step_def Let_def set_forget_def set_wait_def intro!: crash_invI split: prod.splits)
  qed
qed

lemma crash_take_step:
  "crashed C = None \<Longrightarrow> crash_inv C \<Longrightarrow> take_step n C = Some C' \<Longrightarrow> crash_inv C'"
  by (auto simp: take_step_def crash_inv_def control_def intro!: mchan_inv_upd split: list.splits)

lemma crash_write_step:
  "crashed C = None \<Longrightarrow> crash_inv C \<Longrightarrow> write_step p m pc C = Some (pc', C') \<Longrightarrow> crash_inv C'"
  by (cases pc) (auto simp: Let_def crash_inv_def control_def intro!: mchan_inv_upd split: option.splits if_splits)

subsection \<open>Invariants of the streams in runs\<close>

lemma task_step_chan:
  assumes "task_step i S = Some T"
  shows "m_chan T = m_chan S \<or> (\<exists>p m pc pc'. write_step p m pc (m_chan S) = Some (pc', m_chan T))"
proof (cases "tasks S ! i")
  case (T_write p m pc)
  with assms show ?thesis
    by (auto simp: task_step_def set_task_def split: option.splits)
next
  case (T_Call p b key pc)
  then have "Call_step i p b key pc S = Some T"
    using assms by (simp add: task_step_def)
  then show ?thesis
    by (cases "(i, p, b, key, pc, S)" rule: Call_step.cases) (auto simp: set_task_def simp del: write_step.simps split: option.splits)
next
  case (T_rpc sender r pc)
  then have "handleRPC_step i sender r pc S = Some T"
    using assms by (simp add: task_step_def)
  then show ?thesis
    by (cases "(i, sender, r, pc, S)" rule: handleRPC_step.cases)
      (auto simp: set_task_def simp del: write_step.simps split: option.splits if_splits)
qed

lemma other_steps_chan:
  "key_step i key S = Some T \<Longrightarrow> m_chan T = m_chan S"
  "timeout_step i S = Some T \<Longrightarrow> m_chan T = m_chan S"
  "reply_step i S = Some T \<Longrightarrow> m_chan T = m_chan S"
  "answer_step i d S = Some T \<Longrightarrow> m_chan T = m_chan S"
  by (auto simp: key_step_def timeout_step_def reply_step_def answer_step_def set_task_def
      split: goroutine.splits call_pc.splits rpc_pc.splits option.splits if_splits)

text \<open>What holds of the streams at the start and is kept by every step of a goroutine, holds always.\<close>

locale chan_invariant =
  fixes Read :: "'c reader" and Write :: "'c writer" and I :: "'c mchan \<Rightarrow> bool"
  assumes new_ok: "I mchan_New"
    and register_ok: "crashed C = None \<Longrightarrow> I C \<Longrightarrow> I (Register p c C)"
    and device_ok: "crashed C = None \<Longrightarrow> I C \<Longrightarrow> I (upd_mc n (\<lambda>mc. mc\<lparr>mc_conn := (mc_conn mc)\<lparr>dev := d\<rparr>\<rparr>) C)"
    and writer_ok: "crashed C = None \<Longrightarrow> I C \<Longrightarrow> writer_step Write n C = Some C' \<Longrightarrow> I C'"
    and reader_ok: "crashed C = None \<Longrightarrow> I C \<Longrightarrow> n < length (streams C) \<Longrightarrow> reader_step Read n C = Some (r, C') \<Longrightarrow> I C'"
    and wait_ok: "crashed C = None \<Longrightarrow> I C \<Longrightarrow> n < length (streams C) \<Longrightarrow> wait_step n C = Some C' \<Longrightarrow> I C'"
    and take_ok: "crashed C = None \<Longrightarrow> I C \<Longrightarrow> take_step n C = Some C' \<Longrightarrow> I C'"
    and write_ok: "crashed C = None \<Longrightarrow> I C \<Longrightarrow> write_step p m pc C = Some (pc', C') \<Longrightarrow> I C'"
begin

lemma next_ok:
  assumes "crashed (m_chan S) = None" and "I (m_chan S)" and "msg_next Read Write e S = Some T"
  shows "I (m_chan T)"
proof (cases e)
  case (Ev_Reader n)
  with assms(3) obtain r where "n < length (streams (m_chan S))" "reader_step Read n (m_chan S) = Some (r, m_chan T)"
    by (auto simp: spawn_def split: if_splits option.splits)
  with reader_ok [OF assms(1,2)] show ?thesis
    by blast
next
  case (Ev_Task i)
  with assms task_step_chan [of i S T] show ?thesis
    by (auto split: if_splits intro: write_ok [OF assms(1,2)])
qed (use assms in \<open>auto simp: lift_chan_def Announce_def spawn_def other_steps_chan Let_def
       split: if_splits list.splits prod.splits
       intro: register_ok device_ok writer_ok [OF assms(1,2)] wait_ok [OF assms(1,2)] take_ok [OF assms(1,2)]\<close>)

lemma reachable_ok:
  assumes "(msg_step Read Write)\<^sup>*\<^sup>* (messaging_New self) S"
  shows "I (m_chan S)"
  using assms
proof (induction rule: rtranclp_induct)
  case base
  show ?case
    by (simp add: messaging_New_def new_ok)
next
  case (step S T)
  then show ?case
    by (auto elim!: msg_step.cases intro: next_ok)
qed

end

interpretation fifo: chan_invariant Read Write fifo_inv for Read Write
proof
  show "fifo_inv mchan_New"
    by (simp add: fifo_inv_def mchan_New_def)
  show "fifo_inv (upd_mc n (\<lambda>mc. mc\<lparr>mc_conn := (mc_conn mc)\<lparr>dev := d\<rparr>\<rparr>) C)" if "fifo_inv C" for n d and C :: "'a mchan"
    using that by (auto simp: upd_mc_def stream_inv_def intro!: fifo_inv_upd)
qed (auto intro: fifo_Register fifo_writer_step fifo_reader_step fifo_wait_step fifo_take_step fifo_write_step)

interpretation crash: chan_invariant Read Write crash_inv for Read Write
proof
  show "crash_inv mchan_New"
    by (simp add: crash_inv_def mchan_New_def mchan_inv_def peers_inv_def hold_inv_def unique_inv_def wait_inv_def own_inv_def)
  show "crash_inv (upd_mc n (\<lambda>mc. mc\<lparr>mc_conn := (mc_conn mc)\<lparr>dev := d\<rparr>\<rparr>) C)"
    if "crashed C = None" "crash_inv C" for n d and C :: "'a mchan"
    using that by (auto simp: crash_inv_def intro!: mchan_inv_upd_mc)
qed (auto intro: crash_Register crash_writer_step crash_reader_step crash_wait_step crash_take_step crash_write_step)

subsection \<open>Calls and replies\<close>

lemma call_has_key_progress:
  assumes "call_has_key ts j key" and "length ts \<le> length ts'" and "\<And>i. i < length ts \<Longrightarrow> progress (ts ! i) (ts' ! i)"
  shows "call_has_key ts' j key"
  using assms(1,2) assms(3) [of j]
  by (cases "ts ! j"; cases "ts' ! j") (auto simp: call_has_key_def)

lemma handled_reply_progress:
  assumes "handled_reply ts key d" and "length ts \<le> length ts'" and "\<And>i. i < length ts \<Longrightarrow> progress (ts ! i) (ts' ! i)"
  shows "handled_reply ts' key d"
proof -
  obtain sender r i where "i < length ts" "ts ! i = T_rpc sender r H_Exit" "\<not> rr_request r" "rr_key r = key" "rr_data r = d"
    using assms(1) by (auto simp: handled_reply_def in_set_conv_nth)
  with assms(2) assms(3) [of i] show ?thesis
    by (auto simp: handled_reply_def intro!: exI [of _ sender] exI [of _ r]) (metis nth_mem order_less_le_trans)
qed

lemma task_ok_progress:
  assumes "task_ok ts t" and "length ts \<le> length ts'" and "\<And>i. i < length ts \<Longrightarrow> progress (ts ! i) (ts' ! i)"
  shows "task_ok ts' t"
  using assms(1) call_has_key_progress [OF _ assms(2,3)] handled_reply_progress [OF _ assms(2,3)]
  by (cases t) (auto split: sum.splits)

lemma progress_refl [simp]: "progress t t"
  by (cases t) auto

lemma rpc_inv_cong [simp]:
  "rpc_inv (S\<lparr>m_chan := C\<rparr>) = rpc_inv S" "rpc_inv (S\<lparr>m_req := q, handlers := h\<rparr>) = rpc_inv S"
  by (simp_all add: rpc_inv_def)

lemma rpc_inv_spawn:
  assumes "rpc_inv S" and "\<And>t. t \<in> set us \<Longrightarrow> task_ok (tasks S @ us) t"
  shows "rpc_inv (spawn us S)"
proof -
  have p: "length (tasks S) \<le> length (tasks S @ us)" "\<And>i. i < length (tasks S) \<Longrightarrow> progress (tasks S ! i) ((tasks S @ us) ! i)"
    by (simp_all add: nth_append)
  from assms show ?thesis
    by (auto simp: rpc_inv_def spawn_def list_all_iff intro: task_ok_progress [OF _ p] call_has_key_progress [OF _ p])
qed

lemma rpc_inv_set_task:
  assumes inv: "rpc_inv S" and i: "i < length (tasks S)" and "tasks T = (tasks S)[i := t]"
    and t: "progress (tasks S ! i) t" and "task_ok ((tasks S)[i := t]) t"
    and "\<And>key j. m_rr T key = Some j \<Longrightarrow> m_rr S key = Some j \<or> call_has_key ((tasks S)[i := t]) j key"
  shows "rpc_inv T"
proof -
  have p: "length (tasks S) \<le> length ((tasks S)[i := t])"
    "\<And>k. k < length (tasks S) \<Longrightarrow> progress (tasks S ! k) ((tasks S)[i := t] ! k)"
    using t i by (auto simp: nth_list_update)
  have "task_ok ((tasks S)[i := t]) u" if "u \<in> set ((tasks S)[i := t])" for u
    using that inv assms(5) set_update_subset_insert [of "tasks S" i t]
    by (auto simp: rpc_inv_def list_all_iff intro: task_ok_progress [OF _ p])
  moreover have "call_has_key ((tasks S)[i := t]) j key" if "m_rr T key = Some j" for key j
    using assms(6) [OF that] inv call_has_key_progress [OF _ p] by (auto simp: rpc_inv_def)
  ultimately show ?thesis
    by (simp add: rpc_inv_def list_all_iff assms(3))
qed

lemma write_step_error: "write_step p m pc C = Some (Wr_Ret (Some e), C') \<Longrightarrow> e = Sentinel ErrPeerGone"
  by (cases pc) (auto simp: Let_def split: option.splits if_splits)

lemma task_ok_nth: "rpc_inv S \<Longrightarrow> i < length (tasks S) \<Longrightarrow> task_ok (tasks S) (tasks S ! i)"
  by (simp add: rpc_inv_def list_all_length)

text \<open>The sub-steps of \<^verbatim>\<open>write\<close> inside \<^verbatim>\<open>Call\<close> and \<^verbatim>\<open>handleRPC\<close>.\<close>

lemma Call_step_write:
  assumes "Call_step i p b key (Cl_Write w) S = Some T" and "\<And>e. w \<noteq> Wr_Ret e"
  obtains w' C where "write_step p (request_message (m_self S) key b) w (m_chan S) = Some (w', C)"
    and "T = set_task i (T_Call p b key (Cl_Write w')) (S\<lparr>m_chan := C\<rparr>)"
  using assms by (cases w) (auto simp del: write_step.simps split: option.splits)

lemma handleRPC_step_write:
  assumes "handleRPC_step i s r (H_Write w) S = Some T" and "\<And>e. w \<noteq> Wr_Ret e"
  obtains w' C where "T = set_task i (T_rpc s r (H_Write w')) (S\<lparr>m_chan := C\<rparr>)"
  using assms by (cases w) (auto simp del: write_step.simps split: option.splits)

lemma rpc_inv_Call_step:
  assumes inv: "rpc_inv S" and i: "i < length (tasks S)" and at: "tasks S ! i = T_Call p b key pc"
    and step: "Call_step i p b key pc S = Some T"
  shows "rpc_inv T"
proof -
  have ok: "task_ok (tasks S) (T_Call p b key pc)"
    using task_ok_nth [OF inv i] at by simp
  show ?thesis
  proof (cases pc)
    case (Cl_Write w)
    show ?thesis
    proof (cases "\<exists>e. w = Wr_Ret e")
      case True
      then obtain e where "w = Wr_Ret e"
        by blast
      with step ok at i Cl_Write show ?thesis
        by (cases e) (auto simp: set_task_def intro!: rpc_inv_set_task [OF inv i])
    next
      case False
      with step Cl_Write obtain w' C where w': "write_step p (request_message (m_self S) key b) w (m_chan S) = Some (w', C)"
          "T = set_task i (T_Call p b key (Cl_Write w')) (S\<lparr>m_chan := C\<rparr>)"
        using Call_step_write by blast
      with at Cl_Write show ?thesis
        by (auto simp: set_task_def dest!: write_step_error intro!: rpc_inv_set_task [OF inv i])
    qed
  next
    case (Cl_Delete res)
    have "handled_reply ((tasks S)[i := T_Call p b key (Cl_Done res)]) key d" if "handled_reply (tasks S) key d" for d
      using that by (rule handled_reply_progress) (use at Cl_Delete i in \<open>auto simp: nth_list_update\<close>)
    with step ok at Cl_Delete show ?thesis
      by (intro rpc_inv_set_task [OF inv i, of _ "T_Call p b key (Cl_Done res)"])
        (auto simp: set_task_def split: if_splits sum.splits)
  qed (use step in simp_all)
qed

lemma rpc_inv_handleRPC_step:
  assumes inv: "rpc_inv S" and i: "i < length (tasks S)" and at: "tasks S ! i = T_rpc s r pc"
    and step: "handleRPC_step i s r pc S = Some T"
  shows "rpc_inv T"
proof -
  have ok: "task_ok (tasks S) (T_rpc s r pc)"
    using task_ok_nth [OF inv i] at by simp
  show ?thesis
  proof (cases pc)
    case H_Enqueue
    with step at show ?thesis
      by (auto simp: set_task_def intro!: rpc_inv_set_task [OF inv i] split: if_splits)
  next
    case (H_Write w)
    have "\<exists>pc'. tasks T = (tasks S)[i := T_rpc s r pc'] \<and> m_rr T = m_rr S \<and> pc' \<noteq> H_Lookup \<and> (\<forall>j. pc' \<noteq> H_Send j)"
    proof (cases "\<exists>e. w = Wr_Ret e")
      case True
      with step H_Write show ?thesis
        by (intro exI [of _ H_Exit]) (auto simp: set_task_def)
    next
      case False
      with step H_Write obtain w' C where "T = set_task i (T_rpc s r (H_Write w')) (S\<lparr>m_chan := C\<rparr>)"
        using handleRPC_step_write by blast
      then show ?thesis
        by (intro exI [of _ "H_Write w'"]) (auto simp: set_task_def)
    qed
    with at H_Write show ?thesis
      by (auto intro!: rpc_inv_set_task [OF inv i])
  next
    case H_Lookup
    have key: "call_has_key ((tasks S)[i := t]) j (rr_key r)" if "m_rr S (rr_key r) = Some j" for j t
    proof (rule call_has_key_progress)
      show "call_has_key (tasks S) j (rr_key r)"
        using inv that by (simp add: rpc_inv_def)
    qed (use at H_Lookup i in \<open>auto simp: nth_list_update\<close>)
    with step ok at H_Lookup show ?thesis
      by (auto simp: set_task_def intro!: rpc_inv_set_task [OF inv i] split: option.splits if_splits)
  qed (use step in simp_all)
qed

lemma rpc_inv_reply_step:
  assumes inv: "rpc_inv S" and i: "i < length (tasks S)" and step: "reply_step i S = Some T"
  shows "rpc_inv T"
proof -
  obtain s r j p b key where ij: "tasks S ! i = T_rpc s r (H_Send j)" "tasks S ! j = T_Call p b key Cl_Select"
    and T: "T = set_task j (T_Call p b key (Cl_Delete (Inr (rr_data r)))) (set_task i (T_rpc s r H_Exit) S)"
    using step by (auto simp: reply_step_def split: goroutine.splits rpc_pc.splits call_pc.splits)
  have ok: "\<not> rr_request r" "rr_key r = key" "j < length (tasks S)" "i \<noteq> j"
    using task_ok_nth [OF inv i] ij by (auto simp: call_has_key_def)
  let ?S = "set_task i (T_rpc s r H_Exit) S"
  have S: "rpc_inv ?S"
    using ij by (intro rpc_inv_set_task [OF inv i, of _ "T_rpc s r H_Exit"]) (auto simp: set_task_def)
  have "(tasks T) ! i = T_rpc s r H_Exit" "i < length (tasks T)"
    using T ok i by (simp_all add: set_task_def)
  then have "handled_reply (tasks T) key (rr_data r)"
    unfolding handled_reply_def using ok nth_mem by metis
  with ok ij T show ?thesis
    by (intro rpc_inv_set_task [OF S, of j _ "T_Call p b key (Cl_Delete (Inr (rr_data r)))"])
      (auto simp: set_task_def)
qed

lemma rpc_inv_other_steps:
  assumes inv: "rpc_inv S" and i: "i < length (tasks S)"
  shows "timeout_step i S = Some T \<Longrightarrow> rpc_inv T" "answer_step i d S = Some T \<Longrightarrow> rpc_inv T"
    "key_step i key S = Some T \<Longrightarrow> rpc_inv T"
proof -
  show "timeout_step i S = Some T \<Longrightarrow> rpc_inv T" "answer_step i d S = Some T \<Longrightarrow> rpc_inv T"
    by (auto simp: timeout_step_def answer_step_def set_task_def intro!: rpc_inv_set_task [OF inv i]
        split: goroutine.splits call_pc.splits rpc_pc.splits if_splits)
  show "key_step i key S = Some T \<Longrightarrow> rpc_inv T"
    using i inv by (auto simp: key_step_def set_task_def call_has_key_def intro!: rpc_inv_set_task [OF inv i]
        split: goroutine.splits call_pc.splits option.splits if_splits)
qed

lemma rpc_inv_task_step:
  assumes inv: "rpc_inv S" and i: "i < length (tasks S)" and "task_step i S = Some T"
  shows "rpc_inv T"
proof (cases "tasks S ! i")
  case (T_write p m pc)
  with assms show ?thesis
    by (auto simp: task_step_def set_task_def simp del: write_step.simps dest!: write_step_error
        intro!: rpc_inv_set_task [OF inv i] split: option.splits)
qed (use assms in \<open>auto simp: task_step_def intro: rpc_inv_Call_step rpc_inv_handleRPC_step\<close>)

lemma rpc_inv_next:
  assumes inv: "rpc_inv S" and step: "msg_next Read Write e S = Some T"
  shows "rpc_inv T"
proof (cases e)
  case (Ev_Reader n)
  with step inv show ?thesis
    by (auto simp: handleRPC_start_def intro!: rpc_inv_spawn split: if_splits option.splits)
next
  case (Ev_Announce order t b)
  with step show ?thesis
    by (auto simp: Announce_def Let_def intro!: rpc_inv_spawn [OF inv] split: if_splits)
next
  case (Ev_Call p b)
  with step show ?thesis
    by (auto intro!: rpc_inv_spawn [OF inv])
qed (use step inv in \<open>auto simp: lift_chan_def intro: rpc_inv_task_step rpc_inv_reply_step rpc_inv_other_steps
       split: if_splits list.splits prod.splits\<close>)

lemma rpc_inv_reachable:
  assumes "(msg_step Read Write)\<^sup>*\<^sup>* (messaging_New self) S"
  shows "rpc_inv S"
  using assms
proof (induction rule: rtranclp_induct)
  case base
  show ?case
    by (simp add: messaging_New_def rpc_inv_def)
next
  case (step S T)
  then show ?case
    by (auto elim!: msg_step.cases intro: rpc_inv_next)
qed

subsection \<open>Reading frames back\<close>

lemma PutUint64_not_Nil [simp]: "PutUint64 x \<noteq> []"
  by (metis length_PutUint64 list.size(3) zero_neq_numeral)

lemma read_frame_list:
  assumes "length (msg_Data m) \<le> maxAlloc"
  shows "Message_ReadFrom list_reader m0 (Message_MarshalBinary m @ bs) =
    Ret (m, length (Message_MarshalBinary m), None, bs)"
  using assms
  by (intro Message_ReadFrom_ok [where ?f1.0 = "msg_Data m @ bs"])
    (auto simp: list_reader_def wire messageHeaderLength_def)

lemma read_frames_written:
  "list_all (\<lambda>m. length (msg_Data m) \<le> maxAlloc) ms \<Longrightarrow>
   read_frames (length ms) (concat (map Message_MarshalBinary ms)) = ms"
  by (induction ms) (simp_all add: read_frame_list)

subsection \<open>Some runs\<close>

lemma msg_run_reachable:
  "msg_run Read Write es S = Some T \<Longrightarrow> (msg_step Read Write)\<^sup>*\<^sup>* S T"
proof (induction es arbitrary: S)
  case Nil
  then show ?case by simp
next
  case (Cons e es)
  then obtain U where "crashed (m_chan S) = None" "msg_next Read Write e S = Some U" "msg_run Read Write es U = Some T"
    by (auto split: if_splits option.splits)
  with Cons.IH [of U] show ?case
    by (meson converse_rtranclp_into_rtranclp msg_step.intros)
qed

lemma read_frame_duplex:
  assumes "length (msg_Data m) \<le> maxAlloc"
  shows "Message_ReadFrom (conn_Read duplex_Read) m0
      \<lparr>dev = \<lparr>inbox = Message_MarshalBinary m, outbox = ob\<rparr>, read_deadline = rd, write_deadline = wd, conn_st = st\<rparr> =
    Ret (m, length (Message_MarshalBinary m), None,
      \<lparr>dev = \<lparr>inbox = [], outbox = ob\<rparr>, read_deadline = rd, write_deadline = wd, conn_st = st\<rparr>)"
  using assms
  by (intro Message_ReadFrom_ok [where ?f1.0 =
        "\<lparr>dev = \<lparr>inbox = msg_Data m, outbox = ob\<rparr>, read_deadline = rd, write_deadline = wd, conn_st = st\<rparr>"])
    (auto simp: conn_Read_def duplex_Read_def list_reader_def wire messageHeaderLength_def)

lemma read_eof_duplex:
  "Message_ReadFrom (conn_Read duplex_Read) m0
      \<lparr>dev = \<lparr>inbox = [], outbox = ob\<rparr>, read_deadline = rd, write_deadline = wd, conn_st = st\<rparr> =
    Ret (m0, 0, Some (Wrapf ''reading message header: %w'' [] (Sentinel EOF)),
      \<lparr>dev = \<lparr>inbox = [], outbox = ob\<rparr>, read_deadline = rd, write_deadline = wd, conn_st = st\<rparr>)"
  by (simp add: Message_ReadFrom_def conn_Read_def duplex_Read_def list_reader_def messageHeaderLength_def)

lemmas run_simps = messaging_New_def mchan_New_def lift_chan_def Register_def messageChannel_New_def
  net_conn_of_def upd_mc_def upd_stream_def set_reader_def set_wait_def writer_step_def reader_step_def
  wait_step_def take_step_def Let_def Message_zero_def chan_cap_def spawn_def set_task_def task_step_def
  timeout_step_def key_step_def reply_step_def Announce_def map_order_def

lemma run_stale:
  "map_option (\<lambda>S. crashed (m_chan S)) (msg_run duplex_Read duplex_Write
     [Ev_Register 5 \<lparr>inbox = [], outbox = []\<rparr>, Ev_Reader 0, Ev_Reader 0, Ev_Reader 0, Ev_Reader 0, Ev_Reader 0,
      Ev_Writer 0, Ev_Wait 0,
      Ev_Register 5 \<lparr>inbox = Message_MarshalBinary \<lparr>msg_Type = 3, msg_From = 5, msg_Data = [1]\<rparr>, outbox = []\<rparr>,
      Ev_Reader 1, Ev_Wait 0, Ev_Wait 0, Ev_Wait 0, Ev_Reader 1] (messaging_New 1)) =
   Some (Some SendOnClosedChannel)"
  by (simp add: run_simps read_eof_duplex read_frame_duplex maxAlloc_def messageRequestReply_def conn_Close_def)

lemma msg_run_obtain:
  assumes "map_option f (msg_run Read Write es S) = Some x"
  obtains T where "(msg_step Read Write)\<^sup>*\<^sup>* S T" and "f T = x"
  using assms msg_run_reachable by blast

text \<open>A message is announced to one peer and written.\<close>

lemma run_announce:
  "map_option (\<lambda>S. (written (streams (m_chan S) ! 0), length (streams (m_chan S))))
     (msg_run duplex_Read duplex_Write
       [Ev_Register 5 \<lparr>inbox = [], outbox = []\<rparr>, Ev_Announce [5] MessageTest [1, 2, 3, 4], Ev_Task 0, Ev_Task 0,
        Ev_Writer 0, Ev_Writer 0] (messaging_New 1)) =
   Some ([\<lparr>msg_Type = MessageTest, msg_From = 1, msg_Data = [1, 2, 3, 4]\<rparr>], 1)"
  by (simp add: run_simps conn_Write_def duplex_Write_def)

text \<open>The same peer is registered twice.\<close>

lemma run_duplicate:
  "map_option (\<lambda>S. crashed (m_chan S)) (msg_run duplex_Read duplex_Write
     [Ev_Register 5 \<lparr>inbox = [], outbox = []\<rparr>, Ev_Register 5 \<lparr>inbox = [], outbox = []\<rparr>] (messaging_New 1)) =
   Some (Some duplicated_stream)"
  by (simp add: run_simps)

lemma length_requestReply_Pack [simp]: "length (requestReply_Pack r) = 17 + length (rr_data r)"
  by (simp add: wire)

lemma run_call:
  "map_option tasks (msg_run duplex_Read duplex_Write (call_events @ [Ev_Reply 1, Ev_Task 0]) (messaging_New 1)) =
   Some [T_Call 5 [7] 9 (Cl_Done (Inr [8])), T_rpc 5 \<lparr>rr_request = False, rr_key = 9, rr_data = [8]\<rparr> H_Exit]"
  by (simp add: run_simps call_events_def read_frame_duplex reply_message_def messageRequestReply_def maxAlloc_def
      requestReply_Unpack_zero handleRPC_start_def)

lemma run_late:
  "map_option tasks (msg_run duplex_Read duplex_Write (call_events @ [Ev_Timeout 0, Ev_Task 0]) (messaging_New 1)) =
   Some [T_Call 5 [7] 9 (Cl_Done (Inl (Sentinel ErrRPCTimeout))),
         T_rpc 5 \<lparr>rr_request = False, rr_key = 9, rr_data = [8]\<rparr> (H_Send 0)]"
  by (simp add: run_simps call_events_def read_frame_duplex reply_message_def messageRequestReply_def maxAlloc_def
      requestReply_Unpack_zero handleRPC_start_def)

text \<open>A goroutine that would hand a reply to a call that has returned stays where it is.\<close>

lemma task_step_frame:
  assumes "task_step k S = Some T"
  obtains t where "tasks T = (tasks S)[k := t]"
proof (cases "tasks S ! k")
  case (T_write p m pc)
  with assms that show ?thesis
    by (auto simp: task_step_def set_task_def split: option.splits)
next
  case (T_Call p b key pc)
  then have step: "Call_step k p b key pc S = Some T"
    using assms by (simp add: task_step_def)
  show ?thesis
  proof (cases pc)
    case (Cl_Write w)
    with step that show ?thesis
    proof (cases w)
      case (Wr_Ret e)
      with Cl_Write step that show ?thesis
        by (cases e) (auto simp: set_task_def)
    qed (auto simp: set_task_def simp del: write_step.simps split: option.splits)
  qed (use step that in \<open>auto simp: set_task_def\<close>)
next
  case (T_rpc sender r pc)
  then have step: "handleRPC_step k sender r pc S = Some T"
    using assms by (simp add: task_step_def)
  show ?thesis
  proof (cases pc)
    case (H_Write w)
    with step that show ?thesis
      by (cases w) (auto simp: set_task_def simp del: write_step.simps split: option.splits)
  qed (use step that in \<open>auto simp: set_task_def split: if_splits option.splits\<close>)
qed

lemma reply_stuck_next:
  assumes "tasks S ! i = T_rpc sender r (H_Send j)" and "tasks S ! j = T_Call p b key (Cl_Done res)"
    and "i < length (tasks S)" "j < length (tasks S)" and "msg_next Read Write e S = Some T"
  shows "tasks T ! i = tasks S ! i \<and> tasks T ! j = tasks S ! j \<and> length (tasks S) \<le> length (tasks T)"
proof (cases e)
  case (Ev_Task k)
  then have step: "task_step k S = Some T"
    using assms(5) by (auto split: if_splits)
  then have "k \<noteq> i" "k \<noteq> j"
    using assms by (auto simp: task_step_def)
  with task_step_frame [OF step] show ?thesis
    by (metis length_list_update nth_list_update_neq order_refl)
next
  case (Ev_Reply k)
  with assms(5) obtain s' r' j' p' b' key' where k: "tasks S ! k = T_rpc s' r' (H_Send j')"
      "tasks S ! j' = T_Call p' b' key' Cl_Select"
    and T: "T = set_task j' (T_Call p' b' key' (Cl_Delete (Inr (rr_data r')))) (set_task k (T_rpc s' r' H_Exit) S)"
    by (auto simp: reply_step_def split: if_splits goroutine.splits rpc_pc.splits call_pc.splits)
  have "k \<noteq> i" "k \<noteq> j" "j' \<noteq> i" "j' \<noteq> j"
    using k assms(1,2) by auto
  with T show ?thesis
    by (simp add: set_task_def)
qed (use assms in \<open>auto simp: lift_chan_def spawn_def Announce_def Let_def nth_append set_task_def
      timeout_step_def answer_step_def key_step_def nth_list_update
      split: if_splits option.splits list.splits prod.splits goroutine.splits call_pc.splits rpc_pc.splits\<close>)

lemma reply_stuck_steps:
  assumes "(msg_step Read Write)\<^sup>*\<^sup>* S T"
    and "tasks S ! i = T_rpc sender r (H_Send j)" and "tasks S ! j = T_Call p b key (Cl_Done res)"
    and "i < length (tasks S)" "j < length (tasks S)"
  shows "tasks T ! i = tasks S ! i \<and> tasks T ! j = tasks S ! j \<and> length (tasks S) \<le> length (tasks T)"
  using assms(1)
proof (induction rule: rtranclp_induct)
  case (step T U)
  then obtain e where "msg_next Read Write e T = Some U"
    by (auto elim: msg_step.cases)
  with step.IH assms reply_stuck_next [of T i sender r j p b key res Read Write e U] show ?case
    by simp
qed simp

section \<open>Properties\<close>



text \<open>C33: why the messaging channel can bring the process down. The only panics that are not
  recovered are those of decoding a malformed frame and, when some peer was registered more than
  once, the one in \<^verbatim>\<open>Register\<close> and a reader sending on a closed channel. In particular no channel
  is ever closed twice, and with one registration per peer nothing but a malformed frame can
  end the process.\<close>

theorem messaging_crash_causes:
  assumes "(msg_step Read Write)\<^sup>*\<^sup>* (messaging_New self) S" and "crashed (m_chan S) = Some p"
  shows "decode_panic p \<or> \<not> distinct (calls (m_chan S)) \<and> (p = SendOnClosedChannel \<or> p = duplicated_stream)"
  using crash.reachable_ok [OF assms(1)] assms(2) by (simp add: crash_inv_def)

lemma messaging_crash_causes_witness:
  "\<exists>S :: duplex messaging. (msg_step duplex_Read duplex_Write)\<^sup>*\<^sup>* (messaging_New 1) S \<and>
     crashed (m_chan S) = Some duplicated_stream \<and> \<not> distinct (calls (m_chan S))"
proof -
  obtain S :: "duplex messaging" where S: "(msg_step duplex_Read duplex_Write)\<^sup>*\<^sup>* (messaging_New 1) S"
    and "crashed (m_chan S) = Some duplicated_stream"
    using msg_run_obtain [OF run_duplicate] by auto
  with messaging_crash_causes [OF S, of duplicated_stream] show ?thesis
    by (intro exI [of _ S]) (auto simp: decode_panic_def duplicated_stream_def)
qed


text \<open>C35: a call returns the data of a reply with its key, \<^verbatim>\<open>ErrRPCTimeout\<close>, or an error wrapping
  \<^verbatim>\<open>ErrPeerGone\<close>; nothing else, however calls, replies and time-outs interleave.\<close>

theorem rpc_reply_matches:
  assumes "(msg_step Read Write)\<^sup>*\<^sup>* (messaging_New self) S" and "T_Call p b key (Cl_Done res) \<in> set (tasks S)"
  shows "case res of
      Inl e \<Rightarrow> errors_Is e ErrPeerGone \<or> errors_Is e ErrRPCTimeout
    | Inr d \<Rightarrow> \<exists>sender r. T_rpc sender r H_Exit \<in> set (tasks S) \<and> \<not> rr_request r \<and> rr_key r = key \<and> rr_data r = d"
proof -
  have "task_ok (tasks S) (T_Call p b key (Cl_Done res))"
    using rpc_inv_reachable [OF assms(1)] assms(2) unfolding rpc_inv_def list_all_iff by blast
  then show ?thesis
    by (simp add: handled_reply_def split: sum.splits)
qed

lemma rpc_reply_matches_witness:
  "\<exists>S :: duplex messaging. (msg_step duplex_Read duplex_Write)\<^sup>*\<^sup>* (messaging_New 1) S \<and>
     T_Call 5 [7] 9 (Cl_Done (Inr [8])) \<in> set (tasks S) \<and>
     (\<exists>sender r. T_rpc sender r H_Exit \<in> set (tasks S) \<and> \<not> rr_request r \<and> rr_key r = 9 \<and> rr_data r = [8])"
proof -
  obtain S :: "duplex messaging" where S: "(msg_step duplex_Read duplex_Write)\<^sup>*\<^sup>* (messaging_New 1) S"
    and t: "tasks S = [T_Call 5 [7] 9 (Cl_Done (Inr [8])), T_rpc 5 \<lparr>rr_request = False, rr_key = 9, rr_data = [8]\<rparr> H_Exit]"
    using msg_run_obtain [OF run_call] by auto
  then have "T_Call 5 [7] 9 (Cl_Done (Inr [8])) \<in> set (tasks S)"
    by simp
  with rpc_reply_matches [OF S this] S show ?thesis
    by (intro exI [of _ S]) simp
qed

text \<open>A reply that is looked up just before its call times out leaves its goroutine blocked
  for ever on the call's channel.\<close>

lemma rpc_late_reply_leaks:
  "\<exists>S :: duplex messaging. (msg_step duplex_Read duplex_Write)\<^sup>*\<^sup>* (messaging_New 1) S \<and>
     tasks S ! 1 = T_rpc 5 \<lparr>rr_request = False, rr_key = 9, rr_data = [8]\<rparr> (H_Send 0) \<and>
     \<not> (\<exists>T. (msg_step duplex_Read duplex_Write)\<^sup>*\<^sup>* S T \<and> tasks T ! 1 \<noteq> tasks S ! 1)"
proof -
  obtain S :: "duplex messaging" where S: "(msg_step duplex_Read duplex_Write)\<^sup>*\<^sup>* (messaging_New 1) S"
    and t: "tasks S = [T_Call 5 [7] 9 (Cl_Done (Inl (Sentinel ErrRPCTimeout))),
      T_rpc 5 \<lparr>rr_request = False, rr_key = 9, rr_data = [8]\<rparr> (H_Send 0)]"
    using msg_run_obtain [OF run_late] by auto
  have "tasks T ! 1 = tasks S ! 1" if "(msg_step duplex_Read duplex_Write)\<^sup>*\<^sup>* S T" for T
    using reply_stuck_steps [OF that, of 1 _ _ 0] t by simp
  with S t show ?thesis
    by (intro exI [of _ S]) auto
qed

end
