(* ===== verification/Hashing.thy ===== *)
theory Hashing
  imports Bytes
begin

text \<open>
  The identifiers of the program: \<^verbatim>\<open>shared/hash.go\<close> names a client by five diceware words and
  hashes the name with FNV-1a; \<^verbatim>\<open>state/\<close> summarises a list of identifiers by a CRC-64. Both
  hashes are the standard library's. The CRC is the table-driven one; it is shown equal to
  the bitwise shift register, and from that the substitution of one identifier is always
  detected.
\<close>

section \<open>FNV-1a and names (\<^verbatim>\<open>shared/hash.go\<close>)\<close>

definition fnv_offset64 :: u64 where
  "fnv_offset64 = 14695981039346656037"

definition fnv_prime64 :: u64 where
  "fnv_prime64 = 1099511628211"

definition fnv64a :: "bytes \<Rightarrow> u64" where
  "fnv64a = foldl (\<lambda>h c. (h XOR ucast c) * fnv_prime64) fnv_offset64"

definition PeerHash :: "string \<Rightarrow> u64" where
  "PeerHash name = fnv64a (string_bytes name)"

text \<open>\<^verbatim>\<open>diceware.Generate\<close> is third-party: it is an argument.\<close>

definition RandomHostname :: "(nat \<Rightarrow> error + string list) \<Rightarrow> string" where
  "RandomHostname Generate = (case Generate 5 of Inl err \<Rightarrow> '''' | Inr g \<Rightarrow> Join g ''-'')"

section \<open>CRC-64 (package \<^verbatim>\<open>hash/crc64\<close>, polynomial ECMA)\<close>

definition crc64_ECMA :: u64 where
  "crc64_ECMA = 0xC96C5795D7870F42"

definition crc64_bit :: "u64 \<Rightarrow> u64" where
  "crc64_bit crc = (if bit crc 0 then drop_bit 1 crc XOR crc64_ECMA else drop_bit 1 crc)"

definition crc64_table :: "byte \<Rightarrow> u64" where
  "crc64_table i = (crc64_bit ^^ 8) (ucast i)"

definition crc64_byte :: "u64 \<Rightarrow> byte \<Rightarrow> u64" where
  "crc64_byte crc v = crc64_table (ucast crc XOR v) XOR drop_bit 8 crc"

definition crc64_update :: "u64 \<Rightarrow> bytes \<Rightarrow> u64" where
  "crc64_update crc p = NOT (foldl crc64_byte (NOT crc) p)"

text \<open>
  The loop that both \<^verbatim>\<open>NewConnectedClients\<close> and \<^verbatim>\<open>PeerMap.CRC64\<close> run over a list of
  identifiers: one reused eight-byte buffer, \<^verbatim>\<open>crc.Write\<close> on every turn, \<^verbatim>\<open>crc.Sum64\<close>.
\<close>

definition crc64_ids :: "u64 list \<Rightarrow> u64" where
  "crc64_ids ids = foldl (\<lambda>crc c. crc64_update crc (PutUint64 c)) 0 ids"

section \<open>Lemmas\<close>

subsection \<open>The shift register\<close>

lemma bit_u64: "bit (c :: u64) n \<Longrightarrow> n < 64"
  using bit_imp_le_length [of c n] by simp

lemma xor_cancel_right [simp]: "a XOR c = b XOR c \<longleftrightarrow> a = b" for a b c :: u64
proof
  assume "a XOR c = b XOR c"
  then have "(a XOR c) XOR c = (b XOR c) XOR c" by (rule arg_cong)
  then show "a = b" by (simp only: xor.assoc xor_self_eq xor.right_neutral)
qed simp

lemma xor_cancel_left [simp]: "c XOR a = c XOR b \<longleftrightarrow> a = b" for a b c :: u64
  by (simp only: xor.commute [of c] xor_cancel_right)

lemma bit_crc64_bit_top: "bit (crc64_bit c) 63 = bit c 0"
  using bit_u64 [of c 64] by (auto simp: crc64_bit_def crc64_ECMA_def bit_simps)

lemma crc64_bit_inj: "crc64_bit a = crc64_bit b \<Longrightarrow> a = b"
proof -
  assume eq: "crc64_bit a = crc64_bit b"
  then have low: "bit a 0 = bit b 0"
    using bit_crc64_bit_top by metis
  with eq have high: "drop_bit 1 a = drop_bit 1 b"
    by (simp add: crc64_bit_def split: if_splits)
  show "a = b"
  proof (rule bit_word_eqI)
    fix n
    assume "n < LENGTH(64)"
    show "bit a n = bit b n"
    proof (cases n)
      case 0
      with low show ?thesis by simp
    next
      case (Suc m)
      from high have "bit (drop_bit 1 a) m = bit (drop_bit 1 b) m" by simp
      with Suc show ?thesis by (simp add: bit_simps)
    qed
  qed
qed

lemma crc64_bit_pow_inj: "(crc64_bit ^^ n) a = (crc64_bit ^^ n) b \<Longrightarrow> a = b"
  by (induction n) (auto dest: crc64_bit_inj)

lemma crc64_bit_xor: "crc64_bit (a XOR b) = crc64_bit a XOR crc64_bit b"
  by (simp add: crc64_bit_def bit_simps ac_simps)

lemma crc64_bit_pow_xor: "(crc64_bit ^^ n) (a XOR b) = (crc64_bit ^^ n) a XOR (crc64_bit ^^ n) b"
  by (induction n) (simp_all add: crc64_bit_xor)

lemma crc64_bit_pow_shift:
  "take_bit n x = 0 \<Longrightarrow> (crc64_bit ^^ n) x = drop_bit n x"
proof (induction n)
  case 0
  then show ?case by simp
next
  case (Suc n)
  have low: "\<not> bit x k" if "k < Suc n" for k
  proof -
    from that have "bit (take_bit (Suc n) x) k = bit x k" by (simp add: bit_simps)
    with Suc.prems show ?thesis by simp
  qed
  have "take_bit n x = 0"
    by (rule bit_word_eqI) (simp add: bit_simps low)
  then have "(crc64_bit ^^ Suc n) x = crc64_bit (drop_bit n x)"
    using Suc.IH by simp
  also have "\<dots> = drop_bit (Suc n) x"
    using low [of n] by (simp add: crc64_bit_def bit_simps)
  finally show ?case .
qed

lemma crc64_byte_register: "crc64_byte c v = (crc64_bit ^^ 8) (c XOR ucast v)"
proof -
  let ?low = "ucast (ucast c XOR v :: byte) :: u64"
  let ?high = "push_bit 8 (drop_bit 8 c) :: u64"
  have split: "c XOR ucast v = ?low XOR ?high"
    by (rule bit_word_eqI) (auto simp: bit_simps dest: bit_byte)
  have "(crc64_bit ^^ 8) ?high = drop_bit 8 ?high"
    by (rule crc64_bit_pow_shift) (simp add: take_bit_push_bit)
  also have "\<dots> = drop_bit 8 c"
    by (rule bit_word_eqI) (auto simp: bit_simps dest: bit_u64)
  finally show ?thesis
    by (simp only: crc64_byte_def crc64_table_def split crc64_bit_pow_xor)
qed

lemma crc64_byte_inj: "crc64_byte a v = crc64_byte b v \<Longrightarrow> a = b"
  using crc64_bit_pow_inj [of 8 "a XOR ucast v" "b XOR ucast v"] unfolding crc64_byte_register by simp

lemma foldl_crc64_byte_inj: "foldl crc64_byte a p = foldl crc64_byte b p \<Longrightarrow> a = b"
  by (induction p arbitrary: a b) (auto dest: crc64_byte_inj)

text \<open>Up to eight bytes are absorbed as one little-endian word.\<close>

lemma foldl_crc64_byte_block:
  "8 * length bs \<le> 64 \<Longrightarrow>
   foldl crc64_byte c bs = (crc64_bit ^^ (8 * length bs)) (c XOR be_get (rev bs))"
proof (induction bs arbitrary: c)
  case Nil
  then show ?case by (simp add: be_get_def)
next
  case (Cons b bs)
  let ?w = "be_get (rev bs) :: u64"
  have bound: "bit ?w k \<Longrightarrow> k < 8 * length bs" for k
    using bit_be_get [of "rev bs" k, where 'a = 64] by simp
  have "(crc64_bit ^^ 8) (push_bit 8 ?w) = drop_bit 8 (push_bit 8 ?w)"
    by (rule crc64_bit_pow_shift) (simp add: take_bit_push_bit)
  also have "\<dots> = ?w"
  proof (rule bit_word_eqI)
    fix n
    show "bit (drop_bit 8 (push_bit 8 ?w)) n = bit ?w n"
      using bound [of n] Cons.prems by (cases "bit ?w n") (simp_all add: bit_simps)
  qed
  finally have w: "(crc64_bit ^^ 8) (push_bit 8 ?w) = ?w" .
  have c: "be_get (rev (b # bs)) = push_bit 8 ?w XOR ucast b"
    by (simp add: be_get_snoc, rule bit_word_eqI) (auto simp: bit_simps dest: bit_byte)
  have "foldl crc64_byte c (b # bs) = (crc64_bit ^^ (8 * length bs)) ((crc64_bit ^^ 8) (c XOR ucast b) XOR ?w)"
    using Cons.IH [of "(crc64_bit ^^ 8) (c XOR ucast b)"] Cons.prems
    by (simp add: crc64_byte_register [of c b])
  also have "(crc64_bit ^^ 8) (c XOR ucast b) XOR ?w = (crc64_bit ^^ 8) (c XOR be_get (rev (b # bs)))"
    unfolding c crc64_bit_pow_xor w by (simp add: ac_simps)
  finally have step: "foldl crc64_byte c (b # bs) =
      (crc64_bit ^^ (8 * length bs)) ((crc64_bit ^^ 8) (c XOR be_get (rev (b # bs))))" .
  have "8 * length (b # bs) = 8 * length bs + 8"
    by simp
  with step show ?case
    by (simp only: funpow_add comp_apply)
qed

lemma crc64_block_inj:
  assumes "length bs = 8" and "length cs = 8"
    and "foldl crc64_byte c bs = foldl crc64_byte c cs"
  shows "bs = cs"
proof -
  have "(crc64_bit ^^ 64) (c XOR be_get (rev bs)) = (crc64_bit ^^ 64) (c XOR be_get (rev cs))"
    using assms foldl_crc64_byte_block [of bs c] foldl_crc64_byte_block [of cs c] by auto
  then have "c XOR be_get (rev bs) = c XOR (be_get (rev cs) :: u64)"
    by (rule crc64_bit_pow_inj)
  then have "Uint64 (rev bs) = Uint64 (rev cs)"
    using assms(1,2) by (simp only: xor_cancel_left Uint64_be length_rev)
  then have "PutUint64 (Uint64 (rev bs)) = PutUint64 (Uint64 (rev cs))"
    by (rule arg_cong)
  then show ?thesis
    using assms(1,2) by (simp only: PutUint64_Uint64 length_rev rev_is_rev_conv)
qed

subsection \<open>Checksums of identifier lists\<close>

lemma crc64_update_append: "crc64_update crc (p @ q) = crc64_update (crc64_update crc p) q"
  by (simp add: crc64_update_def)

lemma crc64_ids_Nil [simp]: "crc64_ids [] = 0"
  by (simp add: crc64_ids_def)

lemma crc64_update_Nil [simp]: "crc64_update c [] = c"
  by (simp add: crc64_update_def)

lemma crc64_ids_snoc: "crc64_ids (ids @ [x]) = crc64_update (crc64_ids ids) (PutUint64 x)"
  by (simp add: crc64_ids_def)

lemma crc64_ids_bytes: "crc64_ids ids = crc64_update 0 (concat (map PutUint64 ids))"
  by (induction ids rule: rev_induct) (simp_all add: crc64_ids_snoc crc64_update_append)

lemma crc64_update_state_inj: "crc64_update a p = crc64_update b p \<Longrightarrow> a = b"
  unfolding crc64_update_def by (metis bit.double_compl foldl_crc64_byte_inj)

lemma crc64_update_id_inj: "crc64_update c (PutUint64 x) = crc64_update c (PutUint64 y) \<Longrightarrow> x = y"
  unfolding crc64_update_def by (metis bit.double_compl crc64_block_inj length_PutUint64 PutUint64_inj)

lemma crc64_ids_substitution:
  assumes "crc64_ids (xs @ x # ys) = crc64_ids (xs @ y # ys)"
  shows "x = y"
  using assms unfolding crc64_ids_bytes
  by (simp add: crc64_update_append) (blast dest: crc64_update_state_inj crc64_update_id_inj)

lemma RandomHostname_chars:
  assumes "Generate 5 = Inr g" and "\<forall>w \<in> set g. c \<notin> set w" and "c \<noteq> CHR ''-''"
  shows "c \<notin> set (RandomHostname Generate)"
  using assms set_Join [of g "''-''"] by (auto simp: RandomHostname_def)

section \<open>Properties\<close>

text \<open>C27: the checksum that decides whether a peer's client list has changed detects every
  substitution of one client by another, wherever it stands in the list.\<close>

theorem crc64_detects_substitution:
  "crc64_ids (xs @ x # ys) = crc64_ids (xs @ y # ys) \<longleftrightarrow> x = y"
  by (auto dest: crc64_ids_substitution)

end
