(* ===== verification/Peer_Map.thy ===== *)
theory Peer_Map
  imports Hashing Link
begin

text \<open>
  The table of sessions (\<^verbatim>\<open>state/peer_map.go\<close>), used by a server once for its peers and once
  for its clients, and by the client program. The operations are given twice: as functions, for
  callers that do not overlap, and as the atomic steps of goroutines that do. A peer object is
  a value of type \<open>'p\<close>; the constructors of sessions belong to package \<^verbatim>\<open>mux\<close> and are
  arguments.
\<close>

section \<open>State and operations\<close>

definition notify_cap :: nat where
  "notify_cap = 16"

record 'p PeerMap =
  pm_self :: u64
  pm_peers :: "u64 \<rightharpoonup> 'p"
  pm_notify :: "'p list"
  pm_num :: u64

definition NewPeerMap :: "u64 \<Rightarrow> 'p PeerMap" where
  "NewPeerMap self = \<lparr>pm_self = self, pm_peers = Map.empty, pm_notify = [], pm_num = 0\<rparr>"

text \<open>
  The end of \<^verbatim>\<open>NewPeer\<close>: \<^verbatim>\<open>peers.Store\<close>, \<^verbatim>\<open>atomic.AddUint64(s.num, 1)\<close>, \<^verbatim>\<open>s.notify <- p\<close>.
\<close>

definition PM_Store :: "'p PeerMap \<Rightarrow> u64 \<Rightarrow> 'p \<Rightarrow> 'p PeerMap" where
  "PM_Store s k p = s\<lparr>pm_peers := (pm_peers s)(k \<mapsto> p)\<rparr>"

definition PM_Count :: "'p PeerMap \<Rightarrow> u64 \<Rightarrow> 'p PeerMap" where
  "PM_Count s d = s\<lparr>pm_num := pm_num s + d\<rparr>"

definition PM_Notify :: "'p PeerMap \<Rightarrow> 'p \<Rightarrow> 'p PeerMap" where
  "PM_Notify s p = s\<lparr>pm_notify := pm_notify s @ [p]\<rparr>"

definition PM_register :: "'p PeerMap \<Rightarrow> u64 \<Rightarrow> 'p \<Rightarrow> 'p PeerMap" where
  "PM_register s k p = PM_Notify (PM_Count (PM_Store s k p) 1) p"

text \<open>
  \<^verbatim>\<open>construct c conf\<close> is the outcome of calling the registered constructor, \<open>closes p\<close> whether
  \<^verbatim>\<open>NotifyClose\<close> fires before the wait is over.
\<close>

definition PM_NewPeer ::
  "'c registry \<Rightarrow> ('c \<Rightarrow> Config \<Rightarrow> error + 'p) \<Rightarrow> ('p \<Rightarrow> bool) \<Rightarrow>
   'p PeerMap \<Rightarrow> Protocol \<Rightarrow> Config \<Rightarrow> error option \<times> 'p PeerMap" where
  "PM_NewPeer reg construct closes s proto conf =
     (case pm_peers s (cfg_Peer conf) of
        Some q \<Rightarrow> (Some (Sentinel ErrSessionAlreadyEstablished), s)
      | None \<Rightarrow>
        (case New reg proto of
           Inl err \<Rightarrow> (Some err, s)
         | Inr c \<Rightarrow>
           (case construct c conf of
              Inl err \<Rightarrow> (Some err, s)
            | Inr p \<Rightarrow>
              if closes p then (Some (Errorf ''peer closed after negotiation'' []), s)
              else (None, PM_register s (cfg_Peer conf) p))))"

text \<open>\<^verbatim>\<open>Range\<close> visits the keys in the order given by the argument.\<close>

definition PM_Snapshot :: "u64 list \<Rightarrow> 'p PeerMap \<Rightarrow> u64 list" where
  "PM_Snapshot order s = foldl (\<lambda>peers key. peers @ [key]) [] order"

definition PM_CRC64 :: "u64 list \<Rightarrow> 'p PeerMap \<Rightarrow> u64" where
  "PM_CRC64 order s = crc64_ids (sort (PM_Snapshot order s))"

definition PM_Len :: "'p PeerMap \<Rightarrow> int" where
  "PM_Len s = sint (pm_num s)"

definition PM_Has :: "'p PeerMap \<Rightarrow> u64 \<Rightarrow> bool" where
  "PM_Has s peer = (pm_peers s peer \<noteq> None)"

definition PM_Get :: "'p PeerMap \<Rightarrow> u64 \<Rightarrow> 'p option" where
  "PM_Get s peer = pm_peers s peer"

text \<open>
  \<^verbatim>\<open>Remove\<close>: \<^verbatim>\<open>LoadAndDelete\<close>, \<^verbatim>\<open>atomic.AddUint64(s.num, ^uint64(0))\<close>, and the peer on
  which \<^verbatim>\<open>Bye\<close> is called.
\<close>

definition PM_Remove :: "'p PeerMap \<Rightarrow> u64 \<Rightarrow> 'p option \<times> 'p PeerMap" where
  "PM_Remove s peer =
     (case pm_peers s peer of
        None \<Rightarrow> (None, s)
      | Some p \<Rightarrow> (Some p, PM_Count (s\<lparr>pm_peers := (pm_peers s)(peer := None)\<rparr>) (NOT 0)))"

text \<open>The type invariant: finitely many sessions, and the counter counts them.\<close>

definition pm_inv :: "'p PeerMap \<Rightarrow> bool" where
  "pm_inv s = (finite (dom (pm_peers s)) \<and> pm_num s = of_nat (card (dom (pm_peers s))))"

section \<open>Overlapping callers\<close>

text \<open>
  A goroutine inside \<^verbatim>\<open>NewPeer\<close> or \<^verbatim>\<open>Remove\<close>, at the point it has reached. The goroutines
  are anonymous: the pool is a multiset.
\<close>

datatype 'p pm_thread =
    NP_Check Protocol Config
  | NP_Construct Protocol Config
  | NP_Wait Config 'p
  | NP_Store Config 'p
  | NP_Count 'p
  | NP_Notify 'p
  | NP_Done "error option"
  | RM_Delete u64
  | RM_Count 'p
  | RM_Bye 'p
  | RM_Done

text \<open>
  The system: the shared table, the pool, and two histories that the code does not have: the
  sessions whose entry was overwritten by a later \<^verbatim>\<open>Store\<close>, and the sessions told to close.
\<close>

record 'p pm_sys =
  shared :: "'p PeerMap"
  pool :: "'p pm_thread multiset"
  overwritten :: "'p list"
  bye :: "'p list"

inductive pm_step ::
  "'c registry \<Rightarrow> ('c \<Rightarrow> Config \<Rightarrow> error + 'p) \<Rightarrow> 'p pm_sys \<Rightarrow> 'p pm_sys \<Rightarrow> bool"
  for reg construct where
  call_new: "pm_step reg construct S (S\<lparr>pool := add_mset (NP_Check proto conf) (pool S)\<rparr>)"
| call_remove: "pm_step reg construct S (S\<lparr>pool := add_mset (RM_Delete k) (pool S)\<rparr>)"
| check_found: "pool S = add_mset (NP_Check proto conf) P \<Longrightarrow> pm_peers (shared S) (cfg_Peer conf) \<noteq> None \<Longrightarrow>
    pm_step reg construct S (S\<lparr>pool := add_mset (NP_Done (Some (Sentinel ErrSessionAlreadyEstablished))) P\<rparr>)"
| check_free: "pool S = add_mset (NP_Check proto conf) P \<Longrightarrow> pm_peers (shared S) (cfg_Peer conf) = None \<Longrightarrow>
    pm_step reg construct S (S\<lparr>pool := add_mset (NP_Construct proto conf) P\<rparr>)"
| no_protocol: "pool S = add_mset (NP_Construct proto conf) P \<Longrightarrow> New reg proto = Inl err \<Longrightarrow>
    pm_step reg construct S (S\<lparr>pool := add_mset (NP_Done (Some err)) P\<rparr>)"
| construct_err: "pool S = add_mset (NP_Construct proto conf) P \<Longrightarrow> New reg proto = Inr c \<Longrightarrow> construct c conf = Inl err \<Longrightarrow>
    pm_step reg construct S (S\<lparr>pool := add_mset (NP_Done (Some err)) P\<rparr>)"
| construct_ok: "pool S = add_mset (NP_Construct proto conf) P \<Longrightarrow> New reg proto = Inr c \<Longrightarrow> construct c conf = Inr p \<Longrightarrow>
    pm_step reg construct S (S\<lparr>pool := add_mset (NP_Wait conf p) P\<rparr>)"
| wait_closed: "pool S = add_mset (NP_Wait conf p) P \<Longrightarrow>
    pm_step reg construct S (S\<lparr>pool := add_mset (NP_Done (Some (Errorf ''peer closed after negotiation'' []))) P\<rparr>)"
| wait_over: "pool S = add_mset (NP_Wait conf p) P \<Longrightarrow>
    pm_step reg construct S (S\<lparr>pool := add_mset (NP_Store conf p) P\<rparr>)"
| store_fresh: "pool S = add_mset (NP_Store conf p) P \<Longrightarrow> pm_peers (shared S) (cfg_Peer conf) = None \<Longrightarrow>
    pm_step reg construct S (S\<lparr>shared := PM_Store (shared S) (cfg_Peer conf) p, pool := add_mset (NP_Count p) P\<rparr>)"
| store_over: "pool S = add_mset (NP_Store conf p) P \<Longrightarrow> pm_peers (shared S) (cfg_Peer conf) = Some q \<Longrightarrow>
    pm_step reg construct S (S\<lparr>shared := PM_Store (shared S) (cfg_Peer conf) p, pool := add_mset (NP_Count p) P,
                               overwritten := q # overwritten S\<rparr>)"
| count_up: "pool S = add_mset (NP_Count p) P \<Longrightarrow>
    pm_step reg construct S (S\<lparr>shared := PM_Count (shared S) 1, pool := add_mset (NP_Notify p) P\<rparr>)"
| notify_send: "pool S = add_mset (NP_Notify p) P \<Longrightarrow> length (pm_notify (shared S)) < notify_cap \<Longrightarrow>
    pm_step reg construct S (S\<lparr>shared := PM_Notify (shared S) p, pool := add_mset (NP_Done None) P\<rparr>)"
| notify_recv: "pm_notify (shared S) = p # ps \<Longrightarrow>
    pm_step reg construct S (S\<lparr>shared := (shared S)\<lparr>pm_notify := ps\<rparr>\<rparr>)"
| remove_none: "pool S = add_mset (RM_Delete k) P \<Longrightarrow> pm_peers (shared S) k = None \<Longrightarrow>
    pm_step reg construct S (S\<lparr>pool := add_mset RM_Done P\<rparr>)"
| remove_some: "pool S = add_mset (RM_Delete k) P \<Longrightarrow> pm_peers (shared S) k = Some p \<Longrightarrow>
    pm_step reg construct S (S\<lparr>shared := (shared S)\<lparr>pm_peers := (pm_peers (shared S))(k := None)\<rparr>,
                               pool := add_mset (RM_Count p) P\<rparr>)"
| count_down: "pool S = add_mset (RM_Count p) P \<Longrightarrow>
    pm_step reg construct S (S\<lparr>shared := PM_Count (shared S) (NOT 0), pool := add_mset (RM_Bye p) P\<rparr>)"
| say_bye: "pool S = add_mset (RM_Bye p) P \<Longrightarrow>
    pm_step reg construct S (S\<lparr>pool := add_mset RM_Done P, bye := p # bye S\<rparr>)"

definition pm_init :: "u64 \<Rightarrow> 'p pm_sys" where
  "pm_init self = \<lparr>shared = NewPeerMap self, pool = {#}, overwritten = [], bye = []\<rparr>"

text \<open>The goroutines between the change of the table and the change of the counter.\<close>

fun adding :: "'p pm_thread \<Rightarrow> bool" where
  "adding (NP_Count p) = True"
| "adding _ = False"

fun removing :: "'p pm_thread \<Rightarrow> bool" where
  "removing (RM_Count p) = True"
| "removing _ = False"

definition count_inv :: "'p pm_sys \<Rightarrow> bool" where
  "count_inv S =
     (finite (dom (pm_peers (shared S))) \<and>
      length (pm_notify (shared S)) \<le> notify_cap \<and>
      pm_num (shared S) + of_nat (size (filter_mset adding (pool S))) =
        of_nat (card (dom (pm_peers (shared S)))) + of_nat (length (overwritten S)) +
        of_nat (size (filter_mset removing (pool S))))"

text \<open>A concrete environment for examples: peer 7 over the connection \<open>conn\<close>, which is also the session.\<close>

definition one_conf :: "nat \<Rightarrow> Config" where
  "one_conf conn = \<lparr>cfg_Logger = Some (), cfg_Conn = Some conn, cfg_Peer = 7, cfg_Initiator = False, cfg_Wait = 0\<rparr>"

definition one_reg :: "unit registry" where
  "one_reg = [QUIC \<mapsto> ()]"

definition conn_peer :: "unit \<Rightarrow> Config \<Rightarrow> error + nat" where
  "conn_peer c conf = Inr (the (cfg_Conn conf))"

section \<open>The contract of a session table\<close>

text \<open>
  What the server relies on: lookups after registration and removal, and a counter that is the
  number of sessions.
\<close>

locale session_table =
  fixes get :: "'m \<Rightarrow> u64 \<Rightarrow> 'p option"
    and register :: "'m \<Rightarrow> u64 \<Rightarrow> 'p \<Rightarrow> 'm"
    and remove :: "'m \<Rightarrow> u64 \<Rightarrow> 'm"
    and count :: "'m \<Rightarrow> u64"
    and invar :: "'m \<Rightarrow> bool"
  assumes get_register: "invar m \<Longrightarrow> get (register m k p) = (get m)(k \<mapsto> p)"
    and get_remove: "invar m \<Longrightarrow> get (remove m k) = (get m)(k := None)"
    and get_finite: "invar m \<Longrightarrow> finite (dom (get m))"
    and count_card: "invar m \<Longrightarrow> count m = of_nat (card (dom (get m)))"
    and invar_register: "invar m \<Longrightarrow> get m k = None \<Longrightarrow> invar (register m k p)"
    and invar_remove: "invar m \<Longrightarrow> invar (remove m k)"
begin

lemma count_register: "invar m \<Longrightarrow> get m k = None \<Longrightarrow> count (register m k p) = count m + 1"
  by (simp add: count_card invar_register get_register get_finite card_insert_if domIff)

lemma remove_register:
  "invar m \<Longrightarrow> get m k = None \<Longrightarrow>
   get (remove (register m k p) k) = get m \<and> count (remove (register m k p) k) = count m"
proof -
  assume m: "invar m" "get m k = None"
  then have "get (remove (register m k p) k) = get m"
    by (simp add: get_remove invar_register get_register fun_upd_idem)
  with m show ?thesis
    by (simp add: count_card invar_register invar_remove)
qed

lemma remove_twice: "invar m \<Longrightarrow> get (remove (remove m k) k) = get (remove m k)"
  by (simp add: get_remove invar_remove)

end

section \<open>Lemmas\<close>

lemma foldl_snoc: "foldl (\<lambda>peers key. peers @ [key]) acc order = acc @ order"
  by (induction order arbitrary: acc) auto

lemma PM_Snapshot_order [simp]: "PM_Snapshot order s = order"
  by (simp add: PM_Snapshot_def foldl_snoc)

lemmas pm_defs = PM_register_def PM_Store_def PM_Count_def PM_Notify_def

lemma pm_inv_new [simp]: "pm_inv (NewPeerMap self)"
  by (simp add: pm_inv_def NewPeerMap_def)

lemma card_dom_upd: "finite (dom m) \<Longrightarrow> m k = None \<Longrightarrow> card (dom (m(k \<mapsto> v))) = Suc (card (dom m))"
  by (simp add: domIff)

lemma card_dom_del: "finite (dom m) \<Longrightarrow> m k = Some u \<Longrightarrow> Suc (card (dom (m(k := None)))) = card (dom m)"
  by (metis card_Suc_Diff1 domI dom_fun_upd)

lemma pm_inv_register [inv_intros]: "pm_inv s \<Longrightarrow> pm_peers s k = None \<Longrightarrow> pm_inv (PM_register s k p)"
  by (simp add: pm_inv_def pm_defs domIff)

lemma PM_Remove_peers: "pm_peers (snd (PM_Remove s k)) = (pm_peers s)(k := None)"
  by (auto simp: PM_Remove_def pm_defs fun_upd_idem split: option.splits)

lemma minus_one_word: "(NOT 0 :: u64) = - 1"
  by simp

lemma pm_inv_Remove [inv_intros]: "pm_inv s \<Longrightarrow> pm_inv (snd (PM_Remove s k))"
proof (cases "pm_peers s k")
  case (Some p)
  assume inv: "pm_inv s"
  have "of_nat (card (dom (pm_peers s))) = (of_nat (card (dom ((pm_peers s)(k := None)))) + 1 :: u64)"
    using inv Some card_dom_del [of "pm_peers s" k p] by (metis of_nat_Suc pm_inv_def add.commute)
  with inv Some show ?thesis
    by (simp add: pm_inv_def PM_Remove_def pm_defs)
qed (simp add: PM_Remove_def)

interpretation peer_map: session_table PM_Get PM_register "\<lambda>s k. snd (PM_Remove s k)" pm_num pm_inv
proof unfold_locales
  fix m :: "'p PeerMap" and k p
  assume inv: "pm_inv m"
  show "PM_Get (PM_register m k p) = (PM_Get m)(k \<mapsto> p)"
    by (rule ext) (simp add: PM_Get_def pm_defs)
  show "PM_Get (snd (PM_Remove m k)) = (PM_Get m)(k := None)"
    by (rule ext) (simp add: PM_Get_def PM_Remove_peers)
  show "finite (dom (PM_Get m))"
    using inv by (simp add: pm_inv_def PM_Get_def [abs_def])
  show "pm_num m = of_nat (card (dom (PM_Get m)))"
    using inv by (simp add: pm_inv_def PM_Get_def [abs_def])
  show "PM_Get m k = None \<Longrightarrow> pm_inv (PM_register m k p)"
    using inv by (simp add: PM_Get_def inv_intros)
  show "pm_inv (snd (PM_Remove m k))"
    using inv by (rule inv_intros)
qed

lemma pm_peers_register [simp]: "pm_peers (PM_register m k p) = (pm_peers m)(k \<mapsto> p)"
  by (simp add: PM_register_def PM_Notify_def PM_Count_def PM_Store_def)

lemma pm_peers_New [simp]: "pm_peers (NewPeerMap self) = Map.empty"
  by (simp add: NewPeerMap_def)

lemma PM_NewPeer_None_iff:
  "fst (PM_NewPeer reg construct closes s proto conf) = None \<longleftrightarrow>
     pm_peers s (cfg_Peer conf) = None \<and>
     (\<exists>c p. New reg proto = Inr c \<and> construct c conf = Inr p \<and> \<not> closes p)"
  by (auto simp: PM_NewPeer_def split: option.splits sum.splits)

lemma PM_NewPeer_err: "fst (PM_NewPeer reg construct closes s proto conf) = Some e \<Longrightarrow>
  snd (PM_NewPeer reg construct closes s proto conf) = s"
  by (auto simp: PM_NewPeer_def split: option.splits sum.splits)

lemma pm_inv_NewPeer [inv_intros]: "pm_inv s \<Longrightarrow> pm_inv (snd (PM_NewPeer reg construct closes s proto conf))"
  by (auto simp: PM_NewPeer_def inv_intros split: option.splits sum.splits)

lemma map_order_sort: "map_order m o1 \<Longrightarrow> map_order m o2 \<Longrightarrow> sort o1 = sort o2"
  by (metis map_order_def sorted_list_of_set_sort_remdups distinct_remdups_id)

subsection \<open>The counter under overlapping calls\<close>

lemma count_inv_init: "count_inv (pm_init self)"
  by (simp add: count_inv_def pm_init_def NewPeerMap_def)

lemma count_inv_step: "pm_step reg construct S T \<Longrightarrow> count_inv S \<Longrightarrow> count_inv T"
proof (induction rule: pm_step.induct)
  case (store_fresh S conf p P)
  then have "card (dom ((pm_peers (shared S))(cfg_Peer conf \<mapsto> p))) = Suc (card (dom (pm_peers (shared S))))"
    by (intro card_dom_upd) (auto simp: count_inv_def)
  with store_fresh show ?case
    by (simp add: count_inv_def PM_Store_def algebra_simps)
next
  case (store_over S conf p P q)
  then have "dom ((pm_peers (shared S))(cfg_Peer conf \<mapsto> p)) = dom (pm_peers (shared S))"
    by auto
  with store_over show ?case
    by (simp add: count_inv_def PM_Store_def algebra_simps)
next
  case (remove_some S k P p)
  then have "card (dom (pm_peers (shared S))) = Suc (card (dom ((pm_peers (shared S))(k := None))))"
    by (intro card_dom_del [symmetric]) (auto simp: count_inv_def)
  with remove_some show ?case
    by (simp add: count_inv_def algebra_simps)
qed (auto simp: count_inv_def PM_Count_def PM_Notify_def notify_cap_def algebra_simps)

interpretation count_runs: step_invariant "pm_step reg construct" count_inv
  by unfold_locales (rule count_inv_step)

lemma count_inv_reachable:
  "(pm_step reg construct)\<^sup>*\<^sup>* (pm_init self) S \<Longrightarrow> count_inv S"
  by (rule count_runs.run_keeps [OF _ count_inv_init])

text \<open>A goroutine that runs alone does what the function \<open>PM_NewPeer\<close> computes.\<close>

lemma pm_steps_register:
  assumes pool: "pool S = add_mset (NP_Wait conf p) P" and free: "pm_peers (shared S) (cfg_Peer conf) = None"
    and room: "length (pm_notify (shared S)) < notify_cap"
  shows "(pm_step reg construct)\<^sup>*\<^sup>* S
    (S\<lparr>shared := PM_register (shared S) (cfg_Peer conf) p, pool := add_mset (NP_Done None) P\<rparr>)"
proof -
  let ?s1 = "PM_Store (shared S) (cfg_Peer conf) p"
  let ?S3 = "S\<lparr>pool := add_mset (NP_Store conf p) P\<rparr>"
  let ?S4 = "S\<lparr>shared := ?s1, pool := add_mset (NP_Count p) P\<rparr>"
  let ?S5 = "S\<lparr>shared := PM_Count ?s1 1, pool := add_mset (NP_Notify p) P\<rparr>"
  have "pm_step reg construct S ?S3"
    using pm_step.wait_over [OF pool] .
  moreover have "pm_step reg construct ?S3 ?S4"
    using pm_step.store_fresh [of ?S3 conf p P] free by simp
  moreover have "pm_step reg construct ?S4 ?S5"
    using pm_step.count_up [of ?S4 p P] by simp
  moreover have "pm_step reg construct ?S5
      (S\<lparr>shared := PM_register (shared S) (cfg_Peer conf) p, pool := add_mset (NP_Done None) P\<rparr>)"
    using pm_step.notify_send [of ?S5 p P] room by (simp add: pm_defs)
  ultimately show ?thesis
    by (meson converse_rtranclp_into_rtranclp rtranclp.rtrancl_refl)
qed

lemma pm_steps_constructed:
  assumes pool: "pool S = add_mset (NP_Construct proto conf) P" and free: "pm_peers (shared S) (cfg_Peer conf) = None"
    and room: "length (pm_notify (shared S)) < notify_cap"
    and p: "New reg proto = Inr c" "construct c conf = Inr p"
  shows "(pm_step reg construct)\<^sup>*\<^sup>* S
    (if closes p then S\<lparr>pool := add_mset (NP_Done (Some (Errorf ''peer closed after negotiation'' []))) P\<rparr>
     else S\<lparr>shared := PM_register (shared S) (cfg_Peer conf) p, pool := add_mset (NP_Done None) P\<rparr>)"
proof -
  let ?S2 = "S\<lparr>pool := add_mset (NP_Wait conf p) P\<rparr>"
  have "pm_step reg construct S ?S2"
    using pm_step.construct_ok [of S proto conf P reg c construct p] pool p by simp
  moreover have "pm_step reg construct ?S2 (S\<lparr>pool := add_mset (NP_Done (Some (Errorf ''peer closed after negotiation'' []))) P\<rparr>)"
    using pm_step.wait_closed [of ?S2 conf p P reg construct] by simp
  moreover have "(pm_step reg construct)\<^sup>*\<^sup>* ?S2
      (S\<lparr>shared := PM_register (shared S) (cfg_Peer conf) p, pool := add_mset (NP_Done None) P\<rparr>)"
    using pm_steps_register [of ?S2 conf p P reg construct] free room by simp
  ultimately show ?thesis
    by (auto intro: converse_rtranclp_into_rtranclp)
qed

lemma pm_steps_NewPeer:
  assumes ret: "PM_NewPeer reg construct closes (shared S) proto conf = (r, s')"
    and pool: "pool S = add_mset (NP_Check proto conf) P"
    and room: "length (pm_notify (shared S)) < notify_cap"
  shows "(pm_step reg construct)\<^sup>*\<^sup>* S (S\<lparr>shared := s', pool := add_mset (NP_Done r) P\<rparr>)"
proof (cases "pm_peers (shared S) (cfg_Peer conf)")
  case (Some q)
  with ret have "r = Some (Sentinel ErrSessionAlreadyEstablished)" "s' = shared S"
    by (auto simp: PM_NewPeer_def)
  with Some show ?thesis
    using pm_step.check_found [OF pool, of reg construct] by simp
next
  case None
  let ?S1 = "S\<lparr>pool := add_mset (NP_Construct proto conf) P\<rparr>"
  have first: "pm_step reg construct S ?S1"
    using pm_step.check_free [OF pool None] .
  have "(pm_step reg construct)\<^sup>*\<^sup>* ?S1 (S\<lparr>shared := s', pool := add_mset (NP_Done r) P\<rparr>)"
  proof (cases "New reg proto")
    case (Inl err)
    then show ?thesis
      using pm_step.no_protocol [of ?S1 proto conf P reg err construct] ret None by (auto simp: PM_NewPeer_def)
  next
    case New: (Inr c)
    show ?thesis
    proof (cases "construct c conf")
      case (Inl err)
      then show ?thesis
        using pm_step.construct_err [of ?S1 proto conf P reg c construct err] New ret None
        by (auto simp: PM_NewPeer_def)
    next
      case (Inr p)
      then show ?thesis
        using pm_steps_constructed [of ?S1 proto conf P reg c construct p closes] New ret None room
        by (auto simp: PM_NewPeer_def split: if_splits)
    qed
  qed
  with first show ?thesis
    by (rule converse_rtranclp_into_rtranclp)
qed

section \<open>Properties\<close>


lemma one_registration:
  "(pm_step one_reg conn_peer)\<^sup>*\<^sup>* (pm_init 1)
     \<lparr>shared = PM_register (NewPeerMap 1) 7 5, pool = {#NP_Done None#}, overwritten = [], bye = []\<rparr>"
proof -
  let ?S = "(pm_init 1)\<lparr>pool := {#NP_Check QUIC (one_conf 5)#}\<rparr> :: nat pm_sys"
  have call: "pm_step one_reg conn_peer (pm_init 1) ?S"
    using pm_step.call_new [of one_reg conn_peer "pm_init 1" QUIC "one_conf 5"] by (simp add: pm_init_def)
  have "New one_reg QUIC = Inr ()"
    by (simp add: New_def one_reg_def proto_defs)
  then have "PM_NewPeer one_reg conn_peer (\<lambda>_. False) (shared ?S) QUIC (one_conf 5) =
      (None, PM_register (NewPeerMap 1) 7 5)"
    by (simp add: PM_NewPeer_def pm_init_def NewPeerMap_def one_conf_def conn_peer_def)
  from pm_steps_NewPeer [OF this, of "{#}"] call show ?thesis
    by (simp add: pm_init_def NewPeerMap_def notify_cap_def converse_rtranclp_into_rtranclp)
qed


text \<open>C24: two overlapping handshakes of the same peer both succeed. There is a run in which both
  calls of \<^verbatim>\<open>NewPeer\<close> for peer 7 return \<^verbatim>\<open>nil\<close>: the table holds one session, the counter
  says two, and the first session was dropped from the table without \<^verbatim>\<open>Bye\<close>.\<close>

theorem peer_map_double_registration:
  "\<exists>S. (pm_step one_reg conn_peer)\<^sup>*\<^sup>* (pm_init 1) S \<and>
     pool S = {#NP_Done None, NP_Done None#} \<and>
     pm_peers (shared S) = [7 \<mapsto> 6] \<and> pm_num (shared S) = 2 \<and>
     overwritten S = [5] \<and> bye S = []"
proof -
  let ?st = "\<lambda>s P ov. \<lparr>shared = s, pool = P, overwritten = ov, bye = []\<rparr> :: nat pm_sys"
  let ?e = "NewPeerMap 1 :: nat PeerMap" and ?a = "one_conf 5" and ?b = "one_conf 6"
  let ?s5 = "PM_register ?e 7 5"
  have new: "New one_reg QUIC = Inr ()"
    by (simp add: New_def one_reg_def proto_defs)
  note steps = pm_step.intros [where reg = one_reg and construct = conn_peer]
  note conf = one_conf_def conn_peer_def NewPeerMap_def
  let ?r = "pm_step one_reg conn_peer"
  have "?r (pm_init 1) (?st ?e {#NP_Check QUIC ?a#} [])"
    using steps(1) [of "pm_init 1" QUIC ?a] by (simp add: pm_init_def)
  moreover have "?r (?st ?e {#NP_Check QUIC ?a#} []) (?st ?e {#NP_Check QUIC ?b, NP_Check QUIC ?a#} [])"
    using steps(1) [of "?st ?e {#NP_Check QUIC ?a#} []" QUIC ?b] by simp
  moreover have "?r (?st ?e {#NP_Check QUIC ?b, NP_Check QUIC ?a#} []) (?st ?e {#NP_Construct QUIC ?b, NP_Check QUIC ?a#} [])"
    using steps(4) [of "?st ?e {#NP_Check QUIC ?b, NP_Check QUIC ?a#} []" QUIC ?b "{#NP_Check QUIC ?a#}"] by (simp add: conf)
  moreover have "?r (?st ?e {#NP_Construct QUIC ?b, NP_Check QUIC ?a#} []) (?st ?e {#NP_Wait ?b 6, NP_Check QUIC ?a#} [])"
    using steps(7) [of "?st ?e {#NP_Construct QUIC ?b, NP_Check QUIC ?a#} []" QUIC ?b "{#NP_Check QUIC ?a#}" "()" 6] new
    by (simp add: conf)
  moreover have "?r\<^sup>*\<^sup>* (?st ?e {#NP_Wait ?b 6, NP_Check QUIC ?a#} []) (?st ?s5 {#NP_Done None, NP_Wait ?b 6#} [])"
    using pm_steps_NewPeer [of one_reg conn_peer "\<lambda>_. False" "?st ?e {#NP_Wait ?b 6, NP_Check QUIC ?a#} []" QUIC ?a None ?s5 "{#NP_Wait ?b 6#}"] new
    by (simp add: PM_NewPeer_def conf notify_cap_def add_mset_commute)
  moreover have "?r (?st ?s5 {#NP_Done None, NP_Wait ?b 6#} []) (?st ?s5 {#NP_Store ?b 6, NP_Done None#} [])"
    using steps(9) [of "?st ?s5 {#NP_Done None, NP_Wait ?b 6#} []" ?b 6 "{#NP_Done None#}"] by (simp add: add_mset_commute)
  moreover have "?r (?st ?s5 {#NP_Store ?b 6, NP_Done None#} []) (?st (PM_Store ?s5 7 6) {#NP_Count 6, NP_Done None#} [5])"
    using steps(11) [of "?st ?s5 {#NP_Store ?b 6, NP_Done None#} []" ?b 6 "{#NP_Done None#}" 5] by (simp add: conf pm_defs)
  moreover have "?r (?st (PM_Store ?s5 7 6) {#NP_Count 6, NP_Done None#} [5])
      (?st (PM_Count (PM_Store ?s5 7 6) 1) {#NP_Notify 6, NP_Done None#} [5])"
    using steps(12) [of "?st (PM_Store ?s5 7 6) {#NP_Count 6, NP_Done None#} [5]" 6 "{#NP_Done None#}"] by simp
  moreover have "?r (?st (PM_Count (PM_Store ?s5 7 6) 1) {#NP_Notify 6, NP_Done None#} [5])
      (?st (PM_register ?s5 7 6) {#NP_Done None, NP_Done None#} [5])"
    using steps(13) [of "?st (PM_Count (PM_Store ?s5 7 6) 1) {#NP_Notify 6, NP_Done None#} [5]" 6 "{#NP_Done None#}"]
    by (simp add: pm_defs NewPeerMap_def notify_cap_def)
  ultimately have "?r\<^sup>*\<^sup>* (pm_init 1) (?st (PM_register ?s5 7 6) {#NP_Done None, NP_Done None#} [5])"
    by (meson rtranclp_trans r_into_rtranclp)
  then show ?thesis
    by (rule exI [where x = "?st (PM_register ?s5 7 6) {#NP_Done None, NP_Done None#} [5]", OF conjI])
      (simp add: pm_defs NewPeerMap_def)
qed

end
