(* ===== verification/Connected_Clients.thy ===== *)
theory Connected_Clients
  imports Hashing Messages
begin

text \<open>
  The summary of a server's clients that peers exchange (\<^verbatim>\<open>state/connected_clients.go\<close>): the
  owner, a CRC-64 of the client list and a binary fuse filter. The filter's construction and
  membership test belong to \<^verbatim>\<open>FastFilter/xorfilter\<close> and are the arguments
  \<open>PopulateBinaryFuse8\<close> and \<open>Contains\<close>; its representation is visible to the sources,
  which put it on the wire.
\<close>

section \<open>Definitions\<close>

record BinaryFuse8 =
  Seed :: u64
  SegmentLength :: u32
  SegmentLengthMask :: u32
  SegmentCount :: u32
  SegmentCountLength :: u32
  Fingerprints :: bytes

record ConnectedClients =
  cc_Peer :: u64
  cc_CRC64 :: u64
  cc_f :: BinaryFuse8

definition NewConnectedClients ::
  "(u64 list \<Rightarrow> error + BinaryFuse8) \<Rightarrow> u64 \<Rightarrow> u64 list \<Rightarrow> error + ConnectedClients" where
  "NewConnectedClients PopulateBinaryFuse8 peer clients =
     (let crc = crc64_ids clients in
      case PopulateBinaryFuse8 clients of
        Inl err \<Rightarrow> Inl err
      | Inr flt \<Rightarrow> Inr \<lparr>cc_Peer = peer, cc_CRC64 = crc, cc_f = flt\<rparr>)"

definition CC_MarshalBinary :: "ConnectedClients \<Rightarrow> bytes" where
  "CC_MarshalBinary c =
     (let fLen = length (Fingerprints (cc_f c));
          b = make_bytes (48 + fLen);
          b = copy_at 0 (PutUint64 (cc_Peer c)) b;
          b = copy_at 8 (PutUint64 (cc_CRC64 c)) b;
          b = copy_at 16 (PutUint64 (Seed (cc_f c))) b;
          b = copy_at 24 (PutUint32 (SegmentLength (cc_f c))) b;
          b = copy_at 28 (PutUint32 (SegmentLengthMask (cc_f c))) b;
          b = copy_at 32 (PutUint32 (SegmentCount (cc_f c))) b;
          b = copy_at 36 (PutUint32 (SegmentCountLength (cc_f c))) b;
          b = copy_at 40 (PutUint64 (of_nat fLen)) b;
          b = copy_at 48 (Fingerprints (cc_f c)) b
      in b)"

definition CC_UnmarshalBinary :: "bytes \<Rightarrow> (error + ConnectedClients) go" where
  "CC_UnmarshalBinary b =
     (if length b < 48 then Ret (Inl (Errorf ''invalid buffer length: %d'' [length b]))
      else
        (let fLen = Uint64 (take 8 (drop 40 b)) in
         bind_go (make_slice (unat fLen)) (\<lambda>fp.
           Ret (Inr \<lparr>cc_Peer = Uint64 (take 8 b),
                     cc_CRC64 = Uint64 (take 8 (drop 8 b)),
                     cc_f = \<lparr>Seed = Uint64 (take 8 (drop 16 b)),
                             SegmentLength = Uint32 (take 4 (drop 24 b)),
                             SegmentLengthMask = Uint32 (take 4 (drop 28 b)),
                             SegmentCount = Uint32 (take 4 (drop 32 b)),
                             SegmentCountLength = Uint32 (take 4 (drop 36 b)),
                             Fingerprints = copy_at 0 (drop 48 b) fp\<rparr>\<rparr>))))"

definition CC_Has :: "(BinaryFuse8 \<Rightarrow> u64 \<Rightarrow> bool) \<Rightarrow> ConnectedClients \<Rightarrow> u64 \<Rightarrow> bool" where
  "CC_Has Contains c client = Contains (cc_f c) client"

text \<open>The outcome of a decoding that neither panics nor fails.\<close>

definition CC_decode :: "bytes \<Rightarrow> ConnectedClients option" where
  "CC_decode b = (case CC_UnmarshalBinary b of Panic p \<Rightarrow> None | Ret r \<Rightarrow> ok_of r)"

definition wf_cc :: "ConnectedClients \<Rightarrow> bool" where
  "wf_cc c = (length (Fingerprints (cc_f c)) \<le> maxAlloc)"

text \<open>The fixed part of the wire form, in front of the fingerprints.\<close>

definition CC_header :: "ConnectedClients \<Rightarrow> bytes" where
  "CC_header c =
     PutUint64 (cc_Peer c) @ PutUint64 (cc_CRC64 c) @ PutUint64 (Seed (cc_f c)) @
     PutUint32 (SegmentLength (cc_f c)) @ PutUint32 (SegmentLengthMask (cc_f c)) @
     PutUint32 (SegmentCount (cc_f c)) @ PutUint32 (SegmentCountLength (cc_f c)) @
     PutUint64 (of_nat (length (Fingerprints (cc_f c))))"

text \<open>
  What the documentation of the filter promises, and all that the program needs of it: a
  filter populated from a list contains every element of it.
\<close>

definition no_false_negatives ::
  "(u64 list \<Rightarrow> error + BinaryFuse8) \<Rightarrow> (BinaryFuse8 \<Rightarrow> u64 \<Rightarrow> bool) \<Rightarrow> bool" where
  "no_false_negatives Populate Contains = (\<forall>keys f. Populate keys = Inr f \<longrightarrow> (\<forall>k \<in> set keys. Contains f k))"

section \<open>Lemmas\<close>

lemma length_CC_header [simp]: "length (CC_header c) = 48"
  by (simp add: CC_header_def)

text \<open>Filling the next field of a zeroed buffer.\<close>

lemma copy_at_next:
  "length done = off \<Longrightarrow> length src + k = n \<Longrightarrow>
   copy_at off src (done @ replicate n 0) = (done @ src) @ replicate k 0"
  using copy_at_fill [of src n "done"] by auto

lemma CC_MarshalBinary_wire [wire]: "CC_MarshalBinary c = CC_header c @ Fingerprints (cc_f c)"
proof -
  let ?f = "cc_f c"
  let ?n = "length (Fingerprints ?f)"
  let ?h1 = "PutUint64 (cc_Peer c)"
  let ?h2 = "?h1 @ PutUint64 (cc_CRC64 c)"
  let ?h3 = "?h2 @ PutUint64 (Seed ?f)"
  let ?h4 = "?h3 @ PutUint32 (SegmentLength ?f)"
  let ?h5 = "?h4 @ PutUint32 (SegmentLengthMask ?f)"
  let ?h6 = "?h5 @ PutUint32 (SegmentCount ?f)"
  let ?h7 = "?h6 @ PutUint32 (SegmentCountLength ?f)"
  let ?h8 = "?h7 @ PutUint64 (of_nat ?n)"
  have "copy_at 0 ?h1 (make_bytes (48 + ?n)) = ?h1 @ replicate (40 + ?n) 0"
    by (simp add: copy_at_front)
  moreover have "copy_at 8 (PutUint64 (cc_CRC64 c)) (?h1 @ replicate (40 + ?n) 0) = ?h2 @ replicate (32 + ?n) 0"
    by (rule copy_at_next) simp_all
  moreover have "copy_at 16 (PutUint64 (Seed ?f)) (?h2 @ replicate (32 + ?n) 0) = ?h3 @ replicate (24 + ?n) 0"
    by (rule copy_at_next) simp_all
  moreover have "copy_at 24 (PutUint32 (SegmentLength ?f)) (?h3 @ replicate (24 + ?n) 0) = ?h4 @ replicate (20 + ?n) 0"
    by (rule copy_at_next) simp_all
  moreover have "copy_at 28 (PutUint32 (SegmentLengthMask ?f)) (?h4 @ replicate (20 + ?n) 0) = ?h5 @ replicate (16 + ?n) 0"
    by (rule copy_at_next) simp_all
  moreover have "copy_at 32 (PutUint32 (SegmentCount ?f)) (?h5 @ replicate (16 + ?n) 0) = ?h6 @ replicate (12 + ?n) 0"
    by (rule copy_at_next) simp_all
  moreover have "copy_at 36 (PutUint32 (SegmentCountLength ?f)) (?h6 @ replicate (12 + ?n) 0) = ?h7 @ replicate (8 + ?n) 0"
    by (rule copy_at_next) simp_all
  moreover have "copy_at 40 (PutUint64 (of_nat ?n)) (?h7 @ replicate (8 + ?n) 0) = ?h8 @ replicate ?n 0"
    by (rule copy_at_next) simp_all
  moreover have "copy_at 48 (Fingerprints ?f) (?h8 @ replicate ?n 0) = (?h8 @ Fingerprints ?f) @ replicate 0 0"
    by (rule copy_at_next) simp_all
  ultimately show ?thesis
    by (simp only: CC_MarshalBinary_def Let_def CC_header_def append_assoc replicate_0 append_Nil2)
qed

lemma CC_MarshalBinary_not_Nil [simp]: "CC_MarshalBinary c \<noteq> []"
  by (metis CC_MarshalBinary_wire Nil_is_append_conv length_CC_header list.size(3) zero_neq_numeral)

text \<open>
  Decoding a header followed by any tail: the fingerprints are the tail, cut or zero-filled to
  the announced length.
\<close>

lemma CC_UnmarshalBinary_tail:
  assumes "wf_cc c"
  shows "CC_UnmarshalBinary (CC_header c @ tail) =
    Ret (Inr (c\<lparr>cc_f := (cc_f c)\<lparr>Fingerprints := copy_at 0 tail (replicate (length (Fingerprints (cc_f c))) 0)\<rparr>\<rparr>))"
proof -
  have "unat (of_nat (length (Fingerprints (cc_f c))) :: u64) = length (Fingerprints (cc_f c))"
    using assms by (simp add: wf_cc_def unat_of_nat_alloc)
  with assms show ?thesis
    by (simp add: CC_UnmarshalBinary_def CC_header_def Let_def wf_cc_def)
qed

lemma CC_Unmarshal_Marshal: "wf_cc c \<Longrightarrow> CC_UnmarshalBinary (CC_MarshalBinary c) = Ret (Inr c)"
  by (simp add: wire CC_UnmarshalBinary_tail copy_at_all)

interpretation cc_wire: codec CC_MarshalBinary CC_decode wf_cc
  by unfold_locales (simp add: CC_decode_def CC_Unmarshal_Marshal)

lemma CC_UnmarshalBinary_panics_iff:
  "panics (CC_UnmarshalBinary b) \<longleftrightarrow> 48 \<le> length b \<and> maxAlloc < unat (Uint64 (take 8 (drop 40 b)))"
  by (cases "maxAlloc < unat (Uint64 (take 8 (drop 40 b)))") (auto simp: CC_UnmarshalBinary_def Let_def)

lemma NewConnectedClients_Inr_iff:
  "NewConnectedClients Populate peer clients = Inr c \<longleftrightarrow>
     (\<exists>f. Populate clients = Inr f \<and> c = \<lparr>cc_Peer = peer, cc_CRC64 = crc64_ids clients, cc_f = f\<rparr>)"
  by (auto simp: NewConnectedClients_def split: sum.splits)

lemma NewConnectedClients_Has:
  assumes "no_false_negatives Populate Contains"
    and "NewConnectedClients Populate peer clients = Inr c" and "k \<in> set clients"
  shows "CC_Has Contains c k"
  using assms by (auto simp: NewConnectedClients_Inr_iff no_false_negatives_def CC_Has_def)

section \<open>Properties\<close>

text \<open>C29: a summary survives the wire, and truncation of its fingerprints goes unnoticed. Whatever
  part of the fingerprints is cut off, the decoder accepts the rest with the missing
  fingerprints read as zero; with nothing cut off the decoded summary is the one encoded.\<close>

theorem summary_roundtrip_truncated:
  assumes "wf_cc c" and "n \<le> length (Fingerprints (cc_f c))"
  shows "CC_UnmarshalBinary (CC_MarshalBinary c) = Ret (Inr c) \<and>
    CC_UnmarshalBinary (take (48 + n) (CC_MarshalBinary c)) =
      Ret (Inr (c\<lparr>cc_f := (cc_f c)\<lparr>Fingerprints := take n (Fingerprints (cc_f c)) @
                                      replicate (length (Fingerprints (cc_f c)) - n) 0\<rparr>\<rparr>))"
  using assms by (simp add: CC_Unmarshal_Marshal wire CC_UnmarshalBinary_tail copy_at_prefix)

lemma summary_roundtrip_truncated_witness:
  "\<exists>c. Fingerprints (cc_f c) = [5, 6] \<and>
     CC_UnmarshalBinary (CC_MarshalBinary c) = Ret (Inr c) \<and>
     CC_UnmarshalBinary (take 49 (CC_MarshalBinary c)) =
       Ret (Inr (c\<lparr>cc_f := (cc_f c)\<lparr>Fingerprints := [5, 0]\<rparr>\<rparr>))"
proof -
  let ?c = "\<lparr>cc_Peer = 3, cc_CRC64 = 4, cc_f = \<lparr>Seed = 1, SegmentLength = 2, SegmentLengthMask = 1,
      SegmentCount = 1, SegmentCountLength = 2, Fingerprints = [5, 6]\<rparr>\<rparr>"
  have "wf_cc ?c"
    by (simp add: wf_cc_def maxAlloc_def)
  then show ?thesis
    using summary_roundtrip_truncated [of ?c 1] by (intro exI [of _ ?c]) simp
qed

text \<open>The decoder of summaries panics exactly when a complete header announces more
  fingerprints than can be allocated; the bound is checked by nobody.\<close>

theorem summary_decode_panics:
  "panics (CC_UnmarshalBinary b) \<longleftrightarrow> 48 \<le> length b \<and> maxAlloc < unat (Uint64 (take 8 (drop 40 b)))"
  by (rule CC_UnmarshalBinary_panics_iff)

end
