(* ===== verification/Peer_Graph.thy ===== *)
theory Peer_Graph
  imports Connected_Clients Link
begin

text \<open>
  The peer graph (\<^verbatim>\<open>state/peer_graph.go\<close>): which peer announced which clients. The
  \<^verbatim>\<open>sync.Map\<close> is a finite map; \<^verbatim>\<open>Range\<close> visits its keys in an order the language does not
  fix, which is an argument. The contract \<open>summary_store\<close> is what the gossip handlers rely
  on; it is interpreted on these operations.
\<close>

section \<open>Definitions\<close>

type_synonym PeerGraph = "u64 \<rightharpoonup> ConnectedClients"

definition NewPeerGraph :: "u64 \<Rightarrow> PeerGraph" where
  "NewPeerGraph self = Map.empty"

text \<open>The callback given to \<^verbatim>\<open>Range\<close>: it stops the iteration at the first hit.\<close>

fun Who_range :: "(BinaryFuse8 \<Rightarrow> u64 \<Rightarrow> bool) \<Rightarrow> PeerGraph \<Rightarrow> u64 \<Rightarrow> u64 list \<Rightarrow> u64 \<Rightarrow> u64" where
  "Who_range Contains p client [] peer = peer"
| "Who_range Contains p client (key # keys) peer =
     (case p key of
        None \<Rightarrow> Who_range Contains p client keys peer
      | Some c \<Rightarrow> if CC_Has Contains c client then key else Who_range Contains p client keys peer)"

definition Who :: "(BinaryFuse8 \<Rightarrow> u64 \<Rightarrow> bool) \<Rightarrow> u64 list \<Rightarrow> PeerGraph \<Rightarrow> u64 \<Rightarrow> u64" where
  "Who Contains order p client = Who_range Contains p client order 0"

definition PeerGraph_Remove :: "PeerGraph \<Rightarrow> u64 \<Rightarrow> PeerGraph" where
  "PeerGraph_Remove p peer = p(peer := None)"

definition PeerGraph_Replace :: "PeerGraph \<Rightarrow> ConnectedClients \<Rightarrow> PeerGraph \<times> bool" where
  "PeerGraph_Replace p c =
     (case p (cc_Peer c) of
        None \<Rightarrow> (p(cc_Peer c \<mapsto> c), True)
      | Some old \<Rightarrow>
          (let modified = (cc_CRC64 old \<noteq> cc_CRC64 c) in
           (if modified then p(cc_Peer c \<mapsto> c) else p, modified)))"

text \<open>Every entry is stored under its owner.\<close>

definition pg_inv :: "PeerGraph \<Rightarrow> bool" where
  "pg_inv p = (\<forall>k c. p k = Some c \<longrightarrow> cc_Peer c = k)"

section \<open>The contract of the store\<close>

text \<open>
  A store of summaries, seen through the checksum it holds for each owner: \<open>replace\<close> makes
  the checksum of its owner the new one, touches no other owner, and reports whether the
  checksum changed.
\<close>

locale summary_store =
  fixes lookup :: "'g \<Rightarrow> u64 \<Rightarrow> 's option"
    and replace :: "'g \<Rightarrow> 's \<Rightarrow> 'g \<times> bool"
    and remove :: "'g \<Rightarrow> u64 \<Rightarrow> 'g"
    and owner :: "'s \<Rightarrow> u64"
    and checksum :: "'s \<Rightarrow> u64"
    and invar :: "'g \<Rightarrow> bool"
  assumes lookup_owner: "invar g \<Longrightarrow> lookup g k = Some s \<Longrightarrow> owner s = k"
    and replace_sum: "invar g \<Longrightarrow> map_option checksum (lookup (fst (replace g s)) (owner s)) = Some (checksum s)"
    and replace_other: "invar g \<Longrightarrow> k \<noteq> owner s \<Longrightarrow> lookup (fst (replace g s)) k = lookup g k"
    and replace_same: "invar g \<Longrightarrow> \<not> snd (replace g s) \<Longrightarrow> fst (replace g s) = g"
    and replace_modified: "invar g \<Longrightarrow> snd (replace g s) \<longleftrightarrow> map_option checksum (lookup g (owner s)) \<noteq> Some (checksum s)"
    and lookup_remove: "invar g \<Longrightarrow> lookup (remove g k) = (lookup g)(k := None)"
    and invar_replace: "invar g \<Longrightarrow> invar (fst (replace g s))"
    and invar_remove: "invar g \<Longrightarrow> invar (remove g k)"
begin

definition sums :: "'g \<Rightarrow> u64 \<Rightarrow> u64 option" where
  "sums g k = map_option checksum (lookup g k)"

text \<open>Functional refinement: on checksums, \<open>replace\<close> is the update of a map.\<close>

lemma sums_replace: "invar g \<Longrightarrow> sums (fst (replace g s)) = (sums g)(owner s \<mapsto> checksum s)"
  by (rule ext) (simp add: sums_def replace_sum replace_other)

lemma sums_remove: "invar g \<Longrightarrow> sums (remove g k) = (sums g)(k := None)"
  by (rule ext) (simp add: sums_def lookup_remove)

text \<open>A stream of summaries: the last one of each owner decides.\<close>

definition merge_all :: "'g \<Rightarrow> 's list \<Rightarrow> 'g" where
  "merge_all = foldl (\<lambda>g s. fst (replace g s))"

lemma invar_merge_all: "invar g \<Longrightarrow> invar (merge_all g ss)"
  by (induction ss arbitrary: g) (auto simp: merge_all_def invar_replace)

lemma sums_merge_all:
  "invar g \<Longrightarrow> sums (merge_all g ss) = foldl (\<lambda>m s. m(owner s \<mapsto> checksum s)) (sums g) ss"
  by (induction ss arbitrary: g) (auto simp: merge_all_def sums_replace invar_replace)

lemma replace_idem: "invar g \<Longrightarrow> replace (fst (replace g s)) s = (fst (replace g s), False)"
proof -
  assume inv: "invar g"
  let ?r = "replace (fst (replace g s)) s"
  from inv have "\<not> snd ?r"
    by (simp add: replace_modified invar_replace replace_sum)
  then show ?thesis
    using inv by (metis invar_replace prod.collapse replace_same)
qed

end

section \<open>Lemmas\<close>

lemma pg_inv_empty [simp]: "pg_inv (NewPeerGraph self)"
  by (simp add: pg_inv_def NewPeerGraph_def)

lemma pg_inv_Remove [inv_intros]: "pg_inv p \<Longrightarrow> pg_inv (PeerGraph_Remove p k)"
  by (auto simp: pg_inv_def PeerGraph_Remove_def split: if_splits)

lemma pg_inv_Replace [inv_intros]: "pg_inv p \<Longrightarrow> pg_inv (fst (PeerGraph_Replace p c))"
  by (auto simp: pg_inv_def PeerGraph_Replace_def Let_def split: option.splits if_splits)

interpretation peer_graph: summary_store "\<lambda>p k. p k" PeerGraph_Replace PeerGraph_Remove cc_Peer cc_CRC64 pg_inv
proof unfold_locales
  fix g :: PeerGraph and s k
  assume inv: "pg_inv g"
  show "g k = Some s \<Longrightarrow> cc_Peer s = k"
    using inv by (simp add: pg_inv_def)
  show "map_option cc_CRC64 (fst (PeerGraph_Replace g s) (cc_Peer s)) = Some (cc_CRC64 s)"
    by (auto simp: PeerGraph_Replace_def Let_def split: option.splits)
  show "k \<noteq> cc_Peer s \<Longrightarrow> fst (PeerGraph_Replace g s) k = g k"
    by (auto simp: PeerGraph_Replace_def Let_def split: option.splits)
  show "\<not> snd (PeerGraph_Replace g s) \<Longrightarrow> fst (PeerGraph_Replace g s) = g"
    by (auto simp: PeerGraph_Replace_def Let_def split: option.splits)
  show "snd (PeerGraph_Replace g s) \<longleftrightarrow> map_option cc_CRC64 (g (cc_Peer s)) \<noteq> Some (cc_CRC64 s)"
    by (auto simp: PeerGraph_Replace_def Let_def split: option.splits)
  show "PeerGraph_Remove g k = g(k := None)"
    by (simp add: PeerGraph_Remove_def)
qed (simp_all add: inv_intros)

subsection \<open>Lookups\<close>

lemma Who_range_hit:
  assumes "key \<in> set keys" and "p key = Some c" and "CC_Has Contains c client"
  shows "\<exists>k \<in> set keys. \<exists>d. Who_range Contains p client keys peer = k \<and> p k = Some d \<and> CC_Has Contains d client"
  using assms by (induction keys) (auto split: option.splits)

lemma Who_range_cases:
  "Who_range Contains p client keys peer = peer \<or>
   (\<exists>c. p (Who_range Contains p client keys peer) = Some c \<and> CC_Has Contains c client)"
  by (induction keys) (auto split: option.splits)

lemma Who_sound:
  "Who Contains order p client \<noteq> 0 \<Longrightarrow>
   \<exists>c. p (Who Contains order p client) = Some c \<and> CC_Has Contains c client"
  using Who_range_cases [of Contains p client order 0] by (auto simp: Who_def)

lemma Who_complete:
  assumes "map_order p order" and "p key = Some c" and "CC_Has Contains c client"
  shows "\<exists>d. p (Who Contains order p client) = Some d \<and> CC_Has Contains d client"
proof -
  from assms(1,2) have "key \<in> set order"
    by (auto simp: map_order_def)
  then show ?thesis
    using Who_range_hit [of key order p c Contains client 0] assms(2,3) by (auto simp: Who_def)
qed

lemma Who_none:
  assumes "\<And>k c. p k = Some c \<Longrightarrow> \<not> CC_Has Contains c client"
  shows "Who Contains order p client = 0"
  using assms Who_range_cases [of Contains p client order 0] by (auto simp: Who_def)

lemma Who_unique:
  assumes "map_order p order" and "p key = Some c" and "CC_Has Contains c client"
    and "\<And>k d. p k = Some d \<Longrightarrow> CC_Has Contains d client \<Longrightarrow> k = key"
  shows "Who Contains order p client = key"
  using Who_complete [OF assms(1-3)] assms(4) by blast

end
