(* ===== verification/Meta.thy ===== *)
theory Meta
  imports Link
begin

text \<open>
  The node metadata a server gossips (\<^verbatim>\<open>server/meta.go\<close>): the record, its 26-byte wire form,
  and the part of package \<^verbatim>\<open>net\<close> it uses: \<^verbatim>\<open>ParseIP\<close> and the printing of an IPv4 address.
  The branch of \<^verbatim>\<open>ParseIP\<close> for texts with a colon before any dot (IPv6) is an argument
  \<open>parseIPv6\<close>: every statement below holds whatever it returns.
\<close>

section \<open>IPv4 texts (package \<^verbatim>\<open>net\<close>)\<close>

definition big :: nat where
  "big = 0xFFFFFF"

fun dtoi_from :: "nat \<Rightarrow> nat \<Rightarrow> string \<Rightarrow> nat \<times> nat \<times> bool" where
  "dtoi_from n i [] = (if i = 0 then (0, 0, False) else (n, i, True))"
| "dtoi_from n i (c # s) =
     (if is_digit c then
        (let n' = n * 10 + (of_char c - 48) in
         if n' \<ge> big then (big, i, False) else dtoi_from n' (Suc i) s)
      else if i = 0 then (0, 0, False) else (n, i, True))"

definition dtoi :: "string \<Rightarrow> nat \<times> nat \<times> bool" where
  "dtoi = dtoi_from 0 0"

text \<open>One turn of the loop of \<^verbatim>\<open>parseIPv4\<close>: the field and the rest of the text.\<close>

definition parseIPv4_field :: "bool \<Rightarrow> string \<Rightarrow> (byte \<times> string) option" where
  "parseIPv4_field first s =
     (if s = [] then None
      else if \<not> first \<and> hd s \<noteq> CHR ''.'' then None
      else (let s = (if first then s else tl s) in
            case dtoi s of (n, c, ok) \<Rightarrow>
              if \<not> ok \<or> n > 0xFF then None
              else if c > 1 \<and> hd s = CHR ''0'' then None
              else Some (of_nat n, drop c s)))"

fun parseIPv4_fields :: "nat \<Rightarrow> bool \<Rightarrow> string \<Rightarrow> bytes option" where
  "parseIPv4_fields 0 first s = (if s = [] then Some [] else None)"
| "parseIPv4_fields (Suc k) first s =
     (case parseIPv4_field first s of
        None \<Rightarrow> None
      | Some (p, s') \<Rightarrow> map_option ((#) p) (parseIPv4_fields k False s'))"

text \<open>\<^verbatim>\<open>IPv4(a, b, c, d)\<close> is the 16-byte form of the address.\<close>

definition v4InV6Prefix :: bytes where
  "v4InV6Prefix = replicate 10 0 @ [0xff, 0xff]"

definition parseIPv4 :: "string \<Rightarrow> bytes option" where
  "parseIPv4 s = map_option (\<lambda>p. v4InV6Prefix @ p) (parseIPv4_fields 4 True s)"

fun ParseIP_scan :: "(string \<Rightarrow> bytes option) \<Rightarrow> string \<Rightarrow> string \<Rightarrow> bytes option" where
  "ParseIP_scan parseIPv6 s [] = None"
| "ParseIP_scan parseIPv6 s (c # cs) =
     (if c = CHR ''.'' then parseIPv4 s
      else if c = CHR '':'' then parseIPv6 s
      else ParseIP_scan parseIPv6 s cs)"

definition ParseIP :: "(string \<Rightarrow> bytes option) \<Rightarrow> string \<Rightarrow> bytes option" where
  "ParseIP parseIPv6 s = ParseIP_scan parseIPv6 s s"

definition IPv4_String :: "bytes \<Rightarrow> string" where
  "IPv4_String p = Join (map (\<lambda>b. itoa (unat b)) p) ''.''"

section \<open>Node metadata (\<^verbatim>\<open>server/meta.go\<close>)\<close>

definition MetaSize :: nat where
  "MetaSize = 26"

definition IPv4len :: nat where
  "IPv4len = 4"

record Meta =
  ConnectIP :: string
  ConnectPort :: u64
  PeerID :: u64
  meta_Protocol :: Protocol
  RespondOnly :: bool

text \<open>
  \<^verbatim>\<open>[]byte(ip)[12:16]\<close> panics when \<^verbatim>\<open>ParseIP\<close> returned \<^verbatim>\<open>nil\<close>.
\<close>

definition Meta_MarshalBinary :: "(string \<Rightarrow> bytes option) \<Rightarrow> Meta \<Rightarrow> bytes go" where
  "Meta_MarshalBinary parseIPv6 m =
     (let b = make_bytes MetaSize;
          ip = (case ParseIP parseIPv6 (ConnectIP m) of None \<Rightarrow> [] | Some ip \<Rightarrow> ip) in
      bind_go (slice 12 16 ip) (\<lambda>quad.
        (let b = copy_at 0 (take IPv4len quad) b;
             b = copy_at 8 (PutUint64 (ConnectPort m)) b;
             b = copy_at 16 (PutUint64 (PeerID m)) b;
             b = b[24 := meta_Protocol m];
             b = (if RespondOnly m then b[25 := 1] else b)
         in Ret b)))"

definition Meta_UnmarshalBinary :: "Meta \<Rightarrow> bytes \<Rightarrow> error + Meta" where
  "Meta_UnmarshalBinary m b =
     (if length b \<noteq> MetaSize then Inl (Errorf ''invalid buffer length: %d'' [length b])
      else (let m = m\<lparr>ConnectIP := IPv4_String (take IPv4len b)\<rparr>;
                m = m\<lparr>ConnectPort := Uint64 (take 8 (drop 8 b))\<rparr>;
                m = m\<lparr>PeerID := Uint64 (take 8 (drop 16 b))\<rparr>;
                m = m\<lparr>meta_Protocol := b ! 24\<rparr>;
                m = (if b ! 25 = 1 then m\<lparr>RespondOnly := True\<rparr> else m)
            in Inr m))"

definition Meta_MarshalLogObject :: "Meta \<Rightarrow> log_field list" where
  "Meta_MarshalLogObject m =
     [AddString ''IP'' (ConnectIP m), AddUint64 ''Port'' (ConnectPort m), AddUint64 ''Peer'' (PeerID m)] @
     Protocol_MarshalLogObject (meta_Protocol m) @ [AddBool ''RespondeOnly'' (RespondOnly m)]"

text \<open>The declaration \<^verbatim>\<open>var m Meta\<close>.\<close>

definition Meta_zero :: Meta where
  "Meta_zero = \<lparr>ConnectIP = '''', ConnectPort = 0, PeerID = 0, meta_Protocol = 0, RespondOnly = False\<rparr>"

text \<open>What the wire form can carry: an IPv4 address in canonical dotted form.\<close>

definition wf_meta :: "Meta \<Rightarrow> bool" where
  "wf_meta m = (\<exists>a b c d. ConnectIP m = IPv4_String [a, b, c, d])"

text \<open>The bytes of the wire form, for a record that has one.\<close>

definition Meta_bytes :: "(string \<Rightarrow> bytes option) \<Rightarrow> Meta \<Rightarrow> bytes" where
  "Meta_bytes v6 m = (case Meta_MarshalBinary v6 m of Panic p \<Rightarrow> [] | Ret bs \<Rightarrow> bs)"

section \<open>Lemmas\<close>

subsection \<open>Decimal fields\<close>

lemma dtoi_from_digit:
  "d < 10 \<Longrightarrow> n * 10 + d < big \<Longrightarrow> dtoi_from n i (digit_char d # s) = dtoi_from (n * 10 + d) (Suc i) s"
  by (simp add: Let_def)

lemma dtoi_from_end:
  "s = [] \<or> \<not> is_digit (hd s) \<Longrightarrow> dtoi_from n (Suc i) s = (n, Suc i, True)"
  by (cases s) auto

lemma dtoi_itoa:
  assumes "n < 256" and "rest = [] \<or> \<not> is_digit (hd rest)"
  shows "dtoi (itoa n @ rest) = (n, length (itoa n), True)"
proof -
  consider "n < 10" | "10 \<le> n" "n < 100" | "100 \<le> n" by linarith
  then show ?thesis
  proof cases
    case 1
    with assms show ?thesis
      by (simp add: itoa_1 dtoi_def big_def dtoi_from_digit dtoi_from_end del: dtoi_from.simps)
  next
    case 2
    with assms show ?thesis
      by (simp add: itoa_2 dtoi_def big_def dtoi_from_digit dtoi_from_end del: dtoi_from.simps)
  next
    case 3
    define x y z where "x = n div 10 div 10" and "y = n div 10 mod 10" and "z = n mod 10"
    have b: "x < 10" "y < 10" "z < 10" and n: "(x * 10 + y) * 10 + z = n"
      using assms(1) by (simp_all add: x_def y_def z_def)
    have "itoa n = [digit_char x, digit_char y, digit_char z]"
      using 3 assms(1) by (simp add: itoa_3 x_def y_def z_def)
    then show ?thesis using b n assms
      by (simp add: dtoi_def big_def dtoi_from_digit dtoi_from_end del: dtoi_from.simps)
  qed
qed

lemma hd_itoa_zero:
  assumes "n < 256" and "hd (itoa n) = CHR ''0''"
  shows "length (itoa n) = 1"
proof -
  consider "n < 10" | "10 \<le> n" "n < 100" | "100 \<le> n" by linarith
  then show ?thesis
    by cases (use assms in \<open>auto simp: itoa_1 itoa_2 itoa_3 digit_char_zero_iff\<close>)
qed

lemma digit_not_sep: "is_digit c \<Longrightarrow> c \<noteq> CHR ''.'' \<and> c \<noteq> CHR '':''"
  by (auto simp: is_digit_def)

subsection \<open>Parsing a printed address\<close>

lemma parseIPv4_field_itoa:
  assumes "rest = [] \<or> hd rest = CHR ''.''"
  shows "parseIPv4_field True (itoa (unat p) @ rest) = Some (p, rest)"
    and "parseIPv4_field False (CHR ''.'' # itoa (unat p) @ rest) = Some (p, rest)"
proof -
  have n: "unat p < 256"
    using unsigned_less [of p, where 'a = nat] by simp
  have d: "dtoi (itoa (unat p) @ rest) = (unat p, length (itoa (unat p)), True)"
    using assms n by (intro dtoi_itoa) (auto simp: is_digit_def)
  show "parseIPv4_field True (itoa (unat p) @ rest) = Some (p, rest)"
    using n hd_itoa_zero [OF n] by (auto simp: parseIPv4_field_def d)
  show "parseIPv4_field False (CHR ''.'' # itoa (unat p) @ rest) = Some (p, rest)"
    using n hd_itoa_zero [OF n] by (auto simp: parseIPv4_field_def d)
qed

lemma IPv4_String_quad:
  "IPv4_String [a, b, c, d] =
     itoa (unat a) @ CHR ''.'' # itoa (unat b) @ CHR ''.'' # itoa (unat c) @ CHR ''.'' # itoa (unat d) @ []"
  by (simp add: IPv4_String_def)

lemma parseIPv4_quad: "parseIPv4 (IPv4_String [a, b, c, d]) = Some (v4InV6Prefix @ [a, b, c, d])"
  unfolding parseIPv4_def IPv4_String_quad
  by (simp add: numeral_eq_Suc parseIPv4_field_itoa del: append_Nil2)

lemma ParseIP_scan_dot:
  "(\<And>c. c \<in> set p \<Longrightarrow> is_digit c) \<Longrightarrow> ParseIP_scan v6 s (p @ CHR ''.'' # q) = parseIPv4 s"
  by (induction p) (auto dest: digit_not_sep)

lemma ParseIP_quad: "ParseIP v6 (IPv4_String [a, b, c, d]) = Some (v4InV6Prefix @ [a, b, c, d])"
  unfolding ParseIP_def
  by (subst (2) IPv4_String_quad) (simp add: ParseIP_scan_dot set_itoa parseIPv4_quad)

lemma IPv4_String_inj: "IPv4_String [a, b, c, d] = IPv4_String [a', b', c', d'] \<Longrightarrow> [a, b, c, d] = [a', b', c', d']"
  by (metis parseIPv4_quad option.inject same_append_eq)

subsection \<open>The wire form\<close>

lemma Meta_MarshalBinary_wire:
  assumes "ConnectIP m = IPv4_String [w, x, y, z]"
  shows "Meta_MarshalBinary v6 m =
     Ret ([w, x, y, z] @ replicate 4 0 @ PutUint64 (ConnectPort m) @ PutUint64 (PeerID m) @
          [meta_Protocol m, if RespondOnly m then 1 else 0])"
proof -
  let ?q = "[w, x, y, z]" and ?p = "PutUint64 (ConnectPort m)" and ?i = "PutUint64 (PeerID m)"
  have quad: "slice 12 16 (v4InV6Prefix @ ?q) = Ret ?q"
    by (simp add: v4InV6Prefix_def)
  have c1: "copy_at 0 (take IPv4len ?q) (make_bytes MetaSize) = (?q @ replicate 4 0) @ replicate 18 0"
    by (simp add: copy_at_front IPv4len_def MetaSize_def replicate_add [symmetric] numeral_eq_Suc)
  have c2: "copy_at 8 ?p ((?q @ replicate 4 0) @ replicate 18 0) =
      (?q @ replicate 4 0 @ ?p) @ replicate 10 0"
    using copy_at_fill [of ?p 18 "?q @ replicate 4 0"] by simp
  have c3: "copy_at 16 ?i ((?q @ replicate 4 0 @ ?p) @ replicate 10 0) =
      (?q @ replicate 4 0 @ ?p @ ?i) @ replicate 2 0"
    using copy_at_fill [of ?i 10 "?q @ replicate 4 0 @ ?p"] by simp
  show ?thesis
    unfolding Meta_MarshalBinary_def assms ParseIP_quad Let_def option.case quad bind_go.simps c1 c2 c3
    by (simp add: list_update_append numeral_eq_Suc)
qed

lemma Meta_Unmarshal_wire:
  "Meta_UnmarshalBinary m0
     ([w, x, y, z] @ pad @ PutUint64 port @ PutUint64 pid @ [p, r]) =
   (if length pad = 4
    then Inr \<lparr>ConnectIP = IPv4_String [w, x, y, z], ConnectPort = port, PeerID = pid,
              meta_Protocol = p, RespondOnly = (RespondOnly m0 \<or> r = 1)\<rparr>
    else Inl (Errorf ''invalid buffer length: %d'' [22 + length pad]))"
  by (auto simp: Meta_UnmarshalBinary_def MetaSize_def IPv4len_def Let_def nth_append)

lemma Meta_Unmarshal_Marshal:
  assumes "wf_meta m" and "Meta_MarshalBinary v6 m = Ret bs"
  shows "Meta_UnmarshalBinary m0 bs = Inr (m\<lparr>RespondOnly := RespondOnly m0 \<or> RespondOnly m\<rparr>)"
proof -
  from assms(1) obtain w x y z where ip: "ConnectIP m = IPv4_String [w, x, y, z]"
    by (auto simp: wf_meta_def)
  have bs: "bs = [w, x, y, z] @ replicate 4 0 @ PutUint64 (ConnectPort m) @ PutUint64 (PeerID m) @
          [meta_Protocol m, if RespondOnly m then 1 else 0]"
    using assms(2) Meta_MarshalBinary_wire [OF ip] by simp
  show ?thesis
    unfolding bs Meta_Unmarshal_wire using ip by simp
qed

lemma wf_meta_marshals: "wf_meta m \<Longrightarrow> \<exists>bs. Meta_MarshalBinary v6 m = Ret bs \<and> length bs = MetaSize"
  by (auto simp: wf_meta_def Meta_MarshalBinary_wire MetaSize_def)

lemma Meta_bytes_decode: "wf_meta m \<Longrightarrow> Meta_UnmarshalBinary Meta_zero (Meta_bytes v6 m) = Inr m"
  using wf_meta_marshals [of m v6] Meta_Unmarshal_Marshal [of m v6 _ Meta_zero]
  by (auto simp: Meta_bytes_def Meta_zero_def)

interpretation meta_wire: codec "Meta_bytes v6" "\<lambda>b. ok_of (Meta_UnmarshalBinary Meta_zero b)" wf_meta
  by unfold_locales (simp add: Meta_bytes_decode)

lemma Meta_MarshalBinary_nil_ip:
  "ParseIP v6 (ConnectIP m) = None \<Longrightarrow> Meta_MarshalBinary v6 m = Panic SliceOutOfRange"
  by (simp add: Meta_MarshalBinary_def Let_def)

section \<open>Properties\<close>

text \<open>C25: what a server publishes about itself survives gossip. For every advertised IPv4 address
  the encoding does not panic, has \<^verbatim>\<open>MetaSize\<close> bytes and decodes to the same values, with one
  exception: the decoder only ever sets \<^verbatim>\<open>RespondOnly\<close>, so a receiver that had it set keeps it.\<close>

theorem meta_roundtrip:
  assumes "wf_meta m"
  shows "\<exists>bs. Meta_MarshalBinary v6 m = Ret bs \<and> length bs = MetaSize \<and>
    Meta_UnmarshalBinary m0 bs = Inr (m\<lparr>RespondOnly := RespondOnly m0 \<or> RespondOnly m\<rparr>)"
  using wf_meta_marshals [OF assms, of v6] Meta_Unmarshal_Marshal [OF assms, of v6 _ m0] by auto

lemma meta_roundtrip_witness:
  "\<exists>m bs. ConnectIP m = ''10.0.0.1'' \<and> Meta_MarshalBinary (\<lambda>_. None) m = Ret bs \<and> length bs = MetaSize \<and>
     Meta_UnmarshalBinary Meta_zero bs = Inr m"
proof -
  let ?m = "\<lparr>ConnectIP = ''10.0.0.1'', ConnectPort = 11111, PeerID = 7, meta_Protocol = QUIC, RespondOnly = False\<rparr>"
  have "''10.0.0.1'' = IPv4_String [10, 0, 0, 1]"
    by (simp add: IPv4_String_quad itoa_1 itoa_2 digit_char_def char_of_def bit_0)
  then have "wf_meta ?m"
    unfolding wf_meta_def by auto
  then show ?thesis
    using meta_roundtrip [of ?m "\<lambda>_. None" Meta_zero] by (intro exI [of _ ?m]) (auto simp: Meta_zero_def)
qed

end
