(* ===== verification/Acme.thy ===== *)
theory Acme
  imports Net
begin

text \<open>
  The certificate manager (\<^verbatim>\<open>acme/acme.go\<close>). Keys, accounts, orders and certificates are values
  that the sources only pass on; they are of a type \<open>'v\<close>. The ACME client and the DNS provider
  are third-party or remote, and the cryptography of \<^verbatim>\<open>crypto/x509\<close>, \<^verbatim>\<open>crypto/ecdsa\<close> and
  \<^verbatim>\<open>encoding/pem\<close> is not modelled: their functions are the fields of the record
  \<open>acme_env\<close>, an argument of the operations. The files of the data directory are a map from
  paths to texts. The mutexes are left out: every operation holds its locks throughout, except
  \<^verbatim>\<open>RequestCertificate\<close>, and is given here as one step.
\<close>

section \<open>Data\<close>

record AccountFile =
  af_PrivateKey :: string
  af_URL :: string

record Bundle =
  b_PrivateKey :: string
  b_Chain :: "string list"

record acme_Config =
  Contact :: string
  DataDir :: string
  RootZone :: string
  acme_Domain :: string

record 'v CertManager =
  cm_config :: acme_Config
  accKey :: "'v option"
  account :: "'v option"
  hasAcc :: bool
  certPKey :: "'v option"
  hasCertPKey :: bool
  hasCert :: bool
  storedCert :: "'v option"
  storedPem :: Bundle
  files :: "string \<rightharpoonup> string"

text \<open>
  The environment. \<^verbatim>\<open>os_Create\<close> and \<^verbatim>\<open>os_Open\<close> give the error of opening a path, if any
  other than its absence. The account calls return a value beside the error, because the
  sources assign it before they look at the error.
\<close>

record 'v acme_env =
  NewClient :: "error option"
  GenerateKey :: "error + 'v"
  MarshalECPrivateKey :: "'v \<Rightarrow> error + bytes"
  ParseECPrivateKey :: "bytes \<Rightarrow> error + 'v"
  pem_Encode :: "string \<Rightarrow> bytes \<Rightarrow> bytes"
  pem_Decode :: "bytes \<Rightarrow> bytes option"
  X509KeyPair :: "bytes \<Rightarrow> bytes \<Rightarrow> error + 'v"
  NewAccountOptions :: "'v \<Rightarrow> string \<Rightarrow> 'v option \<times> error option"
  UpdateAccount :: "'v \<Rightarrow> string \<Rightarrow> string \<Rightarrow> 'v option \<times> error option"
  account_URL :: "'v option \<Rightarrow> string"
  os_Create :: "string \<Rightarrow> error option"
  os_Write :: "string \<Rightarrow> error option"
  os_Open :: "string \<Rightarrow> error option"
  CreateCertificateRequest :: "string \<Rightarrow> string list \<Rightarrow> 'v \<Rightarrow> error + bytes"
  ParseCertificateRequest :: "bytes \<Rightarrow> error + 'v"
  NewOrderDomains :: "'v option \<Rightarrow> string list \<Rightarrow> error + 'v"
  Authorizations :: "'v \<Rightarrow> string list"
  FetchAuthorization :: "'v option \<Rightarrow> string \<Rightarrow> error + 'v"
  ChallengeDNS01 :: "'v \<Rightarrow> 'v option"
  DNS01KeyAuthorization :: "'v \<Rightarrow> string"
  DNS_Update :: "string \<Rightarrow> string \<Rightarrow> string \<Rightarrow> bool \<times> error option"
  UpdateChallenge :: "'v option \<Rightarrow> 'v \<Rightarrow> error option"
  FinalizeOrder :: "'v option \<Rightarrow> 'v \<Rightarrow> 'v \<Rightarrow> error + 'v"
  order_Certificate :: "'v \<Rightarrow> string"
  FetchCertificates :: "'v option \<Rightarrow> string \<Rightarrow> error + bytes list"

definition Bundle_zero :: Bundle where
  "Bundle_zero = \<lparr>b_PrivateKey = '''', b_Chain = []\<rparr>"

definition acme_New :: "'v acme_env \<Rightarrow> (string \<rightharpoonup> string) \<Rightarrow> acme_Config \<Rightarrow> error + 'v CertManager" where
  "acme_New env fs conf =
     (if \<not> HasSuffix (acme_Domain conf) (RootZone conf) then Inl (Errorf ''domain must be under root zone'' [])
      else case NewClient env of
        Some err \<Rightarrow> Inl (Wrapf ''initializing acme client: %w'' [] err)
      | None \<Rightarrow>
        Inr \<lparr>cm_config = conf, accKey = None, account = None, hasAcc = False, certPKey = None,
             hasCertPKey = False, hasCert = False, storedCert = None, storedPem = Bundle_zero, files = fs\<rparr>)"

section \<open>Keys and files\<close>

definition keyToPEM :: "'v acme_env \<Rightarrow> 'v \<Rightarrow> error + bytes" where
  "keyToPEM env pKey =
     (case MarshalECPrivateKey env pKey of
        Inl err \<Rightarrow> Inl (Wrapf ''marshalling private key to pem: %w'' [] err)
      | Inr enc \<Rightarrow> Inr (pem_Encode env ''EC PRIVATE KEY'' enc))"

text \<open>\<^verbatim>\<open>pem.Decode\<close> returns \<^verbatim>\<open>nil\<close> when there is no PEM block; \<^verbatim>\<open>blk.Bytes\<close> then panics.\<close>

definition pemToKey :: "'v acme_env \<Rightarrow> bytes \<Rightarrow> (error + 'v) go" where
  "pemToKey env b =
     (case pem_Decode env b of
        None \<Rightarrow> Panic NilDereference
      | Some blk \<Rightarrow>
        Ret (case ParseECPrivateKey env blk of
               Inl err \<Rightarrow> Inl (Wrapf ''parsing private key from pem: %w'' [] err)
             | Inr pKey \<Rightarrow> Inr pKey))"

text \<open>\<^verbatim>\<open>path.Join\<close> of the clean data directory and a file name.\<close>

definition path_Join :: "string \<Rightarrow> string \<Rightarrow> string" where
  "path_Join d f = (if d = '''' then f else d @ ''/'' @ f)"

definition AccountFile_json :: "AccountFile \<Rightarrow> json" where
  "AccountFile_json af = JObj [(''PrivateKey'', JStr (af_PrivateKey af)), (''URL'', JStr (af_URL af))]"

text \<open>A \<^verbatim>\<open>nil\<close> slice prints as \<^verbatim>\<open>null\<close>.\<close>

definition Bundle_json :: "Bundle \<Rightarrow> json" where
  "Bundle_json b = JObj [(''PrivateKey'', JStr (b_PrivateKey b)),
                         (''Chain'', if b_Chain b = [] then JNull else JArr (map JStr (b_Chain b)))]"

definition str_field :: "json \<Rightarrow> string \<Rightarrow> string option" where
  "str_field v k =
     (case json_field v k of
        None \<Rightarrow> Some '''' | Some JNull \<Rightarrow> Some '''' | Some (JStr s) \<Rightarrow> Some s | Some _ \<Rightarrow> None)"

fun str_list :: "json list \<Rightarrow> string list option" where
  "str_list [] = Some []"
| "str_list (JStr s # vs) = map_option ((#) s) (str_list vs)"
| "str_list (JNull # vs) = map_option ((#) '''') (str_list vs)"
| "str_list (v # vs) = None"

definition strs_field :: "json \<Rightarrow> string \<Rightarrow> string list option" where
  "strs_field v k =
     (case json_field v k of
        None \<Rightarrow> Some [] | Some JNull \<Rightarrow> Some [] | Some (JArr vs) \<Rightarrow> str_list vs | Some _ \<Rightarrow> None)"

definition is_struct :: "json \<Rightarrow> bool" where
  "is_struct v = (case v of JObj ms \<Rightarrow> True | JNull \<Rightarrow> True | _ \<Rightarrow> False)"

definition AccountFile_of_json :: "json \<Rightarrow> AccountFile option" where
  "AccountFile_of_json v =
     (if is_struct v
      then do { p \<leftarrow> str_field v ''PrivateKey''; u \<leftarrow> str_field v ''URL'';
                Some \<lparr>af_PrivateKey = p, af_URL = u\<rparr> }
      else None)"

definition Bundle_of_json :: "json \<Rightarrow> Bundle option" where
  "Bundle_of_json v =
     (if is_struct v
      then do { p \<leftarrow> str_field v ''PrivateKey''; c \<leftarrow> strs_field v ''Chain'';
                Some \<lparr>b_PrivateKey = p, b_Chain = c\<rparr> }
      else None)"

text \<open>\<^verbatim>\<open>os.Create\<close> truncates the file, then one \<^verbatim>\<open>Encode\<close>; a failed write leaves it empty.\<close>

definition persist_json ::
  "'v acme_env \<Rightarrow> string \<Rightarrow> string \<Rightarrow> string \<Rightarrow> json \<Rightarrow> 'v CertManager \<Rightarrow> error option \<times> 'v CertManager" where
  "persist_json env name openErr writeErr v c =
     (let f = path_Join (DataDir (cm_config c)) name in
      case os_Create env f of
        Some err \<Rightarrow> (Some (Wrapf openErr [] err), c)
      | None \<Rightarrow>
        (let c = c\<lparr>files := (files c)(f \<mapsto> '''')\<rparr> in
         case os_Write env f of
           Some err \<Rightarrow> (Some (Wrapf writeErr [] err), c)
         | None \<Rightarrow> (None, c\<lparr>files := (files c)(f \<mapsto> json_Encode v)\<rparr>)))"

definition persistAccount :: "'v acme_env \<Rightarrow> AccountFile \<Rightarrow> 'v CertManager \<Rightarrow> error option \<times> 'v CertManager" where
  "persistAccount env af c =
     persist_json env ''accounts.json'' ''opening accounts.json for writing: %w''
       ''writing to accounts.json: %w'' (AccountFile_json af) c"

definition persisCerts :: "'v acme_env \<Rightarrow> Bundle \<Rightarrow> 'v CertManager \<Rightarrow> error option \<times> 'v CertManager" where
  "persisCerts env bundle c =
     persist_json env ''bundle.json'' ''opening bundle.json for writing: %w''
       ''writing to bundle.json: %w'' (Bundle_json bundle) c"

section \<open>Accounts\<close>

definition CreateAccount :: "'v acme_env \<Rightarrow> 'v CertManager \<Rightarrow> error option \<times> 'v CertManager" where
  "CreateAccount env c =
     (if hasAcc c then (Some (Sentinel ErrAccountExists), c)
      else case GenerateKey env of
        Inl err \<Rightarrow> (Some (Wrapf ''generating new account private key: %w'' [] err), c\<lparr>accKey := None\<rparr>)
      | Inr key \<Rightarrow>
        (let c = c\<lparr>accKey := Some key\<rparr> in
         case NewAccountOptions env key (Contact (cm_config c)) of (acc, err) \<Rightarrow>
           (let c = c\<lparr>account := acc\<rparr> in
            case err of
              Some e \<Rightarrow> (Some (Wrapf ''creating account with CA: %w'' [] e), c)
            | None \<Rightarrow>
              (let c = c\<lparr>hasAcc := True\<rparr> in
               case keyToPEM env key of
                 Inl e \<Rightarrow> (Some (Wrapf ''converting pkey to pem: %w'' [] e), c)
               | Inr pem \<Rightarrow>
                 persistAccount env \<lparr>af_PrivateKey = bytes_string pem, af_URL = account_URL env (account c)\<rparr> c))))"

text \<open>Exporting a \<^verbatim>\<open>nil\<close> key would panic inside \<^verbatim>\<open>x509.MarshalECPrivateKey\<close>.\<close>

definition ExportAccount :: "'v acme_env \<Rightarrow> 'v CertManager \<Rightarrow> (error + AccountFile) go" where
  "ExportAccount env c =
     (if \<not> hasAcc c then Ret (Inl (Sentinel ErrNoAccount))
      else case accKey c of
        None \<Rightarrow> Panic NilDereference
      | Some key \<Rightarrow>
        Ret (case keyToPEM env key of
               Inl err \<Rightarrow> Inl (Wrapf ''converting pkey to pem: %w'' [] err)
             | Inr pem \<Rightarrow> Inr \<lparr>af_PrivateKey = bytes_string pem, af_URL = account_URL env (account c)\<rparr>))"

definition ImportAccount ::
  "'v acme_env \<Rightarrow> AccountFile \<Rightarrow> bool \<Rightarrow> 'v CertManager \<Rightarrow> (error option \<times> 'v CertManager) go" where
  "ImportAccount env af persist c =
     (if hasAcc c then Ret (Some (Sentinel ErrAccountExists), c)
      else bind_go (pemToKey env (string_bytes (af_PrivateKey af))) (\<lambda>r.
        case r of
          Inl err \<Rightarrow> Ret (Some (Wrapf ''converting pem to pkey: %w'' [] err), c)
        | Inr pKey \<Rightarrow>
          (case UpdateAccount env pKey (af_URL af) (Contact (cm_config c)) of (acc, err) \<Rightarrow>
            (let c = c\<lparr>account := acc\<rparr> in
             case err of
               Some e \<Rightarrow> Ret (Some (Wrapf ''reloading accounts: %w'' [] e), c)
             | None \<Rightarrow>
               (let c = c\<lparr>hasAcc := True, accKey := Some pKey\<rparr> in
                Ret (if persist then persistAccount env af c else (None, c)))))))"

text \<open>
  Opening and decoding a file of the data directory; the second argument is the error for a
  missing file.
\<close>

definition load_json ::
  "'v acme_env \<Rightarrow> sentinel \<Rightarrow> string \<Rightarrow> string \<Rightarrow> string \<Rightarrow> (json \<Rightarrow> 'a option) \<Rightarrow> 'v CertManager \<Rightarrow> error + 'a" where
  "load_json env missing name loadErr decodeErr of_json c =
     (let f = path_Join (DataDir (cm_config c)) name in
      case os_Open env f of
        Some err \<Rightarrow> (if errors_Is err ErrNotExist then Inl (Sentinel missing) else Inl (Wrapf loadErr [] err))
      | None \<Rightarrow>
        (case files c f of
           None \<Rightarrow> Inl (Sentinel missing)
         | Some content \<Rightarrow>
           (case Option.bind (json_Decode content) (\<lambda>(v, r). of_json v) of
              None \<Rightarrow> Inl (Wrapf decodeErr [] (Errorf ''json'' []))
            | Some x \<Rightarrow> Inr x)))"

definition LoadAccountFromFile :: "'v acme_env \<Rightarrow> 'v CertManager \<Rightarrow> (error option \<times> 'v CertManager) go" where
  "LoadAccountFromFile env c =
     (case load_json env ErrNoAccount ''accounts.json'' ''loading accounts.json: %w''
             ''decoding accounts.json: %w'' AccountFile_of_json c of
        Inl err \<Rightarrow> Ret (Some err, c)
      | Inr af \<Rightarrow> ImportAccount env af False c)"

section \<open>Certificates\<close>

definition ImportPrivateKey :: "'v acme_env \<Rightarrow> string \<Rightarrow> 'v CertManager \<Rightarrow> (error option \<times> 'v CertManager) go" where
  "ImportPrivateKey env keyPem c =
     (if hasCertPKey c then Ret (Some (Sentinel ErrPKeyExists), c)
      else bind_go (pemToKey env (string_bytes keyPem)) (\<lambda>r.
        Ret (case r of
               Inl err \<Rightarrow> (Some (Wrapf ''decoding private key from pem: %w'' [] err), c\<lparr>certPKey := None\<rparr>)
             | Inr pKey \<Rightarrow> (None, c\<lparr>certPKey := Some pKey\<rparr>))))"

definition ExportPrivateKey :: "'v acme_env \<Rightarrow> 'v CertManager \<Rightarrow> (error + bytes) go" where
  "ExportPrivateKey env c =
     (if \<not> hasCertPKey c then Ret (Inl (Sentinel ErrNoPKey))
      else case certPKey c of
        None \<Rightarrow> Panic NilDereference
      | Some key \<Rightarrow>
        Ret (case keyToPEM env key of
               Inl err \<Rightarrow> Inl (Wrapf ''encoding private key to pem: %w'' [] err)
             | Inr pKey \<Rightarrow> Inr pKey))"

definition ImportBundle ::
  "'v acme_env \<Rightarrow> Bundle \<Rightarrow> bool \<Rightarrow> 'v CertManager \<Rightarrow> (error option \<times> 'v CertManager) go" where
  "ImportBundle env bundle persist c =
     bind_go (pemToKey env (string_bytes (b_PrivateKey bundle))) (\<lambda>r.
       case r of
         Inl err \<Rightarrow> Ret (Some (Wrapf ''decoding private key: %w'' [] err), c)
       | Inr pKey \<Rightarrow>
         (case X509KeyPair env (string_bytes (Join (b_Chain bundle) [CHR 0x0A])) (string_bytes (b_PrivateKey bundle)) of
            Inl err \<Rightarrow> Ret (Some (Wrapf ''generating x509 key pair: %w'' [] err), c)
          | Inr cert \<Rightarrow>
            (let c = c\<lparr>certPKey := Some pKey, storedCert := Some cert, storedPem := bundle,
                       hasCert := True, hasCertPKey := True\<rparr> in
             Ret (if persist then persisCerts env bundle c else (None, c)))))"

text \<open>\<^verbatim>\<open>copy(x.Chain, c.storedPem.Chain)\<close> copies the slice onto itself: the result shares it.\<close>

definition ExportBundle :: "'v CertManager \<Rightarrow> error + Bundle" where
  "ExportBundle c = (if \<not> hasCert c then Inl (Sentinel ErrNoCert) else Inr (storedPem c))"

definition LoadBundleFromFile :: "'v acme_env \<Rightarrow> 'v CertManager \<Rightarrow> (error option \<times> 'v CertManager) go" where
  "LoadBundleFromFile env c =
     (case load_json env ErrNoCert ''bundle.json'' ''loading bundle.json: %w''
             ''decoding bundle.json: %w'' Bundle_of_json c of
        Inl err \<Rightarrow> Ret (Some err, c)
      | Inr bundle \<Rightarrow> ImportBundle env bundle False c)"

definition GetCertificatesFunc :: "'v CertManager \<Rightarrow> error + 'v option" where
  "GetCertificatesFunc c =
     (if \<not> hasCert c then Inl (Errorf ''certificate not yet available'' []) else Inr (storedCert c))"

section \<open>Requesting a certificate\<close>

text \<open>
  The name of the challenge record, the common name and the names of the certificate.
  \<^verbatim>\<open>apex[0]\<close>, \<^verbatim>\<open>apex[1:]\<close> and \<^verbatim>\<open>apex[2:]\<close> are slices of the text in front of the zone.
\<close>

definition request_names :: "acme_Config \<Rightarrow> (string \<times> string \<times> string list) go" where
  "request_names conf =
     (let host = ''_acme-challenge'';
          common = RootZone conf;
          apex = TrimSuffix (acme_Domain conf) (RootZone conf);
          apex = TrimSuffix apex ''.'' in
      if apex = '''' then Ret (host, common, [common])
      else if hd apex = CHR 0x2A then
        bind_go (slice 1 (length apex) apex) (\<lambda>apex1.
        bind_go (slice 2 (length apex) apex) (\<lambda>apex2.
          (let common = apex2 @ ''.'' @ common in
           Ret (host @ apex1, common, [common, acme_Domain conf]))))
      else (let common = apex @ ''.'' @ common in Ret (host @ ''.'' @ apex, common, [common])))"

text \<open>The loop over the authorizations: the first failure ends it.\<close>

fun authorize :: "'v acme_env \<Rightarrow> 'v option \<Rightarrow> string \<Rightarrow> string list \<Rightarrow> error option" where
  "authorize env acc host [] = None"
| "authorize env acc host (authURL # urls) =
     (case FetchAuthorization env acc authURL of
        Inl err \<Rightarrow> Some (Wrapf ''fetching authoriztion: %w'' [] err)
      | Inr auth \<Rightarrow>
        (case ChallengeDNS01 env auth of
           None \<Rightarrow> Some (Errorf ''missing dns challenge'' [])
         | Some chal \<Rightarrow>
           (case DNS_Update env host ''TXT'' (DNS01KeyAuthorization env chal) of
              (ok, Some err) \<Rightarrow> Some (Wrapf ''updating dns record: %w'' [] err)
            | (ok, None) \<Rightarrow>
              if \<not> ok then Some (Errorf ''dns update failed'' [])
              else (case UpdateChallenge env acc chal of
                      Some err \<Rightarrow> Some (Wrapf ''updating challenge: %w'' [] err)
                    | None \<Rightarrow> authorize env acc host urls))))"

text \<open>\<^verbatim>\<open>strings.TrimSpace\<close> on texts of ASCII characters.\<close>

definition is_space :: "char \<Rightarrow> bool" where
  "is_space c = (c \<in> {CHR 0x09, CHR 0x0A, CHR 0x0B, CHR 0x0C, CHR 0x0D, CHR 0x20})"

definition TrimSpace :: "string \<Rightarrow> string" where
  "TrimSpace s = rev (dropWhile is_space (rev (dropWhile is_space s)))"

text \<open>
  The end of \<^verbatim>\<open>RequestCertificate\<close>, from \<^verbatim>\<open>ExportPrivateKey\<close> on.
\<close>

definition order_certificate ::
  "'v acme_env \<Rightarrow> string \<Rightarrow> string list \<Rightarrow> 'v \<Rightarrow> 'v CertManager \<Rightarrow> (error option \<times> 'v CertManager) go" where
  "order_certificate env host names csr c =
     bind_go (ExportPrivateKey env c) (\<lambda>r.
       case r of
         Inl err \<Rightarrow> Ret (Some (Wrapf ''encoding private key to pem: %w'' [] err), c)
       | Inr pKey \<Rightarrow>
         (case NewOrderDomains env (account c) names of
            Inl err \<Rightarrow> Ret (Some (Wrapf ''creating order: %w'' [] err), c)
          | Inr ord \<Rightarrow>
            (case authorize env (account c) host (Authorizations env ord) of
               Some err \<Rightarrow> Ret (Some err, c)
             | None \<Rightarrow>
               (case FinalizeOrder env (account c) ord csr of
                  Inl err \<Rightarrow> Ret (Some (Wrapf ''finalizing order: %w'' [] err), c)
                | Inr ord \<Rightarrow>
                  (case FetchCertificates env (account c) (order_Certificate env ord) of
                     Inl err \<Rightarrow> Ret (Some (Wrapf ''fetching certificates: %w'' [] err), c)
                   | Inr certs \<Rightarrow>
                     (let pemData = map (\<lambda>raw. TrimSpace (bytes_string (pem_Encode env ''CERTIFICATE'' raw))) certs in
                      bind_go (ImportBundle env \<lparr>b_PrivateKey = bytes_string pKey, b_Chain = pemData\<rparr> True c) (\<lambda>(err, c).
                        Ret (map_option (Wrapf ''re-importing exported certificate: %w'' []) err, c))))))))"

definition RequestCertificate :: "'v acme_env \<Rightarrow> 'v CertManager \<Rightarrow> (error option \<times> 'v CertManager) go" where
  "RequestCertificate env c =
     (if \<not> hasAcc c then Ret (Some (Sentinel ErrNoAccount), c)
      else bind_go (request_names (cm_config c)) (\<lambda>(host, common, names).
        case (case certPKey c of
                Some key \<Rightarrow> Inr (key, c)
              | None \<Rightarrow>
                (case GenerateKey env of
                   Inl err \<Rightarrow> Inl err
                 | Inr key \<Rightarrow> Inr (key, c\<lparr>certPKey := Some key, hasCertPKey := True\<rparr>))) of
          Inl err \<Rightarrow> Ret (Some (Wrapf ''generating certificate private key: %w'' [] err), c)
        | Inr (key, c) \<Rightarrow>
          (case CreateCertificateRequest env common names key of
             Inl err \<Rightarrow> Ret (Some (Wrapf ''generating csr: %w'' [] err), c)
           | Inr csrDer \<Rightarrow>
             (case ParseCertificateRequest env csrDer of
                Inl err \<Rightarrow> Ret (Some (Wrapf ''parsing csr: %w'' [] err), c)
              | Inr csr \<Rightarrow> order_certificate env host names csr c))))"

section \<open>Runs\<close>

text \<open>
  The operations that change the manager, and sequences of them. The environment may be
  another one at every call, but decoding a key and building a certificate are functions of
  their arguments.
\<close>

datatype acme_op =
    Op_CreateAccount
  | Op_ImportAccount AccountFile bool
  | Op_LoadAccountFromFile
  | Op_ImportPrivateKey string
  | Op_ImportBundle Bundle bool
  | Op_LoadBundleFromFile
  | Op_RequestCertificate

fun acme_apply :: "'v acme_env \<Rightarrow> acme_op \<Rightarrow> 'v CertManager \<Rightarrow> (error option \<times> 'v CertManager) go" where
  "acme_apply env Op_CreateAccount c = Ret (CreateAccount env c)"
| "acme_apply env (Op_ImportAccount af persist) c = ImportAccount env af persist c"
| "acme_apply env Op_LoadAccountFromFile c = LoadAccountFromFile env c"
| "acme_apply env (Op_ImportPrivateKey keyPem) c = ImportPrivateKey env keyPem c"
| "acme_apply env (Op_ImportBundle bundle persist) c = ImportBundle env bundle persist c"
| "acme_apply env Op_LoadBundleFromFile c = LoadBundleFromFile env c"
| "acme_apply env Op_RequestCertificate c = RequestCertificate env c"

definition same_crypto :: "'v acme_env \<Rightarrow> 'v acme_env \<Rightarrow> bool" where
  "same_crypto env env' =
     (X509KeyPair env' = X509KeyPair env \<and> pem_Decode env' = pem_Decode env \<and>
      ParseECPrivateKey env' = ParseECPrivateKey env)"

inductive acme_run :: "'v acme_env \<Rightarrow> 'v CertManager \<Rightarrow> bool" for env where
  acme_start: "same_crypto env env' \<Longrightarrow> acme_New env' fs conf = Inr c \<Longrightarrow> acme_run env c"
| acme_more: "acme_run env c \<Longrightarrow> same_crypto env env' \<Longrightarrow> acme_apply env' op c = Ret (err, c') \<Longrightarrow> acme_run env c'"

text \<open>
  The flags tell the truth: an account has a key, a certificate was built from the stored
  texts and has its key.
\<close>

definition cert_inv :: "'v acme_env \<Rightarrow> 'v CertManager \<Rightarrow> bool" where
  "cert_inv env c =
     (hasCertPKey c \<and>
      (\<exists>key. certPKey c = Some key \<and> pemToKey env (string_bytes (b_PrivateKey (storedPem c))) = Ret (Inr key)) \<and>
      (\<exists>cert. storedCert c = Some cert \<and>
         X509KeyPair env (string_bytes (Join (b_Chain (storedPem c)) [CHR 0x0A]))
           (string_bytes (b_PrivateKey (storedPem c))) = Inr cert))"

definition cm_inv :: "'v acme_env \<Rightarrow> 'v CertManager \<Rightarrow> bool" where
  "cm_inv env c =
     ((hasAcc c \<longrightarrow> accKey c \<noteq> None) \<and> (hasCertPKey c \<longrightarrow> certPKey c \<noteq> None) \<and> (hasCert c \<longrightarrow> cert_inv env c))"

text \<open>
  When a manager \<open>d\<close> in environment \<open>env'\<close> can take over the account of \<open>c\<close>: the text form of the
  key is read back as the key, the CA knows the account, and its file can be written if it is to be.
\<close>

definition accepts_account :: "'v acme_env \<Rightarrow> 'v acme_env \<Rightarrow> bool \<Rightarrow> 'v CertManager \<Rightarrow> 'v CertManager \<Rightarrow> bool" where
  "accepts_account env env' persist c d =
     (case accKey c of
        None \<Rightarrow> False
      | Some k \<Rightarrow>
        (case keyToPEM env k of
           Inl err \<Rightarrow> False
         | Inr pem \<Rightarrow>
           pemToKey env' pem = Ret (Inr k) \<and>
           snd (UpdateAccount env' k (account_URL env (account c)) (Contact (cm_config d))) = None \<and>
           (persist \<longrightarrow> (let f = path_Join (DataDir (cm_config d)) ''accounts.json''
                        in os_Create env' f = None \<and> os_Write env' f = None))))"

text \<open>
  An environment for examples: keys, certificates and PEM blocks are the bytes themselves, a
  certificate is its chain, and every call succeeds.
\<close>

definition plain_env :: "bytes acme_env" where
  "plain_env =
     \<lparr>NewClient = None, GenerateKey = Inr [7], MarshalECPrivateKey = Inr, ParseECPrivateKey = Inr,
      pem_Encode = (\<lambda>kind b. b), pem_Decode = (\<lambda>b. if b = [] then None else Some b),
      X509KeyPair = (\<lambda>chain key. Inr chain),
      NewAccountOptions = (\<lambda>k contact. (Some k, None)), UpdateAccount = (\<lambda>k url contact. (Some k, None)),
      account_URL = (\<lambda>a. ''url''), os_Create = (\<lambda>f. None), os_Write = (\<lambda>f. None), os_Open = (\<lambda>f. None),
      CreateCertificateRequest = (\<lambda>common names k. Inr k), ParseCertificateRequest = Inr,
      NewOrderDomains = (\<lambda>a names. Inr []), Authorizations = (\<lambda>ord. []),
      FetchAuthorization = (\<lambda>a url. Inr []), ChallengeDNS01 = Some, DNS01KeyAuthorization = (\<lambda>chal. ''txt''),
      DNS_Update = (\<lambda>host kind txt. (True, None)), UpdateChallenge = (\<lambda>a chal. None),
      FinalizeOrder = (\<lambda>a ord csr. Inr ord), order_Certificate = (\<lambda>ord. ''cert''),
      FetchCertificates = (\<lambda>a url. Inr [[65]])\<rparr>"

definition plain_conf :: acme_Config where
  "plain_conf = \<lparr>Contact = ''c'', DataDir = ''/d'', RootZone = ''x.y'', acme_Domain = ''*.t.x.y''\<rparr>"

definition plain_manager :: "bytes CertManager" where
  "plain_manager = the (ok_of (acme_New plain_env Map.empty plain_conf))"

section \<open>Lemmas\<close>

lemma same_crypto_pemToKey: "same_crypto env env' \<Longrightarrow> pemToKey env' = pemToKey env"
  by (rule ext) (simp add: pemToKey_def same_crypto_def split: option.split)

lemma cm_inv_files [simp]: "cm_inv env (c\<lparr>files := fs\<rparr>) = cm_inv env c"
  by (simp add: cm_inv_def cert_inv_def)

lemma cm_inv_account [simp]: "cm_inv env (c\<lparr>account := a\<rparr>) = cm_inv env c"
  by (simp add: cm_inv_def cert_inv_def)

lemma cm_inv_accKey: "cm_inv env c \<Longrightarrow> \<not> hasAcc c \<Longrightarrow> cm_inv env (c\<lparr>accKey := k\<rparr>)"
  by (simp add: cm_inv_def cert_inv_def)

lemma cm_inv_hasAcc: "cm_inv env c \<Longrightarrow> cm_inv env (c\<lparr>hasAcc := True, accKey := Some k\<rparr>)"
  by (simp add: cm_inv_def cert_inv_def)

lemma cm_inv_certPKey: "cm_inv env c \<Longrightarrow> \<not> hasCertPKey c \<Longrightarrow> cm_inv env (c\<lparr>certPKey := k\<rparr>)"
  by (auto simp: cm_inv_def cert_inv_def)

lemma cm_inv_hasCertPKey:
  "cm_inv env c \<Longrightarrow> certPKey c = None \<Longrightarrow> cm_inv env (c\<lparr>certPKey := Some k, hasCertPKey := True\<rparr>)"
  by (auto simp: cm_inv_def cert_inv_def)

lemma cm_inv_persist_json: "cm_inv env c \<Longrightarrow> cm_inv env (snd (persist_json env' n o_err w_err v c))"
  by (simp add: persist_json_def Let_def split: option.split)

lemma cm_inv_CreateAccount [inv_intros]:
  assumes "cm_inv env c"
  shows "cm_inv env (snd (CreateAccount env' c))"
proof (cases "hasAcc c")
  case False
  have key: "cm_inv env (c\<lparr>accKey := k\<rparr>)" for k
    using assms False by (rule cm_inv_accKey)
  have acc: "cm_inv env (c\<lparr>accKey := Some k, account := a, hasAcc := True\<rparr>)" for k a
    using assms by (simp add: cm_inv_def cert_inv_def)
  have err: "cm_inv env (c\<lparr>accKey := Some k, account := a\<rparr>)" for k a
    using key [of "Some k"] by (simp only: cm_inv_account)
  from False show ?thesis
    by (simp add: CreateAccount_def persistAccount_def Let_def key err acc cm_inv_persist_json
        del: cm_inv_account split: sum.split prod.split option.split)
qed (simp add: CreateAccount_def assms)

lemma cm_inv_ImportAccount [inv_intros]:
  assumes "cm_inv env c"
  shows "go_all (\<lambda>r. cm_inv env (snd r)) (ImportAccount env' af persist c)"
proof (cases "pemToKey env' (string_bytes (af_PrivateKey af))")
  case (Ret r)
  have acc: "cm_inv env (c\<lparr>account := a, hasAcc := True, accKey := Some k\<rparr>)" for a k
    using assms by (simp add: cm_inv_def cert_inv_def)
  show ?thesis
    using assms by (simp add: ImportAccount_def persistAccount_def Let_def Ret acc cm_inv_persist_json
        split: sum.split prod.split option.split)
qed (simp add: ImportAccount_def assms)

lemma cm_inv_ImportPrivateKey [inv_intros]:
  assumes "cm_inv env c"
  shows "go_all (\<lambda>r. cm_inv env (snd r)) (ImportPrivateKey env' key c)"
proof (cases "pemToKey env' (string_bytes key)")
  case (Ret r)
  then show ?thesis
    using assms by (simp add: ImportPrivateKey_def cm_inv_certPKey split: sum.split)
qed (simp add: ImportPrivateKey_def assms)

lemma cm_inv_ImportBundle [inv_intros]:
  assumes "same_crypto env env'" and "cm_inv env c"
  shows "go_all (\<lambda>r. cm_inv env (snd r)) (ImportBundle env' b persist c)"
proof -
  let ?chain = "string_bytes (Join (b_Chain b) [CHR 0x0A])" and ?key = "string_bytes (b_PrivateKey b)"
  have p: "pemToKey env' = pemToKey env" and x: "X509KeyPair env' = X509KeyPair env"
    using assms(1) same_crypto_pemToKey [OF assms(1)] by (simp_all add: same_crypto_def)
  have new: "cm_inv env (c\<lparr>certPKey := Some k, storedCert := Some cert, storedPem := b, hasCert := True, hasCertPKey := True\<rparr>)"
    if "pemToKey env ?key = Ret (Inr k)" and "X509KeyPair env ?chain ?key = Inr cert" for k cert
    using assms(2) that by (simp add: cm_inv_def cert_inv_def)
  show ?thesis
  proof (cases "pemToKey env ?key")
    case (Ret r)
    with assms(2) show ?thesis
      by (cases r; cases "X509KeyPair env ?chain ?key")
        (simp_all add: ImportBundle_def persisCerts_def Let_def p x new cm_inv_persist_json)
  qed (simp add: ImportBundle_def p)
qed

lemma cm_inv_order_certificate:
  assumes "same_crypto env env'" and "cm_inv env c"
  shows "go_all (\<lambda>r. cm_inv env (snd r)) (order_certificate env' host names csr c)"
proof (cases "ExportPrivateKey env' c")
  case (Ret r)
  have imp: "go_all (\<lambda>r. cm_inv env (snd r)) (ImportBundle env' b True c)" for b
    using assms by (rule cm_inv_ImportBundle)
  show ?thesis
    using assms(2) imp
    by (simp add: order_certificate_def Ret Let_def case_prod_beta split: sum.split option.split)
qed (simp add: order_certificate_def)

lemma cm_inv_RequestCertificate [inv_intros]:
  assumes "same_crypto env env'" and "cm_inv env c"
  shows "go_all (\<lambda>r. cm_inv env (snd r)) (RequestCertificate env' c)"
proof (cases "request_names (cm_config c)")
  case (Ret r)
  have key: "certPKey c = None \<Longrightarrow> cm_inv env (c\<lparr>certPKey := Some k, hasCertPKey := True\<rparr>)" for k
    using assms(2) by (rule cm_inv_hasCertPKey)
  show ?thesis
    using assms cm_inv_order_certificate [OF assms] cm_inv_order_certificate [OF assms(1) key]
    by (cases r; cases "certPKey c"; cases "GenerateKey env'")
      (simp_all add: RequestCertificate_def Ret key split: sum.split)
qed (simp add: RequestCertificate_def assms)

lemma cm_inv_apply:
  assumes "same_crypto env env'" and "cm_inv env c"
  shows "go_all (\<lambda>r. cm_inv env (snd r)) (acme_apply env' op c)"
  using assms
  by (cases op) (simp_all add: inv_intros LoadAccountFromFile_def LoadBundleFromFile_def split: sum.split)

lemma cm_inv_run: "acme_run env c \<Longrightarrow> cm_inv env c"
proof (induction rule: acme_run.induct)
  case (acme_start env' fs conf c)
  then show ?case
    by (auto simp: acme_New_def cm_inv_def split: if_splits option.splits)
next
  case (acme_more c env' op err c')
  then show ?case
    using cm_inv_apply [of env env' c op] by simp
qed

subsection \<open>Files\<close>

lemma AccountFile_json_inverse [simp]: "AccountFile_of_json (AccountFile_json af) = Some af"
  by (simp add: AccountFile_of_json_def AccountFile_json_def is_struct_def str_field_def json_field_def)

lemma str_list_map [simp]: "str_list (map JStr ss) = Some ss"
  by (induction ss) simp_all

lemma Bundle_json_inverse [simp]: "Bundle_of_json (Bundle_json b) = Some b"
  by (simp add: Bundle_of_json_def Bundle_json_def is_struct_def str_field_def strs_field_def json_field_def)

text \<open>A file written without an error is read back as the value that was written.\<close>

lemma load_persist_json:
  assumes "persist_json env name e1 e2 v c = (None, c')" and "of_json v = Some x"
    and "os_Open env' (path_Join (DataDir (cm_config d)) name) = None"
    and "DataDir (cm_config d) = DataDir (cm_config c)" and "files d = files c'"
  shows "load_json env' missing name e3 e4 of_json d = Inr x"
proof -
  let ?f = "path_Join (DataDir (cm_config c)) name"
  have "files c' ?f = Some (json_Encode v)"
    using assms(1) by (auto simp: persist_json_def Let_def split: option.splits)
  moreover have "json_Decode (json_Encode v) = Some (v, [CHR 0x0A])"
    using json_Decode_Encode [of v "[]"] by simp
  ultimately show ?thesis
    using assms(2-5) by (simp add: load_json_def Let_def)
qed

subsection \<open>Names of the certificate\<close>

lemma TrimSuffix_none: "\<not> HasSuffix s t \<Longrightarrow> TrimSuffix s t = s"
  by (simp add: TrimSuffix_def)

lemma request_names_wildcard:
  assumes "acme_Domain conf = ''*.'' @ sub @ ''.'' @ RootZone conf"
  shows "request_names conf =
    Ret (''_acme-challenge.'' @ sub, sub @ ''.'' @ RootZone conf, [sub @ ''.'' @ RootZone conf, acme_Domain conf])"
proof -
  have "TrimSuffix (acme_Domain conf) (RootZone conf) = (''*.'' @ sub) @ ''.''"
    using assms TrimSuffix_append [of "''*.'' @ sub @ ''.''" "RootZone conf"] by simp
  then have "TrimSuffix (TrimSuffix (acme_Domain conf) (RootZone conf)) ''.'' = ''*.'' @ sub"
    using TrimSuffix_append [of "''*.'' @ sub" "''.''"] by simp
  then show ?thesis
    by (simp add: request_names_def Let_def)
qed

lemma request_names_root_wildcard:
  assumes "acme_Domain conf = ''*.'' @ RootZone conf"
  shows "request_names conf = Panic SliceOutOfRange"
proof -
  have "TrimSuffix (acme_Domain conf) (RootZone conf) = ''*.''"
    using assms TrimSuffix_append [of "''*.''" "RootZone conf"] by simp
  moreover have "TrimSuffix ''*.'' ''.'' = ''*''"
    using TrimSuffix_append [of "''*''" "''.''"] by simp
  ultimately show ?thesis
    by (simp add: request_names_def Let_def slice_def)
qed

lemma persist_json_files:
  obtains fs where "snd (persist_json env name e1 e2 v c) = c\<lparr>files := fs\<rparr>"
proof (cases "os_Create env (path_Join (DataDir (cm_config c)) name)")
  case None
  then show ?thesis
    by (cases "os_Write env (path_Join (DataDir (cm_config c)) name)") (auto simp: persist_json_def Let_def intro: that)
next
  case (Some err)
  then show ?thesis
    by (intro that [of "files c"]) (simp add: persist_json_def Let_def)
qed

text \<open>A bundle that one manager holds can be imported by every other, which then serves the same.\<close>

lemma ImportBundle_exported:
  assumes "acme_run env c" and "ExportBundle c = Inr b" and "same_crypto env env'"
  shows "\<exists>err d'. ImportBundle env' b persist d = Ret (err, d') \<and> ExportBundle d' = Inr b \<and>
    GetCertificatesFunc d' = GetCertificatesFunc c \<and> hasAcc d' = hasAcc d \<and> accKey d' = accKey d \<and> account d' = account d"
proof -
  have "hasCert c" and b: "b = storedPem c"
    using assms(2) by (auto simp: ExportBundle_def split: if_splits)
  with cm_inv_run [OF assms(1)] obtain k cert where
      "pemToKey env (string_bytes (b_PrivateKey b)) = Ret (Inr k)" "storedCert c = Some cert"
      "X509KeyPair env (string_bytes (Join (b_Chain b) [CHR 0x0A])) (string_bytes (b_PrivateKey b)) = Inr cert"
    by (auto simp: cm_inv_def cert_inv_def)
  moreover have "pemToKey env' = pemToKey env" "X509KeyPair env' = X509KeyPair env"
    using assms(3) same_crypto_pemToKey [OF assms(3)] by (simp_all add: same_crypto_def)
  moreover define d' where
    "d' = d\<lparr>certPKey := Some k, storedCert := Some cert, storedPem := b, hasCert := True, hasCertPKey := True\<rparr>"
  ultimately have "ImportBundle env' b persist d = Ret (if persist then persisCerts env' b d' else (None, d'))"
      and "GetCertificatesFunc d' = GetCertificatesFunc c"
    using \<open>hasCert c\<close> by (simp_all add: ImportBundle_def Let_def GetCertificatesFunc_def)
  moreover obtain fs where "snd (persisCerts env' b d') = d'\<lparr>files := fs\<rparr>"
    unfolding persisCerts_def by (rule persist_json_files)
  ultimately show ?thesis
    by (cases persist; cases "persisCerts env' b d'") (simp_all add: ExportBundle_def GetCertificatesFunc_def d'_def)
qed

lemma ImportAccount_exported:
  assumes "ExportAccount env c = Ret (Inr af)" and "\<not> hasAcc d" and "accepts_account env env' persist c d"
  shows "\<exists>d'. ImportAccount env' af persist d = Ret (None, d') \<and> hasAcc d' \<and> accKey d' = accKey c"
proof -
  obtain k pem where k: "accKey c = Some k" "keyToPEM env k = Inr pem"
      "af = \<lparr>af_PrivateKey = bytes_string pem, af_URL = account_URL env (account c)\<rparr>"
    using assms(1) by (auto simp: ExportAccount_def split: if_splits option.splits sum.splits)
  then obtain acc where "pemToKey env' pem = Ret (Inr k)"
      "UpdateAccount env' k (af_URL af) (Contact (cm_config d)) = (acc, None)"
      "persist \<Longrightarrow> os_Create env' (path_Join (DataDir (cm_config d)) ''accounts.json'') = None \<and>
         os_Write env' (path_Join (DataDir (cm_config d)) ''accounts.json'') = None"
    using assms(3) by (auto simp: accepts_account_def prod_eq_iff Let_def)
  with assms(2) k show ?thesis
    by (auto simp: ImportAccount_def persistAccount_def persist_json_def Let_def)
qed

section \<open>Properties\<close>


lemma plain_manager_eq:
  "acme_New plain_env Map.empty plain_conf = Inr plain_manager"
  "plain_manager = \<lparr>cm_config = plain_conf, accKey = None, account = None, hasAcc = False, certPKey = None,
     hasCertPKey = False, hasCert = False, storedCert = None, storedPem = Bundle_zero, files = Map.empty\<rparr>"
  by (simp_all add: plain_manager_def acme_New_def plain_conf_def plain_env_def HasSuffix_def)

lemma plain_manager_run: "acme_run plain_env plain_manager"
  by (rule acme_start [OF _ plain_manager_eq(1)]) (simp add: same_crypto_def)


text \<open>C30: a certificate survives a restart. If importing a bundle with persistence succeeds, a
  manager created later over the same data directory loads that bundle from its file and
  exports it unchanged.\<close>

theorem acme_bundle_restart:
  assumes "ImportBundle env b True c = Ret (None, c')"
    and "same_crypto env env'"
    and "acme_New env' (files c') (cm_config c) = Inr d"
    and "os_Open env' (path_Join (DataDir (cm_config c)) ''bundle.json'') = None"
  shows "\<exists>d'. LoadBundleFromFile env' d = Ret (None, d') \<and> ExportBundle d' = Inr b"
proof -
  have d: "cm_config d = cm_config c" "files d = files c'"
    using assms(3) by (auto simp: acme_New_def split: if_splits option.splits)
  obtain k cert c1 where imp: "pemToKey env (string_bytes (b_PrivateKey b)) = Ret (Inr k)"
      "X509KeyPair env (string_bytes (Join (b_Chain b) [CHR 0x0A])) (string_bytes (b_PrivateKey b)) = Inr cert"
      "persisCerts env b c1 = (None, c')" "cm_config c1 = cm_config c"
    using assms(1) unfolding ImportBundle_def
    by (elim bind_go_RetE) (auto simp: Let_def split: sum.splits)
  have "load_json env' ErrNoCert ''bundle.json'' ''loading bundle.json: %w'' ''decoding bundle.json: %w''
      Bundle_of_json d = Inr b"
    using imp assms(4) d by (intro load_persist_json [OF imp(3) [unfolded persisCerts_def]]) simp_all
  moreover have "pemToKey env' = pemToKey env" "X509KeyPair env' = X509KeyPair env"
    using assms(2) same_crypto_pemToKey [OF assms(2)] by (simp_all add: same_crypto_def)
  ultimately show ?thesis
    using imp by (simp add: LoadBundleFromFile_def ImportBundle_def Let_def ExportBundle_def)
qed

lemma acme_bundle_restart_witness:
  "\<exists>c' d d'. ImportBundle plain_env \<lparr>b_PrivateKey = ''k'', b_Chain = [''A'']\<rparr> True plain_manager = Ret (None, c') \<and>
     acme_New plain_env (files c') (cm_config plain_manager) = Inr d \<and>
     LoadBundleFromFile plain_env d = Ret (None, d') \<and>
     ExportBundle d' = Inr \<lparr>b_PrivateKey = ''k'', b_Chain = [''A'']\<rparr>"
proof -
  let ?b = "\<lparr>b_PrivateKey = ''k'', b_Chain = [''A'']\<rparr>"
  obtain c' where c': "ImportBundle plain_env ?b True plain_manager = Ret (None, c')"
    by (simp add: ImportBundle_def pemToKey_def persisCerts_def persist_json_def Let_def plain_env_def string_bytes_def)
  obtain d where d: "acme_New plain_env (files c') (cm_config plain_manager) = Inr d"
    by (simp add: acme_New_def plain_manager_eq(2) plain_conf_def plain_env_def HasSuffix_def)
  have "\<exists>d'. LoadBundleFromFile plain_env d = Ret (None, d') \<and> ExportBundle d' = Inr ?b"
    using c' _ d by (rule acme_bundle_restart) (simp_all add: same_crypto_def plain_env_def)
  with c' d show ?thesis by blast
qed

text \<open>C31: an imported private key makes every certificate request fail. \<^verbatim>\<open>ImportPrivateKey\<close> stores the
  key without recording that there is one, so whatever the CA and the DNS provider answer,
  \<^verbatim>\<open>RequestCertificate\<close> returns an error and changes nothing.\<close>

theorem acme_imported_key_blocks:
  assumes "ImportPrivateKey env keyPem c = Ret (None, c')"
    and "RequestCertificate env' c' = Ret (err, d)"
  shows "err \<noteq> None \<and> d = c'"
proof -
  have c': "\<not> hasCertPKey c'" and "\<exists>k. certPKey c' = Some k"
    using assms(1) by (auto simp: ImportPrivateKey_def elim!: bind_go_RetE split: if_splits sum.splits)
  then obtain k where k: "certPKey c' = Some k" by blast
  have "order_certificate env' host names csr c' =
      Ret (Some (Wrapf ''encoding private key to pem: %w'' [] (Sentinel ErrNoPKey)), c')" for host names csr
    using c' by (simp add: order_certificate_def ExportPrivateKey_def)
  with assms(2) k show ?thesis
    by (auto simp: RequestCertificate_def elim!: bind_go_RetE split: if_splits sum.splits)
qed

lemma acme_imported_key_blocks_witness:
  "\<exists>c c' err d. hasAcc c \<and> ImportPrivateKey plain_env ''k'' c = Ret (None, c') \<and>
     RequestCertificate plain_env c' = Ret (err, d) \<and> err \<noteq> None \<and> d = c'"
proof -
  let ?c = "plain_manager\<lparr>hasAcc := True, accKey := Some [1]\<rparr>"
  obtain c' where c': "ImportPrivateKey plain_env ''k'' ?c = Ret (None, c')" "certPKey c' = Some (string_bytes ''k'')"
      "hasAcc c'" "cm_config c' = plain_conf" "\<not> hasCertPKey c'"
    by (simp add: ImportPrivateKey_def pemToKey_def plain_env_def plain_manager_eq(2) string_bytes_def)
  have "request_names plain_conf = Ret (''_acme-challenge.t'', ''t.x.y'', [''t.x.y'', ''*.t.x.y''])"
    using request_names_wildcard [of plain_conf "''t''"] by (simp add: plain_conf_def)
  with c' obtain err d where "RequestCertificate plain_env c' = Ret (err, d)"
    by (simp add: RequestCertificate_def plain_env_def order_certificate_def ExportPrivateKey_def)
  with acme_imported_key_blocks [OF c'(1) this] c'(1) show ?thesis
    by (intro exI [of _ ?c] exI [of _ c']) auto
qed

text \<open>The names of a wildcard request. For a wildcard below a subdomain of the zone the
  challenge goes to the subdomain and the certificate covers the subdomain and the wildcard; for
  the wildcard directly below the zone the computation panics.\<close>

theorem acme_wildcard_names:
  "request_names (conf\<lparr>acme_Domain := ''*.'' @ sub @ ''.'' @ RootZone conf\<rparr>) =
     Ret (''_acme-challenge.'' @ sub, sub @ ''.'' @ RootZone conf,
          [sub @ ''.'' @ RootZone conf, ''*.'' @ sub @ ''.'' @ RootZone conf]) \<and>
   request_names (conf\<lparr>acme_Domain := ''*.'' @ RootZone conf\<rparr>) = Panic SliceOutOfRange"
  using request_names_wildcard [of "conf\<lparr>acme_Domain := ''*.'' @ sub @ ''.'' @ RootZone conf\<rparr>" sub]
    request_names_root_wildcard [of "conf\<lparr>acme_Domain := ''*.'' @ RootZone conf\<rparr>"] by simp

end
