(* ===== verification/Server.thy ===== *)
theory Server
  imports Peer_Map Peer_Graph Meta Messages Acme
begin

text \<open>
  The server (\<^verbatim>\<open>server/server.go\<close>, \<^verbatim>\<open>config.go\<close>, \<^verbatim>\<open>peers.go\<close>, \<^verbatim>\<open>clients.go\<close>, \<^verbatim>\<open>backgroud.go\<close>,
  \<^verbatim>\<open>messaging.go\<close>): its construction, the routing of a link to a session, the two handshakes
  through which sessions are registered and the handlers of session events. A session is a
  value of type \<open>'p\<close>. The buffered channels between the goroutines of the server hold what was
  sent and not yet received, the values of blocked senders included.
\<close>

section \<open>Configuration\<close>

record MultiplexerConfig =
  mc_Peer :: nat
  mc_Protocol :: Protocol
  mc_RespondOnly :: bool

record GossipConfig =
  gc_Port :: nat
  gc_Keyring :: "string list"
  gc_Members :: "string list"

record Network =
  AdvertiseAddr :: string
  BindAddr :: string

text \<open>Listeners, the logger, the context and the TLS configuration matter only as being \<^verbatim>\<open>nil\<close> or not.\<close>

record 'v ServerConfig =
  sc_Context :: "unit option"
  sc_Logger :: "unit option"
  sc_Network :: Network
  sc_PeerTLSListener :: "unit option"
  sc_PeerQUICListener :: "unit option"
  sc_PeerTLSConfig :: "unit option"
  sc_ClientTLSListener :: "unit option"
  sc_ClientQUICListener :: "unit option"
  sc_Multiplexer :: MultiplexerConfig
  sc_Gossip :: GossipConfig
  sc_CertManager :: "'v CertManager option"
  sc_Debug :: bool
  sc_Domain :: string

definition ServerConfig_validate :: "'v ServerConfig \<Rightarrow> error option" where
  "ServerConfig_validate c =
     (if sc_Context c = None then Some (Errorf ''nil context is invalid'' [])
      else if sc_Logger c = None then Some (Errorf ''nil logger is invalid'' [])
      else if sc_PeerTLSListener c = None then Some (Errorf ''nil peer tls listener is invalid'' [])
      else if sc_PeerQUICListener c = None then Some (Errorf ''nil peer quic listener is invalid'' [])
      else if sc_PeerTLSConfig c = None then Some (Errorf ''nil peer tls config is invalid'' [])
      else if sc_ClientTLSListener c = None then Some (Errorf ''nil client tls listener is invalid'' [])
      else if sc_ClientQUICListener c = None then Some (Errorf ''nil client quic listener is invalid'' [])
      else if sc_CertManager c = None then Some (Errorf ''nil cert manager is invalid'' [])
      else if sc_Domain c = '''' then Some (Errorf ''empty domain is invalid'' [])
      else None)"

section \<open>State\<close>

text \<open>The part of \<^verbatim>\<open>memberlist.Config\<close> that \<^verbatim>\<open>New\<close> sets from its own configuration.\<close>

record GossipCfg =
  g_AdvertiseAddr :: string
  g_AdvertisePort :: nat
  g_BindAddr :: string
  g_BindPort :: nat
  g_Keys :: "bytes list"
  g_PrimaryKey :: bytes
  g_Name :: string

record ('p, 'v) Server =
  srv_id :: u64
  currentLeader :: u64
  srv_meta :: Meta
  metaBytes :: bytes
  srv_peers :: "'p PeerMap"
  srv_clients :: "'p PeerMap"
  srv_peerGraph :: PeerGraph
  gossipCfg :: GossipCfg
  updatesCh :: "ConnectedClients list"
  cached :: "bytes option"
  clientEvtCh :: nat
  membershipCh :: nat
  certManager :: "'v CertManager"
  srv_Domain :: string
  srv_Debug :: bool
  srv_Members :: "string list"

section \<open>Construction\<close>

text \<open>
  \<^verbatim>\<open>base64.StdEncoding.DecodeString\<close>: line breaks are skipped, every quantum has four
  characters, padding ends the text. The error's offset is left out.
\<close>

definition b64_val :: "char \<Rightarrow> nat option" where
  "b64_val c =
     (let n = of_char c in
      if 65 \<le> n \<and> n \<le> 90 then Some (n - 65)
      else if 97 \<le> n \<and> n \<le> 122 then Some (n - 71)
      else if 48 \<le> n \<and> n \<le> 57 then Some (n + 4)
      else if c = CHR ''+'' then Some 62
      else if c = CHR ''/'' then Some 63
      else None)"

definition b64_bytes :: "nat \<Rightarrow> nat \<Rightarrow> nat \<Rightarrow> nat \<Rightarrow> bytes" where
  "b64_bytes a b c d = [of_nat (a * 4 + b div 16), of_nat (b mod 16 * 16 + c div 4), of_nat (c mod 4 * 64 + d)]"

fun b64_quanta :: "string \<Rightarrow> bytes option" where
  "b64_quanta [] = Some []"
| "b64_quanta (a # b # c # d # s) =
     (if d = CHR ''='' then
        (if s \<noteq> [] then None
         else if c = CHR ''='' then
           do { x \<leftarrow> b64_val a; y \<leftarrow> b64_val b; Some (take 1 (b64_bytes x y 0 0)) }
         else do { x \<leftarrow> b64_val a; y \<leftarrow> b64_val b; z \<leftarrow> b64_val c; Some (take 2 (b64_bytes x y z 0)) })
      else do { x \<leftarrow> b64_val a; y \<leftarrow> b64_val b; z \<leftarrow> b64_val c; w \<leftarrow> b64_val d;
                r \<leftarrow> b64_quanta s; Some (b64_bytes x y z w @ r) })"
| "b64_quanta s = None"

definition base64_DecodeString :: "string \<Rightarrow> error + bytes" where
  "base64_DecodeString s =
     (case b64_quanta (filter (\<lambda>c. c \<noteq> CHR 0x0A \<and> c \<noteq> CHR 0x0D) s) of
        None \<Rightarrow> Inl (Errorf ''illegal base64 data'' [])
      | Some b \<Rightarrow> Inr b)"

fun decode_keyring :: "string list \<Rightarrow> bytes list \<Rightarrow> error + bytes list" where
  "decode_keyring [] keys = Inr keys"
| "decode_keyring (d # ds) keys =
     (case base64_DecodeString d of
        Inl err \<Rightarrow> Inl (Wrapf ''decoding base64 keyring: %w'' [] err)
      | Inr b \<Rightarrow> decode_keyring ds (keys @ [b]))"

text \<open>
  \<^verbatim>\<open>New\<close>: \<open>self\<close> is the result of \<^verbatim>\<open>rand.Uint64()\<close>, \<open>pick\<close> that of \<^verbatim>\<open>rand.Intn(len(keys))\<close>;
  \<open>NewKeyring\<close> is \<^verbatim>\<open>memberlist.NewKeyring\<close>.
\<close>

definition Server_New ::
  "(string \<Rightarrow> bytes option) \<Rightarrow> (bytes list \<Rightarrow> bytes \<Rightarrow> error option) \<Rightarrow> u64 \<Rightarrow> nat \<Rightarrow> 'v ServerConfig \<Rightarrow>
   (error + ('p, 'v) Server) go" where
  "Server_New v6 NewKeyring self pick conf =
     (case ServerConfig_validate conf of
        Some err \<Rightarrow> Ret (Inl err)
      | None \<Rightarrow>
        (let peerPort = mc_Peer (sc_Multiplexer conf);
             meta = \<lparr>ConnectIP = AdvertiseAddr (sc_Network conf), ConnectPort = of_nat peerPort, PeerID = self,
                     meta_Protocol = mc_Protocol (sc_Multiplexer conf),
                     RespondOnly = mc_RespondOnly (sc_Multiplexer conf)\<rparr>
         in case decode_keyring (gc_Keyring (sc_Gossip conf)) [] of
              Inl err \<Rightarrow> Ret (Inl err)
            | Inr keys \<Rightarrow>
              if keys = [] then Ret (Inl (Errorf ''no gossip keyring was found'' []))
              else case NewKeyring keys (keys ! pick) of
                Some err \<Rightarrow> Ret (Inl (Wrapf ''creating gossip keyring: %w'' [] err))
              | None \<Rightarrow>
                bind_go (Meta_MarshalBinary v6 meta) (\<lambda>b.
                  Ret (Inr \<lparr>srv_id = self, currentLeader = 0, srv_meta = meta, metaBytes = b,
                            srv_peers = NewPeerMap self, srv_clients = NewPeerMap self,
                            srv_peerGraph = NewPeerGraph self,
                            gossipCfg = \<lparr>g_AdvertiseAddr = AdvertiseAddr (sc_Network conf),
                                         g_AdvertisePort = gc_Port (sc_Gossip conf),
                                         g_BindAddr = BindAddr (sc_Network conf),
                                         g_BindPort = gc_Port (sc_Gossip conf),
                                         g_Keys = keys, g_PrimaryKey = keys ! pick,
                                         g_Name = AdvertiseAddr (sc_Network conf) @ '':'' @ itoa peerPort @ ''/'' @ itoa (unat self)\<rparr>,
                            updatesCh = [], cached = None, clientEvtCh = 0, membershipCh = 0,
                            certManager = the (sc_CertManager conf), srv_Domain = sc_Domain conf,
                            srv_Debug = sc_Debug conf, srv_Members = gc_Members (sc_Gossip conf)\<rparr>))))"

section \<open>Routing\<close>

definition findPath ::
  "(BinaryFuse8 \<Rightarrow> u64 \<Rightarrow> bool) \<Rightarrow> u64 list \<Rightarrow> ('p, 'v) Server \<Rightarrow> Link \<Rightarrow> 'p option" where
  "findPath Contains order s link =
     (case PM_Get (srv_clients s) (Destination link) of
        Some p \<Rightarrow> Some p
      | None \<Rightarrow> PM_Get (srv_peers s) (Who Contains order (srv_peerGraph s) (Destination link)))"

definition not_found :: "Link \<Rightarrow> error" where
  "not_found link =
     Wrapf ''peer %d not found in peer graph: %w'' [unat (Destination link)] (Sentinel ErrDestinationNotFound)"

text \<open>The calls of the session's \<^verbatim>\<open>Bidirectional\<close> and \<^verbatim>\<open>Direct\<close> are arguments: they belong to package \<^verbatim>\<open>mux\<close>.\<close>

definition Forward ::
  "(BinaryFuse8 \<Rightarrow> u64 \<Rightarrow> bool) \<Rightarrow> u64 list \<Rightarrow> ('p \<Rightarrow> 'c \<Rightarrow> Link \<Rightarrow> error + 'r) \<Rightarrow>
   ('p, 'v) Server \<Rightarrow> 'c \<Rightarrow> Link \<Rightarrow> error + 'r" where
  "Forward Contains order Bidirectional s conn link =
     (case findPath Contains order s link of
        None \<Rightarrow> Inl (not_found link)
      | Some p \<Rightarrow> Bidirectional p conn link)"

definition Direct ::
  "(BinaryFuse8 \<Rightarrow> u64 \<Rightarrow> bool) \<Rightarrow> u64 list \<Rightarrow> ('p \<Rightarrow> Link \<Rightarrow> error + 'r) \<Rightarrow>
   ('p, 'v) Server \<Rightarrow> Link \<Rightarrow> error + 'r" where
  "Direct Contains order DirectCall s link =
     (case findPath Contains order s link of
        None \<Rightarrow> Inl (not_found link)
      | Some p \<Rightarrow> DirectCall p link)"

end
