(* ===== verification/Handshake.thy ===== *)
theory Handshake
  imports Server
begin

text \<open>
  How sessions are registered: the negotiations with peers and with clients
  (\<^verbatim>\<open>server/peers.go\<close>, \<^verbatim>\<open>server/clients.go\<close>) over a connection whose reads and writes are
  arguments, the entry points for TLS and QUIC that close the connection on an error, and the
  handlers that run when a session was registered or has gone.
\<close>

section \<open>The part both negotiations share\<close>


text \<open>
  The call of \<^verbatim>\<open>NewPeer\<close>: \<open>reg\<close> is the registry of constructors, \<open>construct\<close> the call of
  one, \<open>closes\<close> whether the session closes during the wait.
\<close>

record ('k, 'p) session_env =
  reg :: "'k registry"
  construct :: "'k \<Rightarrow> Config \<Rightarrow> error + 'p"
  closes :: "'p \<Rightarrow> bool"

definition env_NewPeer :: "('k, 'p) session_env \<Rightarrow> 'p PeerMap \<Rightarrow> Protocol \<Rightarrow> Config \<Rightarrow> error option \<times> 'p PeerMap" where
  "env_NewPeer e = PM_NewPeer (reg e) (construct e) (closes e)"

text \<open>
  From the deadlines to the check of the protocol. The two texts are the error messages in
  which the copies for peers and clients differ.
\<close>

definition read_handshake ::
  "string \<Rightarrow> string \<Rightarrow> ('k, 'p) session_env \<Rightarrow> 'c reader \<Rightarrow> nat \<Rightarrow> Protocol list \<Rightarrow> 'c net_conn \<Rightarrow>
   (error + Link) \<times> 'c net_conn" where
  "read_handshake alpnErr protoErr e Read deadline acceptableProtocols conn =
     (let conn = SetReadDeadline (Some deadline) conn;
          conn = SetWriteDeadline (Some deadline) conn in
      case read_into (conn_Read Read) LinkSize conn of (r, err, conn) \<Rightarrow>
        (case err of
           Some x \<Rightarrow> (Inl (Wrapf ''reading handshake: %w'' [] x), conn)
         | None \<Rightarrow>
           (case Link_UnmarshalBinary MessagingLink r of
              Inl x \<Rightarrow> (Inl (Wrapf ''unmarshal link: %w'' [] x), conn)
            | Inr link \<Rightarrow>
              if ALPN link \<noteq> ALPN_Multiplexer then (Inl (Errorf alpnErr []), conn)
              else if Protocol link \<notin> set acceptableProtocols
              then (Inl (Errorf ''unacceptable protocol: %d'' [unat (Protocol link)]), conn)
              else case New (reg e) (Protocol link) of
                Inl x \<Rightarrow> (Inl (Wrapf protoErr [] x), conn)
              | Inr c \<Rightarrow> (Inr link, conn))))"

definition clear_deadlines :: "'c net_conn \<Rightarrow> 'c net_conn" where
  "clear_deadlines conn = SetWriteDeadline None (SetReadDeadline None conn)"

definition responder_config :: "nat \<Rightarrow> u64 \<Rightarrow> Config" where
  "responder_config connector peer =
     \<lparr>cfg_Logger = Some (), cfg_Conn = Some connector, cfg_Peer = peer, cfg_Initiator = False, cfg_Wait = second\<rparr>"

section \<open>Peers\<close>

definition peerNegotiation ::
  "('k, 'p) session_env \<Rightarrow> 'c reader \<Rightarrow> nat \<Rightarrow> nat \<Rightarrow> Protocol list \<Rightarrow> ('p, 'v) Server \<Rightarrow> 'c net_conn \<Rightarrow>
   error option \<times> ('p, 'v) Server \<times> 'c net_conn" where
  "peerNegotiation e Read now connector acceptableProtocols s conn =
     (case read_handshake ''invalid ALPN received from peer'' ''negotiating protocol with peer: %w''
             e Read (now + 10 * second) acceptableProtocols conn of
        (Inl err, conn) \<Rightarrow> (Some err, s, conn)
      | (Inr link, conn) \<Rightarrow>
        if (Source link = 0 \<or> Destination link = 0) \<or> Source link = Destination link \<or>
           Destination link \<noteq> srv_id s \<or> Source link = srv_id s
        then (Some (Errorf ''invalid peer handshake'' [unat (Source link), unat (Destination link)]), s, conn)
        else
          (let conn = clear_deadlines conn in
           case env_NewPeer e (srv_peers s) (Protocol link) (responder_config connector (Source link)) of
             (err, m) \<Rightarrow> (map_option (Wrapf ''setting up peer: %w'' []) err, s\<lparr>srv_peers := m\<rparr>, conn)))"

text \<open>
  The entry points. For QUIC the handshake stream is closed in every case and the session on
  an error; \<open>AcceptStream\<close> is the outcome of accepting the stream. The last component is the
  error the session was closed with.
\<close>

definition peerTLSHandshake ::
  "('k, 'p) session_env \<Rightarrow> 'c reader \<Rightarrow> nat \<Rightarrow> nat \<Rightarrow> ('p, 'v) Server \<Rightarrow> 'c net_conn \<Rightarrow> ('p, 'v) Server \<times> 'c net_conn" where
  "peerTLSHandshake e Read now connector s conn =
     (case peerNegotiation e Read now connector TLSProtos s conn of
        (None, s, conn) \<Rightarrow> (s, conn)
      | (Some err, s, conn) \<Rightarrow> (s, conn_Close conn))"

definition peerQUICHandshake ::
  "('k, 'p) session_env \<Rightarrow> 'c reader \<Rightarrow> nat \<Rightarrow> nat \<Rightarrow> error + 'c net_conn \<Rightarrow> ('p, 'v) Server \<Rightarrow>
   ('p, 'v) Server \<times> 'c net_conn option \<times> error option" where
  "peerQUICHandshake e Read now connector AcceptStream s =
     (case AcceptStream of
        Inl err \<Rightarrow> (s, None, Some err)
      | Inr conn \<Rightarrow>
        (case peerNegotiation e Read now connector QUICProtos s conn of
           (err, s, conn) \<Rightarrow> (s, Some (conn_Close conn), err)))"

section \<open>Clients\<close>

definition GeneratedName_json :: "string \<Rightarrow> json" where
  "GeneratedName_json hostname = JObj [(''Hostname'', JStr hostname)]"

definition clientNegotiation ::
  "('k, 'p) session_env \<Rightarrow> 'c reader \<Rightarrow> 'c writer \<Rightarrow> (nat \<Rightarrow> error + string list) \<Rightarrow> nat \<Rightarrow> nat \<Rightarrow>
   Protocol list \<Rightarrow> ('p, 'v) Server \<Rightarrow> 'c net_conn \<Rightarrow> error option \<times> ('p, 'v) Server \<times> 'c net_conn" where
  "clientNegotiation e Read Write Generate now connector acceptableProtocols s conn =
     (case read_handshake ''invalid ALPN received from client'' ''negotiating protocol with client: %w''
             e Read (now + 3 * second) acceptableProtocols conn of
        (Inl err, conn) \<Rightarrow> (Some err, s, conn)
      | (Inr link, conn) \<Rightarrow>
        if Source link \<noteq> 0 \<or> Destination link \<noteq> 0
        then (Some (Errorf ''invalid client handshake'' [unat (Source link), unat (Destination link)]), s, conn)
        else
          (let name = RandomHostname Generate;
               link = link\<lparr>Source := PeerHash name, Destination := srv_id s\<rparr>;
               w = Link_MarshalBinary link in
           case conn_Write Write w conn of
             (n, Some x, conn) \<Rightarrow> (Some (Wrapf ''replying handshake: %w'' [] x), s, conn)
           | (n, None, conn) \<Rightarrow>
             if n \<noteq> LinkSize
             then (Some (Errorf ''invalid handshake length sent to client: %d'' [n]), s, conn)
             else
               (case Encoder_Encode (conn_Write Write)
                       (GeneratedName_json (''https://'' @ name @ ''.'' @ srv_Domain s)) conn of
                  (Some x, conn) \<Rightarrow> (Some (Wrapf ''writing generated hostname to client: %w'' [] x), s, conn)
                | (None, conn) \<Rightarrow>
                  (let conn = clear_deadlines conn in
                   case env_NewPeer e (srv_clients s) (Protocol link) (responder_config connector (Source link)) of
                     (err, m) \<Rightarrow> (map_option (Wrapf ''setting up client: %w'' []) err, s\<lparr>srv_clients := m\<rparr>, conn)))))"

definition clientTLSHandshake ::
  "('k, 'p) session_env \<Rightarrow> 'c reader \<Rightarrow> 'c writer \<Rightarrow> (nat \<Rightarrow> error + string list) \<Rightarrow> nat \<Rightarrow> nat \<Rightarrow>
   ('p, 'v) Server \<Rightarrow> 'c net_conn \<Rightarrow> ('p, 'v) Server \<times> 'c net_conn" where
  "clientTLSHandshake e Read Write Generate now connector s conn =
     (case clientNegotiation e Read Write Generate now connector TLSProtos s conn of
        (None, s, conn) \<Rightarrow> (s, conn)
      | (Some err, s, conn) \<Rightarrow> (s, conn_Close conn))"

definition clientQUICHandshake ::
  "('k, 'p) session_env \<Rightarrow> 'c reader \<Rightarrow> 'c writer \<Rightarrow> (nat \<Rightarrow> error + string list) \<Rightarrow> nat \<Rightarrow> nat \<Rightarrow>
   error + 'c net_conn \<Rightarrow> ('p, 'v) Server \<Rightarrow> ('p, 'v) Server \<times> 'c net_conn option \<times> error option" where
  "clientQUICHandshake e Read Write Generate now connector AcceptStream s =
     (case AcceptStream of
        Inl err \<Rightarrow> (s, None, Some err)
      | Inr conn \<Rightarrow>
        (case clientNegotiation e Read Write Generate now connector QUICProtos s conn of
           (err, s, conn) \<Rightarrow> (s, Some (conn_Close conn), err)))"

section \<open>Session events\<close>

text \<open>The goroutines that the event handlers start.\<close>

datatype 'p task =
    HandleStreams 'p
  | StartPeer 'p
  | OpenMessagingStream 'p
  | WatchPeer 'p
  | WatchClient 'p
  | NullPeer 'p

text \<open>
  One turn of \<^verbatim>\<open>for peer := range s.peers.Notify()\<close>: the goroutines, in order; the one that
  opens the messaging stream returns at once on the initiator's side. Then the signal.
\<close>

definition handlePeerEvent :: "('p \<Rightarrow> bool) \<Rightarrow> 'p \<Rightarrow> ('p, 'v) Server \<Rightarrow> 'p task list \<times> ('p, 'v) Server" where
  "handlePeerEvent Initiator peer s =
     ([HandleStreams peer, StartPeer peer] @ (if Initiator peer then [] else [OpenMessagingStream peer]) @ [WatchPeer peer],
      s\<lparr>membershipCh := membershipCh s + 1\<rparr>)"

text \<open>A stream from a peer: messaging, or forwarded; a stream that cannot be forwarded is closed.\<close>

datatype ('c, 'r) stream_outcome = OpenMessaging 'c u64 | Forwarded 'r | StreamClosed 'c error

definition handlePeerStream ::
  "(BinaryFuse8 \<Rightarrow> u64 \<Rightarrow> bool) \<Rightarrow> u64 list \<Rightarrow> ('p \<Rightarrow> 'c \<Rightarrow> Link \<Rightarrow> error + 'r) \<Rightarrow> ('p \<Rightarrow> u64) \<Rightarrow>
   ('p, 'v) Server \<Rightarrow> 'p \<Rightarrow> 'c \<times> Link \<Rightarrow> ('c, 'r) stream_outcome" where
  "handlePeerStream Contains order Bidirectional Peer s p c =
     (if snd c = MessagingLink then OpenMessaging (fst c) (Peer p)
      else case Forward Contains order Bidirectional s (fst c) (snd c) of
             Inl err \<Rightarrow> StreamClosed (fst c) err
           | Inr r \<Rightarrow> Forwarded r)"

definition removePeer :: "u64 \<Rightarrow> ('p, 'v) Server \<Rightarrow> 'p option \<times> ('p, 'v) Server" where
  "removePeer peer s =
     (let s = s\<lparr>srv_peerGraph := PeerGraph_Remove (srv_peerGraph s) peer\<rparr> in
      case PM_Remove (srv_peers s) peer of
        (gone, m) \<Rightarrow> (gone, s\<lparr>srv_peers := m, membershipCh := membershipCh s + 1\<rparr>))"

text \<open>
  One turn of \<^verbatim>\<open>for peer := range s.clients.Notify()\<close>. The watcher's first step is the signal, so
  it is part of the turn; when the client has gone it runs \<^verbatim>\<open>clientGone\<close>.
\<close>

definition handleClientEvent :: "'p \<Rightarrow> ('p, 'v) Server \<Rightarrow> 'p task list \<times> ('p, 'v) Server" where
  "handleClientEvent peer s = ([WatchClient peer, NullPeer peer], s\<lparr>clientEvtCh := clientEvtCh s + 1\<rparr>)"

definition clientGone :: "('p \<Rightarrow> u64) \<Rightarrow> 'p \<Rightarrow> ('p, 'v) Server \<Rightarrow> 'p option \<times> ('p, 'v) Server" where
  "clientGone Peer p s =
     (case PM_Remove (srv_clients s) (Peer p) of
        (gone, m) \<Rightarrow> (gone, s\<lparr>srv_clients := m, clientEvtCh := clientEvtCh s + 1\<rparr>))"

text \<open>
  \<^verbatim>\<open>backgroundDispatcher\<close> on a signal: the summary of the clients is rebuilt and cached; the
  old one stays when the filter cannot be built.
\<close>

definition generateConnectedClients ::
  "(u64 list \<Rightarrow> error + BinaryFuse8) \<Rightarrow> u64 list \<Rightarrow> ('p, 'v) Server \<Rightarrow> ('p, 'v) Server" where
  "generateConnectedClients Populate order s =
     (case NewConnectedClients Populate (srv_id s) (PM_Snapshot order (srv_clients s)) of
        Inl err \<Rightarrow> s
      | Inr c \<Rightarrow> s\<lparr>cached := Some (CC_MarshalBinary c)\<rparr>)"

definition backgroundDispatch ::
  "(u64 list \<Rightarrow> error + BinaryFuse8) \<Rightarrow> u64 list \<Rightarrow> ('p, 'v) Server \<Rightarrow> ('p, 'v) Server" where
  "backgroundDispatch Populate order s =
     (if clientEvtCh s = 0 then s
      else generateConnectedClients Populate order (s\<lparr>clientEvtCh := clientEvtCh s - 1\<rparr>))"

section \<open>Examples\<close>

text \<open>
  Sessions are numbers, taken from the connection; Yamux and QUIC are registered; no session
  closes during the wait. A server with identifier 7 and empty tables.
\<close>

definition plain_sessions :: "(unit, nat) session_env" where
  "plain_sessions = \<lparr>reg = [Yamux \<mapsto> (), QUIC \<mapsto> ()], construct = (\<lambda>c conf. Inr (the (cfg_Conn conf))), closes = (\<lambda>p. False)\<rparr>"

definition plain_server :: "(nat, bytes) Server" where
  "plain_server =
     \<lparr>srv_id = 7, currentLeader = 0, srv_meta = Meta_zero, metaBytes = [], srv_peers = NewPeerMap 7,
      srv_clients = NewPeerMap 7, srv_peerGraph = NewPeerGraph 7,
      gossipCfg = \<lparr>g_AdvertiseAddr = '''', g_AdvertisePort = 0, g_BindAddr = '''', g_BindPort = 0, g_Keys = [],
                   g_PrimaryKey = [], g_Name = ''n7''\<rparr>,
      updatesCh = [], cached = None, clientEvtCh = 0, membershipCh = 0, certManager = plain_manager,
      srv_Domain = ''x.y'', srv_Debug = False, srv_Members = []\<rparr>"

section \<open>Lemmas\<close>

text \<open>
  The count of the handshake's read is ignored, but the last byte of a link is its ALPN: a
  read that stored less leaves a zero there.
\<close>

lemma short_read_last_zero:
  assumes "length b \<le> LinkSize" and "copy_at 0 b (make_bytes LinkSize) ! 17 \<noteq> 0"
  shows "copy_at 0 b (make_bytes LinkSize) = b \<and> length b = LinkSize"
proof (cases "length b = LinkSize")
  case True
  then show ?thesis by (simp add: copy_at_all)
next
  case False
  with assms(1) have "length b < 18" by (simp add: LinkSize_def)
  then have "copy_at 0 b (make_bytes LinkSize) ! 17 = 0"
    by (simp add: copy_at_def make_bytes_def LinkSize_def nth_append)
  with assms(2) show ?thesis by simp
qed

lemma read_handshake_Inr:
  assumes contract: "reader_contract Read"
    and run: "read_handshake ae pe e Read deadline protos conn = (Inr link, conn')"
  obtains d c where "Read LinkSize (dev conn) = (Link_MarshalBinary link, None, d)"
    and "ALPN link = ALPN_Multiplexer" and "Protocol link \<in> set protos" and "New (reg e) (Protocol link) = Inr c"
    and "conn' = conn\<lparr>dev := d, read_deadline := Some deadline, write_deadline := Some deadline\<rparr>"
proof -
  obtain b err d where rd: "Read LinkSize (dev conn) = (b, err, d)"
    by (metis prod_cases3)
  let ?r = "copy_at 0 b (make_bytes LinkSize)"
  have le: "length b \<le> LinkSize"
    using contract rd unfolding reader_contract_def by (metis fst_conv)
  from run rd have err: "err = None" and l: "Link_UnmarshalBinary MessagingLink ?r = Inr link"
    and al: "ALPN link = ALPN_Multiplexer" and pr: "Protocol link \<in> set protos"
    and nw: "\<exists>c. New (reg e) (Protocol link) = Inr c"
    and conn: "conn' = conn\<lparr>dev := d, read_deadline := Some deadline, write_deadline := Some deadline\<rparr>"
    by (auto simp: read_handshake_def Let_def SetReadDeadline_def SetWriteDeadline_def read_into_def conn_Read_def
        split: option.splits sum.splits if_splits)
  have "?r ! 17 = ALPN link"
    using l by (auto simp: Link_UnmarshalBinary_def split: if_splits)
  then have "?r ! 17 \<noteq> 0"
    using al by (simp add: ALPN_Multiplexer_def)
  then have "Link_MarshalBinary link = b"
    using short_read_last_zero [OF le] Link_Marshal_Unmarshal [OF l] by simp
  with rd err al pr nw conn that show ?thesis by auto
qed

lemma read_handshake_ok:
  assumes "Read LinkSize (dev conn) = (Link_MarshalBinary link, None, d)"
    and "ALPN link = ALPN_Multiplexer" and "Protocol link \<in> set protos" and "New (reg e) (Protocol link) = Inr c"
  shows "read_handshake ae pe e Read deadline protos conn =
    (Inr link, conn\<lparr>dev := d, read_deadline := Some deadline, write_deadline := Some deadline\<rparr>)"
  using assms
  by (simp add: read_handshake_def Let_def SetReadDeadline_def SetWriteDeadline_def read_into_def conn_Read_def copy_at_all)

text \<open>A handshake that fails never touches the connection's life cycle.\<close>

lemma read_handshake_st: "conn_st (snd (read_handshake ae pe e Read deadline protos conn)) = conn_st conn"
  by (simp add: read_handshake_def Let_def SetReadDeadline_def SetWriteDeadline_def read_into_def conn_Read_def
      split: prod.split option.split sum.split)

lemma env_NewPeer_None_iff:
  "env_NewPeer e m proto conf = (None, m') \<longleftrightarrow>
     (\<exists>c p. pm_peers m (cfg_Peer conf) = None \<and> New (reg e) proto = Inr c \<and> construct e c conf = Inr p \<and>
            \<not> closes e p \<and> m' = PM_register m (cfg_Peer conf) p)"
  by (auto simp: env_NewPeer_def PM_NewPeer_def split: option.splits sum.splits)

lemma env_NewPeer_Some: "env_NewPeer e m proto conf = (Some err, m') \<Longrightarrow> m' = m"
  by (auto simp: env_NewPeer_def PM_NewPeer_def split: option.splits sum.splits if_splits)

lemma SetDeadlines_simps [simp]:
  "clear_deadlines conn = conn\<lparr>read_deadline := None, write_deadline := None\<rparr>"
  by (simp add: clear_deadlines_def SetReadDeadline_def SetWriteDeadline_def)

lemma cfg_Peer_responder [simp]: "cfg_Peer (responder_config connector peer) = peer"
  by (simp add: responder_config_def)

subsection \<open>Failure leaves the tables alone\<close>

lemma peerNegotiation_fail:
  "peerNegotiation e Read now connector protos s conn = (Some err, s', conn') \<Longrightarrow> s' = s"
  by (auto simp: peerNegotiation_def Let_def dest: env_NewPeer_Some split: prod.splits sum.splits if_splits)

lemma peerNegotiation_st:
  "peerNegotiation e Read now connector protos s conn = (err, s', conn') \<Longrightarrow> conn_st conn' = conn_st conn"
  using read_handshake_st [of "''invalid ALPN received from peer''" "''negotiating protocol with peer: %w''"
      e Read "now + 10 * second" protos conn]
  by (auto simp: peerNegotiation_def Let_def split: prod.splits sum.splits if_splits)

lemma clientNegotiation_fail:
  "clientNegotiation e Read Write Generate now connector protos s conn = (Some err, s', conn') \<Longrightarrow> s' = s"
  by (auto simp: clientNegotiation_def Let_def dest: env_NewPeer_Some split: prod.splits sum.splits if_splits option.splits)

subsection \<open>Success\<close>

lemma peerNegotiation_ok:
  assumes "Read LinkSize (dev conn) = (Link_MarshalBinary link, None, d)"
    and "ALPN link = ALPN_Multiplexer" and "Protocol link \<in> set protos" and "New (reg e) (Protocol link) = Inr c"
    and "Destination link = srv_id s" and "Source link \<notin> {0, srv_id s}" and "srv_id s \<noteq> 0"
    and "pm_peers (srv_peers s) (Source link) = None"
    and "construct e c (responder_config connector (Source link)) = Inr p" and "\<not> closes e p"
  shows "peerNegotiation e Read now connector protos s conn =
    (None, s\<lparr>srv_peers := PM_register (srv_peers s) (Source link) p\<rparr>,
     conn\<lparr>dev := d, read_deadline := None, write_deadline := None\<rparr>)"
proof -
  have "env_NewPeer e (srv_peers s) (Protocol link) (responder_config connector (Source link)) =
      (None, PM_register (srv_peers s) (Source link) p)"
    using assms by (auto simp: env_NewPeer_None_iff)
  with assms show ?thesis
    by (simp add: peerNegotiation_def read_handshake_ok [of Read conn link d protos e c, OF assms(1-4)] Let_def)
qed

lemma peerNegotiation_sound:
  assumes contract: "reader_contract Read"
    and run: "peerNegotiation e Read now connector protos s conn = (None, s', conn')"
  obtains link d c p where "Read LinkSize (dev conn) = (Link_MarshalBinary link, None, d)"
    and "ALPN link = ALPN_Multiplexer" and "Protocol link \<in> set protos" and "New (reg e) (Protocol link) = Inr c"
    and "Destination link = srv_id s" and "Source link \<notin> {0, srv_id s}" and "srv_id s \<noteq> 0"
    and "pm_peers (srv_peers s) (Source link) = None"
    and "construct e c (responder_config connector (Source link)) = Inr p" and "\<not> closes e p"
proof -
  obtain r conn1 where hs: "read_handshake ''invalid ALPN received from peer'' ''negotiating protocol with peer: %w''
      e Read (now + 10 * second) protos conn = (r, conn1)"
    by (meson surj_pair)
  with run obtain link where r: "r = Inr link"
    and ids: "Destination link = srv_id s" "Source link \<notin> {0, srv_id s}" "srv_id s \<noteq> 0"
    and np: "\<exists>m. env_NewPeer e (srv_peers s) (Protocol link) (responder_config connector (Source link)) = (None, m)"
    by (auto simp: peerNegotiation_def Let_def split: sum.splits if_splits prod.splits)
  from hs r contract obtain d c where rd: "Read LinkSize (dev conn) = (Link_MarshalBinary link, None, d)"
      "ALPN link = ALPN_Multiplexer" "Protocol link \<in> set protos" "New (reg e) (Protocol link) = Inr c"
    by (metis read_handshake_Inr)
  from np rd(4) obtain p where "pm_peers (srv_peers s) (Source link) = None"
      "construct e c (responder_config connector (Source link)) = Inr p" "\<not> closes e p"
    by (auto simp: env_NewPeer_None_iff)
  with rd ids that show ?thesis by blast
qed

lemma clientNegotiation_ok:
  assumes "Read LinkSize (dev conn) = (Link_MarshalBinary link, None, d)"
    and "ALPN link = ALPN_Multiplexer" and "Protocol link \<in> set protos" and "New (reg e) (Protocol link) = Inr c"
    and "Source link = 0" and "Destination link = 0"
    and name: "name = RandomHostname Generate"
    and "Write (Link_MarshalBinary (link\<lparr>Source := PeerHash name, Destination := srv_id s\<rparr>)) d = (LinkSize, None, d2)"
    and "Write (string_bytes (json_Encode (GeneratedName_json (''https://'' @ name @ ''.'' @ srv_Domain s)))) d2 = (n, None, d3)"
    and "pm_peers (srv_clients s) (PeerHash name) = None"
    and "construct e c (responder_config connector (PeerHash name)) = Inr p" and "\<not> closes e p"
  shows "clientNegotiation e Read Write Generate now connector protos s conn =
    (None, s\<lparr>srv_clients := PM_register (srv_clients s) (PeerHash name) p\<rparr>,
     conn\<lparr>dev := d3, read_deadline := None, write_deadline := None\<rparr>)"
proof -
  have "env_NewPeer e (srv_clients s) (Protocol link) (responder_config connector (PeerHash name)) =
      (None, PM_register (srv_clients s) (PeerHash name) p)"
    using assms by (auto simp: env_NewPeer_None_iff)
  with assms show ?thesis
    by (simp add: clientNegotiation_def read_handshake_ok [of Read conn link d protos e c, OF assms(1-4)]
        Let_def conn_Write_def Encoder_Encode_def)
qed

lemma clientNegotiation_sound:
  assumes contract: "reader_contract Read"
    and run: "clientNegotiation e Read Write Generate now connector protos s conn = (None, s', conn')"
    and name: "name = RandomHostname Generate"
  obtains link d c d2 n d3 p where "Read LinkSize (dev conn) = (Link_MarshalBinary link, None, d)"
    and "ALPN link = ALPN_Multiplexer" and "Protocol link \<in> set protos" and "New (reg e) (Protocol link) = Inr c"
    and "Source link = 0" and "Destination link = 0"
    and "Write (Link_MarshalBinary (link\<lparr>Source := PeerHash name, Destination := srv_id s\<rparr>)) d = (LinkSize, None, d2)"
    and "Write (string_bytes (json_Encode (GeneratedName_json (''https://'' @ name @ ''.'' @ srv_Domain s)))) d2 = (n, None, d3)"
    and "pm_peers (srv_clients s) (PeerHash name) = None"
    and "construct e c (responder_config connector (PeerHash name)) = Inr p" and "\<not> closes e p"
proof -
  obtain r conn1 where hs: "read_handshake ''invalid ALPN received from client'' ''negotiating protocol with client: %w''
      e Read (now + 3 * second) protos conn = (r, conn1)"
    by (meson surj_pair)
  with run obtain link where r: "r = Inr link" and ids: "Source link = 0" "Destination link = 0"
    by (auto simp: clientNegotiation_def Let_def split: sum.splits if_splits prod.splits)
  from hs r contract obtain d c where rd: "Read LinkSize (dev conn) = (Link_MarshalBinary link, None, d)"
      "ALPN link = ALPN_Multiplexer" "Protocol link \<in> set protos" "New (reg e) (Protocol link) = Inr c"
      and c1: "dev conn1 = d"
    by (elim read_handshake_Inr) auto
  let ?w = "Link_MarshalBinary (link\<lparr>Source := PeerHash name, Destination := srv_id s\<rparr>)"
  let ?j = "string_bytes (json_Encode (GeneratedName_json (''https://'' @ name @ ''.'' @ srv_Domain s)))"
  obtain k1 e1 d2 where w1: "Write ?w d = (k1, e1, d2)" by (metis prod_cases3)
  obtain k2 e2 d3 where w2: "Write ?j d2 = (k2, e2, d3)" by (metis prod_cases3)
  from run hs r ids c1 w1 have k: "e1 = None" "k1 = LinkSize"
    by (auto simp: clientNegotiation_def Let_def conn_Write_def name split: option.splits if_splits)
  with run hs r ids c1 w1 w2 have "e2 = None"
    and np: "\<exists>m. env_NewPeer e (srv_clients s) (Protocol link) (responder_config connector (PeerHash name)) = (None, m)"
    by (auto simp: clientNegotiation_def Let_def conn_Write_def Encoder_Encode_def name split: option.splits prod.splits)
  with w1 w2 k np rd(4) obtain p where "pm_peers (srv_clients s) (PeerHash name) = None"
      "construct e c (responder_config connector (PeerHash name)) = Inr p" "\<not> closes e p"
    by (auto simp: env_NewPeer_None_iff)
  with rd ids w1 w2 k \<open>e2 = None\<close> that show ?thesis by blast
qed

text \<open>A negotiation that succeeds has registered a session under the hash of the name.\<close>

lemma clientNegotiation_registers:
  assumes "reader_contract Read"
    and "clientNegotiation e Read Write Generate now connector protos s conn = (None, s', conn')"
    and "name = RandomHostname Generate"
  obtains p where "s' = s\<lparr>srv_clients := PM_register (srv_clients s) (PeerHash name) p\<rparr>"
  using assms
  by (rule clientNegotiation_sound) (use assms in \<open>metis Pair_inject clientNegotiation_ok\<close>)

section \<open>Properties\<close>

text \<open>C4: a peer is registered exactly after a complete and correct handshake. The negotiation
  succeeds if and only if the single read delivered all 18 bytes of a link with the multiplexer
  ALPN, an acceptable registered protocol, this server as destination and another, non-zero,
  source that has no session yet, and the session could be set up; it then registers the
  session under the source, changes nothing else and clears both deadlines.\<close>

theorem peer_handshake_exact:
  assumes "reader_contract Read"
  shows "peerNegotiation e Read now connector protos s conn = (None, s', conn') \<longleftrightarrow>
    (\<exists>link d c p. Read LinkSize (dev conn) = (Link_MarshalBinary link, None, d) \<and>
       ALPN link = ALPN_Multiplexer \<and> Protocol link \<in> set protos \<and> New (reg e) (Protocol link) = Inr c \<and>
       Destination link = srv_id s \<and> Source link \<notin> {0, srv_id s} \<and> srv_id s \<noteq> 0 \<and>
       pm_peers (srv_peers s) (Source link) = None \<and>
       construct e c (responder_config connector (Source link)) = Inr p \<and> \<not> closes e p \<and>
       s' = s\<lparr>srv_peers := PM_register (srv_peers s) (Source link) p\<rparr> \<and>
       conn' = conn\<lparr>dev := d, read_deadline := None, write_deadline := None\<rparr>)" (is "?run = ?exact")
proof
  assume run: ?run
  obtain link d c p where h: "Read LinkSize (dev conn) = (Link_MarshalBinary link, None, d)"
      "ALPN link = ALPN_Multiplexer" "Protocol link \<in> set protos" "New (reg e) (Protocol link) = Inr c"
      "Destination link = srv_id s" "Source link \<notin> {0, srv_id s}" "srv_id s \<noteq> 0"
      "pm_peers (srv_peers s) (Source link) = None"
      "construct e c (responder_config connector (Source link)) = Inr p" "\<not> closes e p"
    using assms run by (rule peerNegotiation_sound)
  with run peerNegotiation_ok [of Read conn link d protos e c s connector p now, OF h] show ?exact by auto
next
  assume ?exact
  then show ?run by (elim exE conjE) (simp add: peerNegotiation_ok)
qed

lemma peer_handshake_exact_witness:
  "\<exists>s' conn'. peerNegotiation plain_sessions duplex_Read 0 5 TLSProtos plain_server
     (net_conn_of \<lparr>inbox = Link_MarshalBinary \<lparr>Source = 9, Destination = 7, Protocol = Yamux, ALPN = ALPN_Multiplexer\<rparr>,
                   outbox = []\<rparr>) = (None, s', conn') \<and> PM_Get (srv_peers s') 9 = Some 5"
proof -
  let ?l = "\<lparr>Source = 9, Destination = 7, Protocol = Yamux, ALPN = ALPN_Multiplexer\<rparr> :: Link"
  let ?conn = "net_conn_of \<lparr>inbox = Link_MarshalBinary ?l, outbox = []\<rparr>"
  let ?s' = "plain_server\<lparr>srv_peers := PM_register (srv_peers plain_server) 9 5\<rparr>"
  have rd: "duplex_Read LinkSize (dev ?conn) = (Link_MarshalBinary ?l, None, \<lparr>inbox = [], outbox = []\<rparr>)"
    by (simp add: net_conn_of_def duplex_Read_def list_reader_def)
  have "peerNegotiation plain_sessions duplex_Read 0 5 TLSProtos plain_server ?conn =
      (None, ?s', ?conn\<lparr>dev := \<lparr>inbox = [], outbox = []\<rparr>, read_deadline := None, write_deadline := None\<rparr>)"
    unfolding peer_handshake_exact [OF reader_contract_duplex]
    by (intro exI [of _ ?l] exI [of _ "\<lparr>inbox = [], outbox = []\<rparr>"] exI [of _ "()"] exI [of _ 5] conjI rd)
      (simp_all add: TLSProtos_def New_Inr_iff plain_sessions_def proto_defs plain_server_def NewPeerMap_def responder_config_def)
  then show ?thesis
    by (intro exI conjI) (assumption, simp add: PM_Get_def PM_register_def PM_Notify_def PM_Count_def PM_Store_def)
qed

text \<open>C5: a client is registered exactly after a complete handshake. The negotiation succeeds if
  and only if the single read delivered a whole link with zero identifiers, the multiplexer ALPN
  and an acceptable protocol, the reply was written in full, and the session could be set up; the
  reply names this server and the hash of the generated host name, under which the session is
  registered, and the client is told exactly that host name.\<close>

theorem client_handshake_exact:
  assumes "reader_contract Read" and name: "name = RandomHostname Generate"
  shows "clientNegotiation e Read Write Generate now connector protos s conn = (None, s', conn') \<longleftrightarrow>
    (\<exists>link d c d2 n d3 p. Read LinkSize (dev conn) = (Link_MarshalBinary link, None, d) \<and>
       ALPN link = ALPN_Multiplexer \<and> Protocol link \<in> set protos \<and> New (reg e) (Protocol link) = Inr c \<and>
       Source link = 0 \<and> Destination link = 0 \<and>
       Write (Link_MarshalBinary (link\<lparr>Source := PeerHash name, Destination := srv_id s\<rparr>)) d = (LinkSize, None, d2) \<and>
       Write (string_bytes (json_Encode (GeneratedName_json (''https://'' @ name @ ''.'' @ srv_Domain s)))) d2 = (n, None, d3) \<and>
       pm_peers (srv_clients s) (PeerHash name) = None \<and>
       construct e c (responder_config connector (PeerHash name)) = Inr p \<and> \<not> closes e p \<and>
       s' = s\<lparr>srv_clients := PM_register (srv_clients s) (PeerHash name) p\<rparr> \<and>
       conn' = conn\<lparr>dev := d3, read_deadline := None, write_deadline := None\<rparr>)" (is "?run = ?exact")
proof
  assume run: ?run
  obtain link d c d2 n d3 p where h: "Read LinkSize (dev conn) = (Link_MarshalBinary link, None, d)"
      "ALPN link = ALPN_Multiplexer" "Protocol link \<in> set protos" "New (reg e) (Protocol link) = Inr c"
      "Source link = 0" "Destination link = 0"
      "Write (Link_MarshalBinary (link\<lparr>Source := PeerHash name, Destination := srv_id s\<rparr>)) d = (LinkSize, None, d2)"
      "Write (string_bytes (json_Encode (GeneratedName_json (''https://'' @ name @ ''.'' @ srv_Domain s)))) d2 = (n, None, d3)"
      "pm_peers (srv_clients s) (PeerHash name) = None"
      "construct e c (responder_config connector (PeerHash name)) = Inr p" "\<not> closes e p"
    using assms(1) run name by (rule clientNegotiation_sound)
  with run clientNegotiation_ok [of Read conn link d protos e c name Generate Write s d2 n d3 connector p now,
      OF h(1-6) name h(7-11)]
  show ?exact by auto
next
  assume ?exact
  then obtain link d c d2 n d3 p where h: "Read LinkSize (dev conn) = (Link_MarshalBinary link, None, d)"
      "ALPN link = ALPN_Multiplexer" "Protocol link \<in> set protos" "New (reg e) (Protocol link) = Inr c"
      "Source link = 0" "Destination link = 0"
      "Write (Link_MarshalBinary (link\<lparr>Source := PeerHash name, Destination := srv_id s\<rparr>)) d = (LinkSize, None, d2)"
      "Write (string_bytes (json_Encode (GeneratedName_json (''https://'' @ name @ ''.'' @ srv_Domain s)))) d2 = (n, None, d3)"
      "pm_peers (srv_clients s) (PeerHash name) = None"
      "construct e c (responder_config connector (PeerHash name)) = Inr p" "\<not> closes e p"
      and "s' = s\<lparr>srv_clients := PM_register (srv_clients s) (PeerHash name) p\<rparr>"
      "conn' = conn\<lparr>dev := d3, read_deadline := None, write_deadline := None\<rparr>"
    by (elim exE conjE)
  then show ?run
    using clientNegotiation_ok [of Read conn link d protos e c name Generate Write s d2 n d3 connector p now,
      OF h(1-6) name h(7-11)] by simp
qed

lemma client_handshake_exact_witness:
  "\<exists>s' conn'. clientNegotiation plain_sessions duplex_Read duplex_Write (\<lambda>n. Inr [''a'', ''b'']) 0 5 QUICProtos plain_server
     (net_conn_of \<lparr>inbox = Link_MarshalBinary \<lparr>Source = 0, Destination = 0, Protocol = QUIC, ALPN = ALPN_Multiplexer\<rparr>,
                   outbox = []\<rparr>) = (None, s', conn') \<and> PM_Get (srv_clients s') (PeerHash ''a-b'') = Some 5"
proof -
  let ?G = "\<lambda>n :: nat. Inr [''a'', ''b''] :: error + string list"
  let ?l = "\<lparr>Source = 0, Destination = 0, Protocol = QUIC, ALPN = ALPN_Multiplexer\<rparr> :: Link"
  let ?conn = "net_conn_of \<lparr>inbox = Link_MarshalBinary ?l, outbox = []\<rparr>"
  let ?s' = "plain_server\<lparr>srv_clients := PM_register (srv_clients plain_server) (PeerHash ''a-b'') 5\<rparr>"
  let ?w = "Link_MarshalBinary (?l\<lparr>Source := PeerHash ''a-b'', Destination := srv_id plain_server\<rparr>)"
  let ?j = "string_bytes (json_Encode (GeneratedName_json (''https://'' @ ''a-b'' @ ''.'' @ srv_Domain plain_server)))"
  have name: "''a-b'' = RandomHostname ?G"
    by (simp add: RandomHostname_def)
  have rd: "duplex_Read LinkSize (dev ?conn) = (Link_MarshalBinary ?l, None, \<lparr>inbox = [], outbox = []\<rparr>)"
    by (simp add: net_conn_of_def duplex_Read_def list_reader_def)
  have "clientNegotiation plain_sessions duplex_Read duplex_Write ?G 0 5 QUICProtos plain_server ?conn =
      (None, ?s', ?conn\<lparr>dev := \<lparr>inbox = [], outbox = ?w @ ?j\<rparr>, read_deadline := None, write_deadline := None\<rparr>)"
    unfolding client_handshake_exact [OF reader_contract_duplex name]
    by (intro exI [of _ ?l] exI [of _ "\<lparr>inbox = [], outbox = []\<rparr>"] exI [of _ "()"] exI [of _ "\<lparr>inbox = [], outbox = ?w\<rparr>"]
        exI [of _ "length ?j"] exI [of _ "\<lparr>inbox = [], outbox = ?w @ ?j\<rparr>"] exI [of _ 5] conjI rd)
      (simp_all add: QUICProtos_def New_Inr_iff plain_sessions_def proto_defs plain_server_def NewPeerMap_def
        responder_config_def duplex_Write_def)
  then show ?thesis
    by (intro exI conjI) (assumption, simp add: PM_Get_def PM_register_def PM_Notify_def PM_Count_def PM_Store_def)
qed

text \<open>No half-open handshake. After the TLS handshake with a peer, either the table of peers
  gained a session and the connection is left as it was, or no table changed and the connection
  is closed.\<close>

lemma tls_handshake_registers_or_closes:
  assumes "peerTLSHandshake e Read now connector s conn = (s', conn')"
  shows "(\<exists>k p. pm_peers (srv_peers s) k = None \<and> s' = s\<lparr>srv_peers := PM_register (srv_peers s) k p\<rparr> \<and>
            conn_st conn' = conn_st conn) \<or>
         (s' = s \<and> conn_st conn' = Closed)"
proof -
  obtain err t c where n: "peerNegotiation e Read now connector TLSProtos s conn = (err, t, c)"
    by (metis prod_cases3)
  show ?thesis
  proof (cases err)
    case None
    with assms n have "s' = t" and "conn' = c"
      by (simp_all add: peerTLSHandshake_def)
    moreover have "conn_st c = conn_st conn"
      using n by (rule peerNegotiation_st)
    moreover have "\<exists>k p. pm_peers (srv_peers s) k = None \<and> t = s\<lparr>srv_peers := PM_register (srv_peers s) k p\<rparr>"
      using n None by (auto simp: peerNegotiation_def Let_def env_NewPeer_None_iff split: prod.splits sum.splits if_splits)
    ultimately show ?thesis by blast
  next
    case (Some x)
    with assms n peerNegotiation_fail [of e Read now connector TLSProtos s conn x t c] show ?thesis
      by (auto simp: peerTLSHandshake_def conn_Close_def)
  qed
qed

lemma tls_handshake_registers_or_closes_witness:
  "\<exists>s' conn'. peerTLSHandshake plain_sessions duplex_Read 0 5 plain_server (net_conn_of \<lparr>inbox = [1], outbox = []\<rparr>) = (s', conn') \<and>
     s' = plain_server \<and> conn_st conn' = Closed"
proof -
  let ?c = "net_conn_of \<lparr>inbox = [1], outbox = []\<rparr>"
  obtain s' conn' where run: "peerTLSHandshake plain_sessions duplex_Read 0 5 plain_server ?c = (s', conn')"
    by (meson surj_pair)
  have "conn_st conn' = Closed"
    using run by (auto simp: peerTLSHandshake_def peerNegotiation_def read_handshake_def Let_def SetReadDeadline_def
        SetWriteDeadline_def read_into_def conn_Read_def net_conn_of_def duplex_Read_def list_reader_def LinkSize_def
        Link_UnmarshalBinary_def copy_at_def make_bytes_def numeral_eq_Suc ALPN_Multiplexer_def conn_Close_def)
  with tls_handshake_registers_or_closes [OF run] run show ?thesis
    by (auto simp: net_conn_of_def)
qed

end
