(* ===== verification/Mux_Peers.thy ===== *)
theory Mux_Peers
  imports Channel Net
begin

text \<open>
  The three implementations of a session (\<^verbatim>\<open>mux/yamux.go\<close>, \<^verbatim>\<open>mux/mplex.go\<close>, \<^verbatim>\<open>mux/quic.go\<close>,
  \<^verbatim>\<open>mux/common.go\<close>). The multiplexing libraries are third-party: what their calls return is an
  argument. A session, a connection and the channel that announces the end of a session are
  open or closed; \<^verbatim>\<open>CloseChan()\<close> of the libraries is documented to be closed with the session.
\<close>

section \<open>Streams\<close>

text \<open>A stream together with the link it was opened for (\<^verbatim>\<open>multiplexer/peer.go\<close>).\<close>

type_synonym 'c LinkConnection = "'c \<times> Link"

definition directHandshake :: "'c writer \<Rightarrow> Link \<Rightarrow> 'c \<Rightarrow> error option \<times> 'c" where
  "directHandshake Write link w =
     (case Write (Link_MarshalBinary link) w of
        (written, Some err, w) \<Rightarrow> (Some (Wrapf ''writing stream handshake: %w'' [] err), w)
      | (written, None, w) \<Rightarrow>
        if written \<noteq> LinkSize then (Some (Errorf ''invalid handshake length: %d'' [written]), w) else (None, w))"

definition messagingHandshake :: "'c writer \<Rightarrow> 'c \<Rightarrow> error option \<times> 'c" where
  "messagingHandshake Write w = directHandshake Write MessagingLink w"

text \<open>
  \<^verbatim>\<open>streamHandshake\<close> reads the link of an accepted stream and puts the stream into the channel;
  after an error it returns, and the stream stays open. The number of bytes read is ignored.
\<close>

definition streamHandshake :: "'c reader \<Rightarrow> 'c \<Rightarrow> 'c LinkConnection option" where
  "streamHandshake Read conn =
     (case read_into Read LinkSize conn of
        (buf, Some err, conn) \<Rightarrow> None
      | (buf, None, conn) \<Rightarrow>
        (case Link_UnmarshalBinary MessagingLink buf of
           Inl err \<Rightarrow> None
         | Inr s \<Rightarrow> Some (conn, s)))"

text \<open>
  Opening a stream: \<open>opened\<close> is the outcome of the library's call. Beside the result the stream is
  given that is dropped without being closed.
\<close>

definition Direct_stream :: "'c writer \<Rightarrow> error + 'c \<Rightarrow> Link \<Rightarrow> (error + 'c) \<times> 'c option" where
  "Direct_stream Write opened link =
     (case opened of
        Inl err \<Rightarrow> (Inl (Wrapf ''opening new stream: %w'' [] err), None)
      | Inr n \<Rightarrow>
        (case directHandshake Write link n of
           (Some err, n) \<Rightarrow> (Inl err, Some n)
         | (None, n) \<Rightarrow> (Inr n, None)))"

definition Messaging_stream :: "'c writer \<Rightarrow> error + 'c \<Rightarrow> (error + 'c) \<times> 'c option" where
  "Messaging_stream Write opened =
     (case opened of
        Inl err \<Rightarrow> (Inl (Wrapf ''opening new messaging stream: %w'' [] err), None)
      | Inr n \<Rightarrow>
        (case messagingHandshake Write n of
           (Some err, n) \<Rightarrow> (Inl err, Some n)
         | (None, n) \<Rightarrow> (Inr n, None)))"

section \<open>Closing\<close>

text \<open>\<^verbatim>\<open>Channel.Close\<close>, run without interruption.\<close>

definition Channel_Close :: "'a Channel \<Rightarrow> (bool \<times> 'a Channel) go" where
  "Channel_Close c =
     (if closed c then Ret (False, c)
      else if closer c = Closed then Panic CloseOfClosedChannel
      else Ret (True, c\<lparr>closed := True, closer := Closed\<rparr>))"

text \<open>\<^verbatim>\<open>Channel.Incoming\<close>.\<close>

definition Channel_Incoming :: "'a Channel \<Rightarrow> 'a list \<times> lifecycle" where
  "Channel_Incoming c = (outgoing c, outgoing_st c)"

record 'a YamuxPeer =
  y_session :: lifecycle
  y_config :: Config
  y_conn :: lifecycle
  y_channel :: "'a Channel"

record 'a MplexPeer =
  x_session :: lifecycle
  x_config :: Config
  x_conn :: lifecycle
  x_channel :: "'a Channel"

record 'a QuicPeer =
  q_session :: lifecycle
  q_config :: Config
  q_channel :: "'a Channel"
  q_timeoutCh :: lifecycle
  q_timeoutChClosed :: bool

definition Yamux_Bye :: "'a YamuxPeer \<Rightarrow> 'a YamuxPeer go" where
  "Yamux_Bye p =
     bind_go (Channel_Close (y_channel p)) (\<lambda>(won, ch).
       if won then Ret (p\<lparr>y_channel := ch, y_session := Closed, y_conn := Closed\<rparr>)
       else Ret (p\<lparr>y_channel := ch\<rparr>))"

definition Mplex_Bye :: "'a MplexPeer \<Rightarrow> 'a MplexPeer go" where
  "Mplex_Bye p =
     bind_go (Channel_Close (x_channel p)) (\<lambda>(won, ch).
       if won then Ret (p\<lparr>x_channel := ch, x_session := Closed, x_conn := Closed\<rparr>)
       else Ret (p\<lparr>x_channel := ch\<rparr>))"

definition closeTimeoutCh :: "'a QuicPeer \<Rightarrow> 'a QuicPeer go" where
  "closeTimeoutCh p =
     (if q_timeoutChClosed p then Ret p
      else if q_timeoutCh p = Closed then Panic CloseOfClosedChannel
      else Ret (p\<lparr>q_timeoutChClosed := True, q_timeoutCh := Closed\<rparr>))"

definition QUIC_Bye :: "'a QuicPeer \<Rightarrow> 'a QuicPeer go" where
  "QUIC_Bye p =
     bind_go (Channel_Close (q_channel p)) (\<lambda>(won, ch).
       if won then closeTimeoutCh (p\<lparr>q_channel := ch, q_session := Closed\<rparr>)
       else Ret (p\<lparr>q_channel := ch\<rparr>))"

text \<open>Whether the channel returned by \<^verbatim>\<open>NotifyClose\<close> is closed.\<close>

definition Yamux_NotifyClose :: "'a YamuxPeer \<Rightarrow> bool" where
  "Yamux_NotifyClose p = (y_session p = Closed)"

definition Mplex_NotifyClose :: "'a MplexPeer \<Rightarrow> bool" where
  "Mplex_NotifyClose p = (x_session p = Closed)"

definition QUIC_NotifyClose :: "'a QuicPeer \<Rightarrow> bool" where
  "QUIC_NotifyClose p = (q_timeoutCh p = Closed)"

section \<open>Accepting streams\<close>

text \<open>
  One turn of the loop of \<^verbatim>\<open>Start\<close>: the context is done, or accepting gives an error or a
  stream. The loop gives the streams for which it started \<^verbatim>\<open>streamHandshake\<close>; a list of turns
  that ends without the loop returning is a loop still running.
\<close>

datatype 's turn = Cancelled | AcceptError error | Accepted 's

fun Start_loop :: "('p \<Rightarrow> 'p go) \<Rightarrow> 's turn list \<Rightarrow> 'p \<Rightarrow> ('s list \<times> 'p) go" where
  "Start_loop Bye [] p = Ret ([], p)"
| "Start_loop Bye (Cancelled # ts) p = Ret ([], p)"
| "Start_loop Bye (AcceptError err # ts) p = bind_go (Bye p) (\<lambda>p. Ret ([], p))"
| "Start_loop Bye (Accepted conn # ts) p =
     bind_go (Start_loop Bye ts p) (\<lambda>(conns, p). Ret (conn # conns, p))"

definition Yamux_Start :: "'s turn list \<Rightarrow> 'a YamuxPeer \<Rightarrow> ('s list \<times> 'a YamuxPeer) go" where
  "Yamux_Start = Start_loop Yamux_Bye"

definition Mplex_Start :: "'s turn list \<Rightarrow> 'a MplexPeer \<Rightarrow> ('s list \<times> 'a MplexPeer) go" where
  "Mplex_Start = Start_loop Mplex_Bye"

definition QUIC_Start :: "'s turn list \<Rightarrow> 'a QuicPeer \<Rightarrow> ('s list \<times> 'a QuicPeer) go" where
  "QUIC_Start = Start_loop QUIC_Bye"

text \<open>\<^verbatim>\<open>Null\<close> accepts one stream and ends the session; for QUIC an error announces the end.\<close>

fun Yamux_Null :: "'s turn \<Rightarrow> 'a YamuxPeer \<Rightarrow> 'a YamuxPeer go" where
  "Yamux_Null Cancelled p = Ret p"
| "Yamux_Null (AcceptError err) p = Ret p"
| "Yamux_Null (Accepted conn) p = Yamux_Bye p"

fun Mplex_Null :: "'s turn \<Rightarrow> 'a MplexPeer \<Rightarrow> 'a MplexPeer go" where
  "Mplex_Null Cancelled p = Ret p"
| "Mplex_Null (AcceptError err) p = Ret p"
| "Mplex_Null (Accepted conn) p = Mplex_Bye p"

fun QUIC_Null :: "'s turn \<Rightarrow> 'a QuicPeer \<Rightarrow> 'a QuicPeer go" where
  "QUIC_Null Cancelled p = Ret p"
| "QUIC_Null (AcceptError err) p = closeTimeoutCh p"
| "QUIC_Null (Accepted conn) p = QUIC_Bye p"

section \<open>Streams of the implementations\<close>

text \<open>
  The three copies of the stream operations. Mplex and QUIC give a stream together with the
  connection or session it belongs to, from which it takes its addresses.
\<close>

record 'c mplexConn =
  mx_Stream :: 'c
  parentConn :: "nat option"

record 'c quicConn =
  qc_Stream :: 'c
  qc_Session :: "nat option"

definition mplex_wrap :: "'a MplexPeer \<Rightarrow> 'c \<Rightarrow> 'c mplexConn" where
  "mplex_wrap p n = \<lparr>mx_Stream = n, parentConn = cfg_Conn (x_config p)\<rparr>"

definition quic_wrap :: "'a QuicPeer \<Rightarrow> 'c \<Rightarrow> 'c quicConn" where
  "quic_wrap p n = \<lparr>qc_Stream = n, qc_Session = cfg_Conn (q_config p)\<rparr>"

definition Yamux_streamHandshake :: "'c reader \<Rightarrow> 'a YamuxPeer \<Rightarrow> 'c \<Rightarrow> 'c LinkConnection option" where
  "Yamux_streamHandshake Read p conn = streamHandshake Read conn"

definition Mplex_streamHandshake :: "'c reader \<Rightarrow> 'a MplexPeer \<Rightarrow> 'c \<Rightarrow> 'c mplexConn LinkConnection option" where
  "Mplex_streamHandshake Read p conn = map_option (map_prod (mplex_wrap p) id) (streamHandshake Read conn)"

definition QUIC_streamHandshake :: "'c reader \<Rightarrow> 'a QuicPeer \<Rightarrow> 'c \<Rightarrow> 'c quicConn LinkConnection option" where
  "QUIC_streamHandshake Read p conn = map_option (map_prod (quic_wrap p) id) (streamHandshake Read conn)"

definition Yamux_Messaging :: "'c writer \<Rightarrow> error + 'c \<Rightarrow> (error + 'c) \<times> 'c option" where
  "Yamux_Messaging Write opened = Messaging_stream Write opened"

definition Mplex_Messaging ::
  "'c writer \<Rightarrow> 'a MplexPeer \<Rightarrow> error + 'c \<Rightarrow> (error + 'c mplexConn) \<times> 'c option" where
  "Mplex_Messaging Write p opened = map_prod (map_sum id (mplex_wrap p)) id (Messaging_stream Write opened)"

definition QUIC_Messaging ::
  "'c writer \<Rightarrow> 'a QuicPeer \<Rightarrow> error + 'c \<Rightarrow> (error + 'c quicConn) \<times> 'c option" where
  "QUIC_Messaging Write p opened = map_prod (map_sum id (quic_wrap p)) id (Messaging_stream Write opened)"

definition Yamux_Direct :: "'c writer \<Rightarrow> error + 'c \<Rightarrow> Link \<Rightarrow> (error + 'c) \<times> 'c option" where
  "Yamux_Direct Write opened link = Direct_stream Write opened link"

definition Mplex_Direct ::
  "'c writer \<Rightarrow> 'a MplexPeer \<Rightarrow> error + 'c \<Rightarrow> Link \<Rightarrow> (error + 'c mplexConn) \<times> 'c option" where
  "Mplex_Direct Write p opened link = map_prod (map_sum id (mplex_wrap p)) id (Direct_stream Write opened link)"

definition QUIC_Direct ::
  "'c writer \<Rightarrow> 'a QuicPeer \<Rightarrow> error + 'c \<Rightarrow> Link \<Rightarrow> (error + 'c quicConn) \<times> 'c option" where
  "QUIC_Direct Write p opened link = map_prod (map_sum id (quic_wrap p)) id (Direct_stream Write opened link)"

text \<open>\<^verbatim>\<open>Bidirectional\<close> ends by connecting the new stream with the given one: the pair is what is connected.\<close>

definition Yamux_Bidirectional :: "'c writer \<Rightarrow> error + 'c \<Rightarrow> 'd \<Rightarrow> Link \<Rightarrow> error + 'c \<times> 'd" where
  "Yamux_Bidirectional Write opened conn link =
     (case fst (Yamux_Direct Write opened link) of Inl err \<Rightarrow> Inl err | Inr n \<Rightarrow> Inr (n, conn))"

definition Mplex_Bidirectional ::
  "'c writer \<Rightarrow> 'a MplexPeer \<Rightarrow> error + 'c \<Rightarrow> 'd \<Rightarrow> Link \<Rightarrow> error + 'c mplexConn \<times> 'd" where
  "Mplex_Bidirectional Write p opened conn link =
     (case fst (Mplex_Direct Write p opened link) of Inl err \<Rightarrow> Inl err | Inr n \<Rightarrow> Inr (n, conn))"

definition QUIC_Bidirectional ::
  "'c writer \<Rightarrow> 'a QuicPeer \<Rightarrow> error + 'c \<Rightarrow> 'd \<Rightarrow> Link \<Rightarrow> error + 'c quicConn \<times> 'd" where
  "QUIC_Bidirectional Write p opened conn link =
     (case fst (QUIC_Direct Write p opened link) of Inl err \<Rightarrow> Inl err | Inr n \<Rightarrow> Inr (n, conn))"

text \<open>The log filter of Yamux: whether and how loudly a line is logged, and the count returned.\<close>

datatype log_level = Warn | Error

definition zapWriter_Write :: "bytes \<Rightarrow> log_level option \<times> nat" where
  "zapWriter_Write b =
     (let msg = bytes_string b in
      (if strings_Contains msg ''frame for missing stream'' then None
       else if strings_Contains msg ''iscard'' then None
       else if strings_Contains msg ''[WARN]'' then Some Warn
       else Some Error, length b))"

section \<open>Construction\<close>

text \<open>
  The connector of a configuration has the static type \<^verbatim>\<open>interface{}\<close>: \<open>kind\<close> gives its dynamic
  type. A failed type assertion panics.
\<close>

datatype connector = NetConn | QuicSession

definition type_assert :: "(nat \<Rightarrow> connector) \<Rightarrow> connector \<Rightarrow> Config \<Rightarrow> nat go" where
  "type_assert kind k config =
     (case cfg_Conn config of
        None \<Rightarrow> Panic (Explicit ''interface conversion'')
      | Some c \<Rightarrow> if kind c = k then Ret c else Panic (Explicit ''interface conversion''))"

text \<open>\<open>Session initiator c\<close> is the error of \<^verbatim>\<open>yamux.Client\<close> and \<^verbatim>\<open>yamux.Server\<close>.\<close>

definition NewYamuxPeer ::
  "(nat \<Rightarrow> connector) \<Rightarrow> (bool \<Rightarrow> nat \<Rightarrow> error option) \<Rightarrow> Config \<Rightarrow> (error + 'a YamuxPeer) go" where
  "NewYamuxPeer kind Session config =
     (case Config_Validate config of
        Some err \<Rightarrow> Ret (Inl err)
      | None \<Rightarrow>
        bind_go (type_assert kind NetConn config) (\<lambda>c.
          case Session (cfg_Initiator config) c of
            Some err \<Rightarrow> Ret (Inl (Wrapf ''starting a peer connection: %w'' [] err))
          | None \<Rightarrow> Ret (Inr \<lparr>y_session = Open, y_config = config, y_conn = Open, y_channel = NewChannel\<rparr>)))"

definition NewMplexPeer :: "(nat \<Rightarrow> connector) \<Rightarrow> Config \<Rightarrow> (error + 'a MplexPeer) go" where
  "NewMplexPeer kind config =
     (case Config_Validate config of
        Some err \<Rightarrow> Ret (Inl err)
      | None \<Rightarrow>
        bind_go (type_assert kind NetConn config) (\<lambda>c.
          Ret (Inr \<lparr>x_session = Open, x_config = config, x_conn = Open, x_channel = NewChannel\<rparr>)))"

definition NewQuicPeer :: "(nat \<Rightarrow> connector) \<Rightarrow> Config \<Rightarrow> (error + 'a QuicPeer) go" where
  "NewQuicPeer kind config =
     (case Config_Validate config of
        Some err \<Rightarrow> Ret (Inl err)
      | None \<Rightarrow>
        bind_go (type_assert kind QuicSession config) (\<lambda>c.
          Ret (Inr \<lparr>q_session = Open, q_config = config, q_channel = NewChannel,
                    q_timeoutCh = Open, q_timeoutChClosed = False\<rparr>)))"

text \<open>A value of the interface \<^verbatim>\<open>multiplexer.Peer\<close>, and the methods that only read the configuration.\<close>

datatype 'a Peer = PYamux "'a YamuxPeer" | PMplex "'a MplexPeer" | PQuic "'a QuicPeer"

fun Peer_config :: "'a Peer \<Rightarrow> Config" where
  "Peer_config (PYamux p) = y_config p"
| "Peer_config (PMplex p) = x_config p"
| "Peer_config (PQuic p) = q_config p"

definition Peer_Initiator :: "'a Peer \<Rightarrow> bool" where
  "Peer_Initiator p = cfg_Initiator (Peer_config p)"

definition Peer_Peer :: "'a Peer \<Rightarrow> u64" where
  "Peer_Peer p = cfg_Peer (Peer_config p)"

fun Peer_Protocol :: "'a Peer \<Rightarrow> Protocol" where
  "Peer_Protocol (PYamux p) = Yamux"
| "Peer_Protocol (PMplex p) = Mplex"
| "Peer_Protocol (PQuic p) = QUIC"

fun Peer_Bye :: "'a Peer \<Rightarrow> 'a Peer go" where
  "Peer_Bye (PYamux p) = bind_go (Yamux_Bye p) (\<lambda>p. Ret (PYamux p))"
| "Peer_Bye (PMplex p) = bind_go (Mplex_Bye p) (\<lambda>p. Ret (PMplex p))"
| "Peer_Bye (PQuic p) = bind_go (QUIC_Bye p) (\<lambda>p. Ret (PQuic p))"

fun Peer_Start :: "'s turn list \<Rightarrow> 'a Peer \<Rightarrow> ('s list \<times> 'a Peer) go" where
  "Peer_Start ts (PYamux p) = bind_go (Yamux_Start ts p) (\<lambda>(conns, p). Ret (conns, PYamux p))"
| "Peer_Start ts (PMplex p) = bind_go (Mplex_Start ts p) (\<lambda>(conns, p). Ret (conns, PMplex p))"
| "Peer_Start ts (PQuic p) = bind_go (QUIC_Start ts p) (\<lambda>(conns, p). Ret (conns, PQuic p))"

fun Peer_NotifyClose :: "'a Peer \<Rightarrow> bool" where
  "Peer_NotifyClose (PYamux p) = Yamux_NotifyClose p"
| "Peer_NotifyClose (PMplex p) = Mplex_NotifyClose p"
| "Peer_NotifyClose (PQuic p) = QUIC_NotifyClose p"

text \<open>\<^verbatim>\<open>Handle\<close>: the channel that the consumer of the streams reads, its content and whether it is closed.\<close>

definition Yamux_Handle :: "'a YamuxPeer \<Rightarrow> 'a list \<times> lifecycle" where
  "Yamux_Handle p = Channel_Incoming (y_channel p)"

definition Mplex_Handle :: "'a MplexPeer \<Rightarrow> 'a list \<times> lifecycle" where
  "Mplex_Handle p = Channel_Incoming (x_channel p)"

definition QUIC_Handle :: "'a QuicPeer \<Rightarrow> 'a list \<times> lifecycle" where
  "QUIC_Handle p = Channel_Incoming (q_channel p)"

fun Peer_Handle :: "'a Peer \<Rightarrow> 'a list \<times> lifecycle" where
  "Peer_Handle (PYamux p) = Yamux_Handle p"
| "Peer_Handle (PMplex p) = Mplex_Handle p"
| "Peer_Handle (PQuic p) = QUIC_Handle p"

text \<open>
  Addresses. \<open>LocalAddr\<close> and \<open>RemoteAddr\<close> are those of the connections and sessions that serve as
  connectors; a stream of Mplex or QUIC asks what it was wrapped with.
\<close>

definition Yamux_Addr :: "(nat \<Rightarrow> connector) \<Rightarrow> (nat \<Rightarrow> string) \<Rightarrow> 'a YamuxPeer \<Rightarrow> string go" where
  "Yamux_Addr kind RemoteAddr p = bind_go (type_assert kind NetConn (y_config p)) (\<lambda>c. Ret (RemoteAddr c))"

definition Mplex_Addr :: "(nat \<Rightarrow> connector) \<Rightarrow> (nat \<Rightarrow> string) \<Rightarrow> 'a MplexPeer \<Rightarrow> string go" where
  "Mplex_Addr kind RemoteAddr p = bind_go (type_assert kind NetConn (x_config p)) (\<lambda>c. Ret (RemoteAddr c))"

definition QUIC_Addr :: "(nat \<Rightarrow> connector) \<Rightarrow> (nat \<Rightarrow> string) \<Rightarrow> 'a QuicPeer \<Rightarrow> string go" where
  "QUIC_Addr kind RemoteAddr p = bind_go (type_assert kind QuicSession (q_config p)) (\<lambda>c. Ret (RemoteAddr c))"

fun Peer_Addr :: "(nat \<Rightarrow> connector) \<Rightarrow> (nat \<Rightarrow> string) \<Rightarrow> 'a Peer \<Rightarrow> string go" where
  "Peer_Addr kind RemoteAddr (PYamux p) = Yamux_Addr kind RemoteAddr p"
| "Peer_Addr kind RemoteAddr (PMplex p) = Mplex_Addr kind RemoteAddr p"
| "Peer_Addr kind RemoteAddr (PQuic p) = QUIC_Addr kind RemoteAddr p"

definition addr_of :: "(nat \<Rightarrow> string) \<Rightarrow> nat option \<Rightarrow> string go" where
  "addr_of Addr c = (case c of None \<Rightarrow> Panic NilDereference | Some c \<Rightarrow> Ret (Addr c))"

definition mplexConn_LocalAddr :: "(nat \<Rightarrow> string) \<Rightarrow> 'c mplexConn \<Rightarrow> string go" where
  "mplexConn_LocalAddr LocalAddr m = addr_of LocalAddr (parentConn m)"

definition mplexConn_RemoteAddr :: "(nat \<Rightarrow> string) \<Rightarrow> 'c mplexConn \<Rightarrow> string go" where
  "mplexConn_RemoteAddr RemoteAddr m = addr_of RemoteAddr (parentConn m)"

definition quicConn_LocalAddr :: "(nat \<Rightarrow> string) \<Rightarrow> 'c quicConn \<Rightarrow> string go" where
  "quicConn_LocalAddr LocalAddr m = addr_of LocalAddr (qc_Session m)"

definition quicConn_RemoteAddr :: "(nat \<Rightarrow> string) \<Rightarrow> 'c quicConn \<Rightarrow> string go" where
  "quicConn_RemoteAddr RemoteAddr m = addr_of RemoteAddr (qc_Session m)"

definition WrapQUIC :: "nat \<Rightarrow> 'c \<Rightarrow> 'c quicConn" where
  "WrapQUIC session stream = \<lparr>qc_Stream = stream, qc_Session = Some session\<rparr>"

text \<open>The tuning of QUIC, in nanoseconds.\<close>

record quic_Config =
  KeepAlive :: bool
  HandshakeIdleTimeout :: nat
  MaxIdleTimeout :: nat
  DisablePathMTUDiscovery :: bool

definition quicConfigCommon :: quic_Config where
  "quicConfigCommon =
     \<lparr>KeepAlive = True, HandshakeIdleTimeout = second * 3, MaxIdleTimeout = second * 15, DisablePathMTUDiscovery = False\<rparr>"

definition QUICConfig :: quic_Config where
  "QUICConfig = quicConfigCommon"

text \<open>The registries after the \<^verbatim>\<open>init\<close> functions of the package; the entries are named by the implementation.\<close>

datatype mux = Mux_Yamux | Mux_Mplex | Mux_Quic

definition mux_constructors :: "mux registry" where
  "mux_constructors =
     RegisterConstructor (RegisterConstructor (RegisterConstructor Map.empty Mplex Mux_Mplex) QUIC Mux_Quic) Yamux Mux_Yamux"

definition mux_dialers :: "mux registry" where
  "mux_dialers =
     RegisterDialer (RegisterDialer (RegisterDialer Map.empty Mplex Mux_Mplex) QUIC Mux_Quic) Yamux Mux_Yamux"

fun mux_construct ::
  "(nat \<Rightarrow> connector) \<Rightarrow> (bool \<Rightarrow> nat \<Rightarrow> error option) \<Rightarrow> mux \<Rightarrow> Config \<Rightarrow> (error + 'a Peer) go" where
  "mux_construct kind Session Mux_Yamux config =
     bind_go (NewYamuxPeer kind Session config) (\<lambda>r. Ret (map_sum id PYamux r))"
| "mux_construct kind Session Mux_Mplex config =
     bind_go (NewMplexPeer kind config) (\<lambda>r. Ret (map_sum id PMplex r))"
| "mux_construct kind Session Mux_Quic config =
     bind_go (NewQuicPeer kind config) (\<lambda>r. Ret (map_sum id PQuic r))"

text \<open>
  Dialling. The outcome has the connector, the connection for the handshake, and beside it the
  connector that only the returned closer could close when the call fails.
\<close>

definition dialYamux :: "(string \<Rightarrow> error + nat) \<Rightarrow> string \<Rightarrow> (error + nat \<times> nat) \<times> nat option" where
  "dialYamux DialTLS addr =
     (case DialTLS addr of
        Inl err \<Rightarrow> (Inl (Wrapf ''opening tls connection: %w'' [] err), None)
      | Inr conn \<Rightarrow> (Inr (conn, conn), None))"

definition dialMplex :: "(string \<Rightarrow> error + nat) \<Rightarrow> string \<Rightarrow> (error + nat \<times> nat) \<times> nat option" where
  "dialMplex DialTLS addr = dialYamux DialTLS addr"

definition dialQuic ::
  "(string \<Rightarrow> error + nat) \<Rightarrow> (nat \<Rightarrow> error + nat) \<Rightarrow> string \<Rightarrow> (error + nat \<times> nat) \<times> nat option" where
  "dialQuic DialAddr OpenStream addr =
     (case DialAddr addr of
        Inl err \<Rightarrow> (Inl (Wrapf ''opening quic session: %w'' [] err), None)
      | Inr sess \<Rightarrow>
        (case OpenStream sess of
           Inl err \<Rightarrow> (Inl (Wrapf ''opening quic handshake stream: %w'' [] err), Some sess)
         | Inr conn \<Rightarrow> (Inr (sess, conn), None)))"

fun mux_dial ::
  "(string \<Rightarrow> error + nat) \<Rightarrow> (string \<Rightarrow> error + nat) \<Rightarrow> (nat \<Rightarrow> error + nat) \<Rightarrow> mux \<Rightarrow> string \<Rightarrow>
   (error + nat \<times> nat) \<times> nat option" where
  "mux_dial DialTLS DialAddr OpenStream Mux_Yamux addr = dialYamux DialTLS addr"
| "mux_dial DialTLS DialAddr OpenStream Mux_Mplex addr = dialMplex DialTLS addr"
| "mux_dial DialTLS DialAddr OpenStream Mux_Quic addr = dialQuic DialAddr OpenStream addr"

section \<open>Well-formed sessions\<close>

text \<open>The flag and the closer of the channel agree, and a closed channel means a closed session.\<close>

definition wf_channel :: "'a Channel \<Rightarrow> bool" where
  "wf_channel c = (closed c \<longleftrightarrow> closer c = Closed)"

definition wf_yamux :: "'a YamuxPeer \<Rightarrow> bool" where
  "wf_yamux p = (wf_channel (y_channel p) \<and> (closed (y_channel p) \<longrightarrow> y_session p = Closed \<and> y_conn p = Closed))"

definition wf_mplex :: "'a MplexPeer \<Rightarrow> bool" where
  "wf_mplex p = (wf_channel (x_channel p) \<and> (closed (x_channel p) \<longrightarrow> x_session p = Closed \<and> x_conn p = Closed))"

definition wf_quic :: "'a QuicPeer \<Rightarrow> bool" where
  "wf_quic p =
     (wf_channel (q_channel p) \<and> (q_timeoutChClosed p \<longleftrightarrow> q_timeoutCh p = Closed) \<and>
      (closed (q_channel p) \<longrightarrow> q_session p = Closed \<and> q_timeoutCh p = Closed))"

fun wf_peer :: "'a Peer \<Rightarrow> bool" where
  "wf_peer (PYamux p) = wf_yamux p"
| "wf_peer (PMplex p) = wf_mplex p"
| "wf_peer (PQuic p) = wf_quic p"

text \<open>One read delivered the image of a link, up to zeros at its end.\<close>

definition delivered_link :: "'c reader \<Rightarrow> 'c \<Rightarrow> 'c \<Rightarrow> Link \<Rightarrow> bool" where
  "delivered_link Read conn conn' s =
     (case Read LinkSize conn of (b, err, c) \<Rightarrow>
        err = None \<and> c = conn' \<and> Link_MarshalBinary s = b @ replicate (LinkSize - length b) 0)"

text \<open>The streams taken before the loop returns.\<close>

fun accepted_conns :: "'s turn list \<Rightarrow> 's list" where
  "accepted_conns (Accepted c # ts) = c # accepted_conns ts"
| "accepted_conns _ = []"

fun ends_in_error :: "'s turn list \<Rightarrow> bool" where
  "ends_in_error (Accepted c # ts) = ends_in_error ts"
| "ends_in_error (AcceptError e # ts) = True"
| "ends_in_error _ = False"

section \<open>Lemmas\<close>

lemma Channel_Close_cases:
  assumes "wf_channel c"
  shows "Channel_Close c = Ret (\<not> closed c, c\<lparr>closed := True, closer := Closed\<rparr>)"
  using assms by (cases c) (auto simp: Channel_Close_def wf_channel_def)

text \<open>\<^verbatim>\<open>Close\<close> in one go is two steps of the interleaved model.\<close>

lemma Channel_Close_steps:
  assumes "Channel_Close (chan S) = Ret (True, c)" and "closers S = add_mset C_Cas C"
  shows "chan_step\<^sup>*\<^sup>* S (S\<lparr>chan := c, closers := add_mset (C_Done True) C\<rparr>)"
proof -
  have c: "\<not> closed (chan S)" "closer (chan S) = Open" "c = (chan S)\<lparr>closed := True, closer := Closed\<rparr>"
    using assms(1) by (cases "closer (chan S)"; auto simp: Channel_Close_def split: if_splits)+
  let ?T = "S\<lparr>chan := (chan S)\<lparr>closed := True\<rparr>, closers := add_mset C_Close C\<rparr>"
  have "chan_step S ?T"
    using assms(2) c by (intro chan_step.close_win)
  moreover have "chan_step ?T (?T\<lparr>chan := (chan ?T)\<lparr>closer := Closed\<rparr>, closers := add_mset (C_Done True) C\<rparr>)"
    using c by (intro chan_step.close_closer) simp_all
  ultimately show ?thesis
    using c by (simp add: converse_rtranclp_into_rtranclp r_into_rtranclp)
qed

text \<open>
  What a session promises its users: \<^verbatim>\<open>Bye\<close> returns, announces the end, and does nothing when it
  is repeated.
\<close>

locale session_end =
  fixes wf :: "'p \<Rightarrow> bool" and bye :: "'p \<Rightarrow> 'p go" and gone :: "'p \<Rightarrow> bool"
  assumes bye_ends: "wf p \<Longrightarrow> \<exists>q. bye p = Ret q \<and> wf q \<and> gone q \<and> bye q = Ret q"
begin

lemma start_ends:
  assumes "wf p"
  obtains q where "Start_loop bye ts p = Ret (accepted_conns ts, q)" and "wf q"
    and "ends_in_error ts \<Longrightarrow> gone q \<and> bye q = Ret q"
    and "\<not> ends_in_error ts \<Longrightarrow> q = p"
proof -
  have "\<exists>q. Start_loop bye ts p = Ret (accepted_conns ts, q) \<and> wf q \<and>
      (if ends_in_error ts then gone q \<and> bye q = Ret q else q = p)"
  proof (induction ts)
    case (Cons t ts)
    with bye_ends [OF assms] assms show ?case
      by (cases t) (auto split: if_splits)
  qed (simp add: assms)
  with that show ?thesis
    by (auto split: if_splits)
qed

end

interpretation yamux: session_end wf_yamux Yamux_Bye Yamux_NotifyClose
  by unfold_locales
    (auto simp: wf_yamux_def Yamux_Bye_def Yamux_NotifyClose_def Channel_Close_cases wf_channel_def)

interpretation mplex: session_end wf_mplex Mplex_Bye Mplex_NotifyClose
  by unfold_locales
    (auto simp: wf_mplex_def Mplex_Bye_def Mplex_NotifyClose_def Channel_Close_cases wf_channel_def)

interpretation quic: session_end wf_quic QUIC_Bye QUIC_NotifyClose
  by unfold_locales
    (auto simp: wf_quic_def QUIC_Bye_def QUIC_NotifyClose_def closeTimeoutCh_def Channel_Close_cases wf_channel_def)

text \<open>The same contract for a value of the interface.\<close>

interpretation peer: session_end wf_peer Peer_Bye Peer_NotifyClose
proof
  fix p :: "'a Peer"
  assume "wf_peer p"
  then show "\<exists>q. Peer_Bye p = Ret q \<and> wf_peer q \<and> Peer_NotifyClose q \<and> Peer_Bye q = Ret q"
  proof (cases p)
    case (PYamux y)
    with \<open>wf_peer p\<close> yamux.bye_ends [of y] show ?thesis
      by fastforce
  next
    case (PMplex x)
    with \<open>wf_peer p\<close> mplex.bye_ends [of x] show ?thesis
      by fastforce
  next
    case (PQuic q)
    with \<open>wf_peer p\<close> quic.bye_ends [of q] show ?thesis
      by fastforce
  qed
qed

lemma Start_loop_map:
  assumes "\<And>q. Peer_Bye (f q) = bind_go (bye q) (\<lambda>q. Ret (f q))"
  shows "Start_loop Peer_Bye ts (f p) = bind_go (Start_loop bye ts p) (\<lambda>(conns, q). Ret (conns, f q))"
proof (induction ts)
  case (Cons t ts)
  show ?case
  proof (cases t)
    case (AcceptError e)
    then show ?thesis
      by (cases "bye p") (simp_all add: assms)
  next
    case (Accepted c)
    with Cons show ?thesis
      by (cases "Start_loop bye ts p") auto
  qed simp
qed simp

lemma Peer_Start_loop: "Peer_Start ts p = Start_loop Peer_Bye ts p"
  by (cases p)
    (simp_all add: Yamux_Start_def Mplex_Start_def QUIC_Start_def
      Start_loop_map [of PYamux Yamux_Bye] Start_loop_map [of PMplex Mplex_Bye] Start_loop_map [of PQuic QUIC_Bye])

lemma mux_construct_ok:
  assumes "mux_construct kind Session m config = Ret (Inr p)"
  shows "wf_peer p \<and> \<not> Peer_NotifyClose p \<and> Peer_config p = config \<and>
    Peer_Protocol p = (case m of Mux_Yamux \<Rightarrow> Yamux | Mux_Mplex \<Rightarrow> Mplex | Mux_Quic \<Rightarrow> QUIC)"
  using assms
  by (cases m)
    (auto simp: NewYamuxPeer_def NewMplexPeer_def NewQuicPeer_def type_assert_def wf_yamux_def wf_mplex_def wf_quic_def
      wf_channel_def NewChannel_def Yamux_NotifyClose_def Mplex_NotifyClose_def QUIC_NotifyClose_def
      split: option.splits if_splits)

text \<open>The streams of a session come with the addresses of the session, in all implementations.\<close>

lemma Peer_Addr_constructed:
  assumes "mux_construct kind Session m config = Ret (Inr p)"
  shows "\<exists>c. cfg_Conn config = Some c \<and> Peer_Addr kind R p = Ret (R c)"
  using assms
  by (cases m)
    (auto simp: NewYamuxPeer_def NewMplexPeer_def NewQuicPeer_def Config_Validate_def type_assert_def Yamux_Addr_def
      Mplex_Addr_def QUIC_Addr_def split: option.splits if_splits)

lemma Mplex_stream_addr:
  assumes "mux_construct kind Session m config = Ret (Inr (PMplex x))" and "fst (Mplex_Direct Write x opened link) = Inr n"
  shows "mplexConn_RemoteAddr R n = Peer_Addr kind R (PMplex x)"
proof -
  have "parentConn n = cfg_Conn config"
    using assms(2) mux_construct_ok [OF assms(1)]
    by (auto simp: Mplex_Direct_def mplex_wrap_def map_sum_def split: sum.splits)
  with Peer_Addr_constructed [OF assms(1), of R] show ?thesis
    by (auto simp: mplexConn_RemoteAddr_def addr_of_def)
qed

lemma QUIC_stream_addr:
  assumes "mux_construct kind Session m config = Ret (Inr (PQuic q))" and "fst (QUIC_Direct Write q opened link) = Inr n"
  shows "quicConn_RemoteAddr R n = Peer_Addr kind R (PQuic q)"
proof -
  have "qc_Session n = cfg_Conn config"
    using assms(2) mux_construct_ok [OF assms(1)]
    by (auto simp: QUIC_Direct_def quic_wrap_def map_sum_def split: sum.splits)
  with Peer_Addr_constructed [OF assms(1), of R] show ?thesis
    by (auto simp: quicConn_RemoteAddr_def addr_of_def)
qed

lemma mux_registered:
  "New mux_constructors proto = Inr m \<longleftrightarrow>
     proto = Yamux \<and> m = Mux_Yamux \<or> proto = Mplex \<and> m = Mux_Mplex \<or> proto = QUIC \<and> m = Mux_Quic"
  "Dialer mux_dialers proto = Inr m \<longleftrightarrow>
     proto = Yamux \<and> m = Mux_Yamux \<or> proto = Mplex \<and> m = Mux_Mplex \<or> proto = QUIC \<and> m = Mux_Quic"
  by (auto simp: New_def Dialer_def mux_constructors_def mux_dialers_def RegisterConstructor_def RegisterDialer_def
      proto_defs split: if_splits)

lemma streamHandshake_iff:
  assumes "reader_contract Read"
  shows "streamHandshake Read conn = Some (conn', s) \<longleftrightarrow> delivered_link Read conn conn' s"
proof -
  obtain b err c where r: "Read LinkSize conn = (b, err, c)"
    by (metis prod_cases3)
  have "length b \<le> LinkSize"
    using assms r by (simp add: reader_contract_def) (metis fst_conv)
  then have pad: "copy_at 0 b (make_bytes LinkSize) = b @ replicate (LinkSize - length b) 0"
    by (simp add: copy_at_def make_bytes_def)
  have "Link_UnmarshalBinary MessagingLink (copy_at 0 b (make_bytes LinkSize)) = Inr s \<longleftrightarrow>
      Link_MarshalBinary s = copy_at 0 b (make_bytes LinkSize)" for s
    by (metis Link_Marshal_Unmarshal Link_Unmarshal_Marshal)
  with r pad show ?thesis
    by (auto simp: streamHandshake_def delivered_link_def read_into_def split: option.splits sum.splits)
      (metis Link_Unmarshal_Marshal sum.inject(2))
qed

section \<open>Properties\<close>

text \<open>C36: the end of a session, for all three implementations. On a constructed session the accept
  loop returns without a panic; when it returns because accepting failed, the session has
  announced its end (so that the server removes it) and a further \<^verbatim>\<open>Bye\<close> changes nothing;
  otherwise the session is as before. Every stream accepted until then was handed on.\<close>

theorem peer_session_end:
  assumes "mux_construct kind Session m config = Ret (Inr p)"
  shows "\<exists>q. Peer_Start ts p = Ret (accepted_conns ts, q) \<and>
    (if ends_in_error ts then Peer_NotifyClose q \<and> Peer_Bye q = Ret q else q = p \<and> \<not> Peer_NotifyClose q)"
proof -
  have "wf_peer p"
    using mux_construct_ok [OF assms] by simp
  then obtain q where "Start_loop Peer_Bye ts p = Ret (accepted_conns ts, q)"
    "ends_in_error ts \<Longrightarrow> Peer_NotifyClose q \<and> Peer_Bye q = Ret q" "\<not> ends_in_error ts \<Longrightarrow> q = p"
    using peer.start_ends [of p ts] by blast
  with mux_construct_ok [OF assms] show ?thesis
    by (auto simp: Peer_Start_loop)
qed

lemma peer_session_end_witness:
  "\<exists>p q. mux_construct (\<lambda>c. QuicSession) (\<lambda>i c. None) Mux_Quic
       \<lparr>cfg_Logger = Some (), cfg_Conn = Some 4, cfg_Peer = 9, cfg_Initiator = True, cfg_Wait = 0\<rparr> = Ret (Inr p) \<and>
     Peer_Start [Accepted (3 :: nat), AcceptError (Sentinel EOF)] (p :: nat Peer) = Ret ([3], q) \<and> Peer_NotifyClose q"
proof -
  let ?config = "\<lparr>cfg_Logger = Some (), cfg_Conn = Some 4, cfg_Peer = 9, cfg_Initiator = True, cfg_Wait = 0\<rparr>"
  obtain p :: "nat Peer" where p: "mux_construct (\<lambda>c. QuicSession) (\<lambda>i c. None) Mux_Quic ?config = Ret (Inr p)"
    by (simp add: NewQuicPeer_def Config_Validate_def type_assert_def)
  from peer_session_end [OF p, of "[Accepted (3 :: nat), AcceptError (Sentinel EOF)]"] p show ?thesis
    by auto
qed



text \<open>What the side that accepts a stream takes for its link, in all three implementations. It is
  the link whose image is the bytes delivered by one read, filled up with zeros: the link sent
  by \<^verbatim>\<open>Direct\<close> if the read delivered all 18 bytes, and a different one if it delivered fewer, the
  missing bytes then being taken for data.\<close>

theorem stream_handshake_exact:
  assumes "reader_contract Read"
  shows "(Yamux_streamHandshake Read y conn = Some (conn', s) \<longleftrightarrow> delivered_link Read conn conn' s) \<and>
    (Mplex_streamHandshake Read x conn = Some (mplex_wrap x conn', s) \<longleftrightarrow> delivered_link Read conn conn' s) \<and>
    (QUIC_streamHandshake Read q conn = Some (quic_wrap q conn', s) \<longleftrightarrow> delivered_link Read conn conn' s)"
  using streamHandshake_iff [OF assms]
  by (auto simp: Yamux_streamHandshake_def Mplex_streamHandshake_def QUIC_streamHandshake_def mplex_wrap_def quic_wrap_def)

lemma stream_handshake_exact_witness:
  "\<forall>y :: nat YamuxPeer.
     Yamux_streamHandshake duplex_Read y
       \<lparr>inbox = Link_MarshalBinary \<lparr>Source = 1, Destination = 2, Protocol = 0, ALPN = ALPN_Raw\<rparr> @ [7], outbox = []\<rparr> =
     Some (\<lparr>inbox = [7], outbox = []\<rparr>, \<lparr>Source = 1, Destination = 2, Protocol = 0, ALPN = ALPN_Raw\<rparr>) \<and>
     Yamux_streamHandshake (\<lambda>n. list_reader (min 16 n)) y
       (Link_MarshalBinary \<lparr>Source = 1, Destination = 2, Protocol = 0, ALPN = ALPN_Raw\<rparr>) =
     Some ([0, ALPN_Raw], \<lparr>Source = 1, Destination = 2, Protocol = 0, ALPN = ALPN_Unknown\<rparr>)"
proof (intro allI conjI)
  fix y :: "nat YamuxPeer"
  show "Yamux_streamHandshake duplex_Read y
      \<lparr>inbox = Link_MarshalBinary \<lparr>Source = 1, Destination = 2, Protocol = 0, ALPN = ALPN_Raw\<rparr> @ [7], outbox = []\<rparr> =
    Some (\<lparr>inbox = [7], outbox = []\<rparr>, \<lparr>Source = 1, Destination = 2, Protocol = 0, ALPN = ALPN_Raw\<rparr>)"
    by (subst stream_handshake_exact [THEN conjunct1]) (simp_all add: delivered_link_def duplex_Read_def list_reader_def)
  have "reader_contract (\<lambda>n. list_reader (min 16 n))"
    by (auto simp: reader_contract_def list_reader_def)
  then show "Yamux_streamHandshake (\<lambda>n. list_reader (min 16 n)) y
      (Link_MarshalBinary \<lparr>Source = 1, Destination = 2, Protocol = 0, ALPN = ALPN_Raw\<rparr>) =
    Some ([0, ALPN_Raw], \<lparr>Source = 1, Destination = 2, Protocol = 0, ALPN = ALPN_Unknown\<rparr>)"
    by (subst stream_handshake_exact [THEN conjunct1])
      (simp_all add: delivered_link_def list_reader_def wire LinkSize_def ALPN_Unknown_def numeral_2_eq_2)
qed

end
