(* ===== verification/Pipe.thy ===== *)
theory Pipe
  imports Net
begin

text \<open>
  Connecting two streams: \<^verbatim>\<open>multiplexer/pipe.go\<close> and \<^verbatim>\<open>util/reader.go\<close>. The copy loop is the
  standard library's \<^verbatim>\<open>io.CopyBuffer\<close>, which may never return; the goroutines of \<^verbatim>\<open>Connect\<close>
  are a step relation.
\<close>

section \<open>Time-outs\<close>

text \<open>The type assertion \<^verbatim>\<open>err.(net.Error)\<close> looks at the outermost error only.\<close>

definition IsTimeout :: "error \<Rightarrow> bool" where
  "IsTimeout err =
     (if errors_Is err DeadlineExceeded \<or> errors_Is err Yamux_ErrTimeout then True
      else case err of NetError t \<Rightarrow> t | _ \<Rightarrow> False)"

section \<open>Copying\<close>

definition bufferSize :: nat where
  "bufferSize = 8 * 1024"

text \<open>
  A reader that asks its context first. The state carries the number of reads made, and
  \<open>ctxErr k\<close> is what \<^verbatim>\<open>ctx.Err()\<close> gives at read number \<open>k\<close>.
\<close>

definition CtxReader :: "(nat \<Rightarrow> error option) \<Rightarrow> 'r reader \<Rightarrow> (nat \<times> 'r) reader" where
  "CtxReader ctxErr Read p kr =
     (case kr of (k, r) \<Rightarrow>
        case ctxErr k of
          Some err \<Rightarrow> ([], Some err, (Suc k, r))
        | None \<Rightarrow> (case Read p r of (b, err, r') \<Rightarrow> (b, err, (Suc k, r'))))"

text \<open>
  \<^verbatim>\<open>io.CopyBuffer\<close>, the loop it uses for a source that is no \<^verbatim>\<open>io.WriterTo\<close>: the count written,
  the error, the source and the destination. A loop that never returns is \<^const>\<open>None\<close>.
\<close>

partial_function (option) CopyBuffer ::
  "'r reader \<Rightarrow> 'w writer \<Rightarrow> nat \<Rightarrow> nat \<Rightarrow> 'r \<Rightarrow> 'w \<Rightarrow> (nat \<times> error option \<times> 'r \<times> 'w) option" where
  "CopyBuffer Read Write sz written src dst =
     (case Read sz src of (b, er, src) \<Rightarrow>
        if b = [] then
          (case er of
             Some e \<Rightarrow> Some (written, if e = Sentinel EOF then None else Some e, src, dst)
           | None \<Rightarrow> CopyBuffer Read Write sz written src dst)
        else
          (case Write b dst of (nw, ew, dst) \<Rightarrow>
             if length b < nw then
               Some (written, Some (case ew of None \<Rightarrow> Errorf ''invalid write result'' [] | Some e \<Rightarrow> e), src, dst)
             else
               (case ew of
                  Some e \<Rightarrow> Some (written + nw, Some e, src, dst)
                | None \<Rightarrow>
                  if length b \<noteq> nw then Some (written + nw, Some (Errorf ''short write'' []), src, dst)
                  else
                    (case er of
                       Some e \<Rightarrow> Some (written + nw, if e = Sentinel EOF then None else Some e, src, dst)
                     | None \<Rightarrow> CopyBuffer Read Write sz (written + nw) src dst))))"

text \<open>
  \<^verbatim>\<open>pipe\<close> in one direction: what it copied, the error it sends to the channel, and both
  connections, closed. The result is \<^const>\<open>None\<close> as long as the copy runs.
\<close>

definition pipe ::
  "(nat \<Rightarrow> error option) \<Rightarrow> 'r reader \<Rightarrow> 'w writer \<Rightarrow> 'w net_conn \<Rightarrow> 'r net_conn \<Rightarrow>
   (nat \<times> error option \<times> 'w net_conn \<times> 'r net_conn) option" where
  "pipe ctxErr Read Write dst src =
     (case CopyBuffer (CtxReader ctxErr (conn_Read Read)) (conn_Write Write) bufferSize 0 (0, src) dst of
        None \<Rightarrow> None
      | Some (n, err, (k, src), dst) \<Rightarrow> Some (n, err, conn_Close dst, conn_Close src))"

section \<open>The goroutines of \<^verbatim>\<open>Connect\<close>\<close>

text \<open>
  Two copies of \<^verbatim>\<open>pipe\<close> and the goroutine that waits for both. \<open>P_Copy\<close> is in \<^verbatim>\<open>CopyBuffer\<close>,
  whose outcome is up to the connections; then the source and the destination of the
  direction are closed, an error is sent, and \<^verbatim>\<open>wg.Done()\<close> runs.
\<close>

datatype pipe_pc = P_Copy | P_CloseSrc "error option" | P_CloseDst "error option" | P_Err error | P_Done

datatype waiter_pc = W_Waiting | W_Closing | W_Finished

record connect =
  fwd :: pipe_pc
  bwd :: pipe_pc
  waiter :: waiter_pc
  src_st :: lifecycle
  dst_st :: lifecycle
  errCh :: "error list"
  errCh_st :: lifecycle
  pipe_panic :: "panic option"

definition errCh_cap :: nat where
  "errCh_cap = 2"

definition Connect :: connect where
  "Connect = \<lparr>fwd = P_Copy, bwd = P_Copy, waiter = W_Waiting, src_st = Open, dst_st = Open,
     errCh = [], errCh_st = Open, pipe_panic = None\<rparr>"

definition after_close :: "error option \<Rightarrow> pipe_pc" where
  "after_close err = (case err of None \<Rightarrow> P_Done | Some e \<Rightarrow> P_Err e)"

text \<open>A send blocks on a full channel and panics on a closed one.\<close>

inductive connect_step :: "connect \<Rightarrow> connect \<Rightarrow> bool" where
  fwd_copied: "fwd S = P_Copy \<Longrightarrow> connect_step S (S\<lparr>fwd := P_CloseSrc err\<rparr>)"
| fwd_src: "fwd S = P_CloseSrc err \<Longrightarrow> connect_step S (S\<lparr>fwd := P_CloseDst err, src_st := Closed\<rparr>)"
| fwd_dst: "fwd S = P_CloseDst err \<Longrightarrow> connect_step S (S\<lparr>fwd := after_close err, dst_st := Closed\<rparr>)"
| fwd_err: "fwd S = P_Err e \<Longrightarrow> errCh_st S = Open \<Longrightarrow> length (errCh S) < errCh_cap \<Longrightarrow>
    connect_step S (S\<lparr>fwd := P_Done, errCh := errCh S @ [e]\<rparr>)"
| fwd_panic: "fwd S = P_Err e \<Longrightarrow> errCh_st S = Closed \<Longrightarrow> connect_step S (S\<lparr>pipe_panic := Some SendOnClosedChannel\<rparr>)"
| bwd_copied: "bwd S = P_Copy \<Longrightarrow> connect_step S (S\<lparr>bwd := P_CloseSrc err\<rparr>)"
| bwd_src: "bwd S = P_CloseSrc err \<Longrightarrow> connect_step S (S\<lparr>bwd := P_CloseDst err, dst_st := Closed\<rparr>)"
| bwd_dst: "bwd S = P_CloseDst err \<Longrightarrow> connect_step S (S\<lparr>bwd := after_close err, src_st := Closed\<rparr>)"
| bwd_err: "bwd S = P_Err e \<Longrightarrow> errCh_st S = Open \<Longrightarrow> length (errCh S) < errCh_cap \<Longrightarrow>
    connect_step S (S\<lparr>bwd := P_Done, errCh := errCh S @ [e]\<rparr>)"
| bwd_panic: "bwd S = P_Err e \<Longrightarrow> errCh_st S = Closed \<Longrightarrow> connect_step S (S\<lparr>pipe_panic := Some SendOnClosedChannel\<rparr>)"
| waited: "waiter S = W_Waiting \<Longrightarrow> fwd S = P_Done \<Longrightarrow> bwd S = P_Done \<Longrightarrow> connect_step S (S\<lparr>waiter := W_Closing\<rparr>)"
| close_err: "waiter S = W_Closing \<Longrightarrow> errCh_st S = Open \<Longrightarrow>
    connect_step S (S\<lparr>waiter := W_Finished, errCh_st := Closed\<rparr>)"
| close_twice: "waiter S = W_Closing \<Longrightarrow> errCh_st S = Closed \<Longrightarrow>
    connect_step S (S\<lparr>pipe_panic := Some CloseOfClosedChannel\<rparr>)"

text \<open>Runs by their number of steps.\<close>

inductive connect_steps :: "nat \<Rightarrow> connect \<Rightarrow> connect \<Rightarrow> bool" where
  none: "connect_steps 0 S S"
| more: "connect_steps n S T \<Longrightarrow> connect_step T U \<Longrightarrow> connect_steps (Suc n) S U"

definition finished :: "connect \<Rightarrow> bool" where
  "finished S =
     (fwd S = P_Done \<and> bwd S = P_Done \<and> waiter S = W_Finished \<and>
      src_st S = Closed \<and> dst_st S = Closed \<and> errCh_st S = Closed)"

section \<open>Specification of the copy\<close>

text \<open>The bytes that a source delivers until its first error, and the error.\<close>

inductive delivers :: "'r reader \<Rightarrow> nat \<Rightarrow> 'r \<Rightarrow> bytes \<Rightarrow> error \<Rightarrow> 'r \<Rightarrow> bool" for Read sz where
  last: "Read sz r = (b, Some e, r') \<Longrightarrow> delivers Read sz r b e r'"
| chunk: "Read sz r = (b, None, r1) \<Longrightarrow> delivers Read sz r1 bs e r' \<Longrightarrow> delivers Read sz r (b @ bs) e r'"

text \<open>A destination that accepts every write, \<open>content\<close> being what it has accepted.\<close>

definition accepts_all :: "'w writer \<Rightarrow> ('w \<Rightarrow> bytes) \<Rightarrow> bool" where
  "accepts_all Write content =
     (\<forall>b w. case Write b w of (n, err, w') \<Rightarrow> n = length b \<and> err = None \<and> content w' = content w @ b)"

text \<open>The invariant of \<^verbatim>\<open>Connect\<close> and the steps that are left.\<close>

fun pipe_left :: "pipe_pc \<Rightarrow> nat" where
  "pipe_left P_Copy = 4"
| "pipe_left (P_CloseSrc e) = 3"
| "pipe_left (P_CloseDst e) = 2"
| "pipe_left (P_Err e) = 1"
| "pipe_left P_Done = 0"

fun waiter_left :: "waiter_pc \<Rightarrow> nat" where
  "waiter_left W_Waiting = 2"
| "waiter_left W_Closing = 1"
| "waiter_left W_Finished = 0"

definition steps_left :: "connect \<Rightarrow> nat" where
  "steps_left S = pipe_left (fwd S) + pipe_left (bwd S) + waiter_left (waiter S)"

definition pipe_errs :: "pipe_pc \<Rightarrow> nat" where
  "pipe_errs pc = (if pc = P_Done then 1 else 0)"

definition past_src :: "pipe_pc \<Rightarrow> bool" where
  "past_src pc = (pipe_left pc \<le> 2)"

definition past_dst :: "pipe_pc \<Rightarrow> bool" where
  "past_dst pc = (pipe_left pc \<le> 1)"

definition connect_inv :: "connect \<Rightarrow> bool" where
  "connect_inv S =
     (pipe_panic S = None \<and>
      (errCh_st S = Closed \<longleftrightarrow> waiter S = W_Finished) \<and>
      (waiter S \<noteq> W_Waiting \<longrightarrow> fwd S = P_Done \<and> bwd S = P_Done) \<and>
      length (errCh S) \<le> pipe_errs (fwd S) + pipe_errs (bwd S) \<and>
      (src_st S = Closed \<longleftrightarrow> past_src (fwd S) \<or> past_dst (bwd S)) \<and>
      (dst_st S = Closed \<longleftrightarrow> past_dst (fwd S) \<or> past_src (bwd S)))"

section \<open>Lemmas\<close>

lemma after_close_left [simp]:
  "pipe_left (after_close e) \<le> 1" "past_src (after_close e)" "past_dst (after_close e)"
  by (cases e; simp add: after_close_def past_src_def past_dst_def)+

lemma past_simps [simp]:
  "\<not> past_src P_Copy" "\<not> past_src (P_CloseSrc e)" "past_src (P_CloseDst e)" "past_src (P_Err x)" "past_src P_Done"
  "\<not> past_dst P_Copy" "\<not> past_dst (P_CloseSrc e)" "\<not> past_dst (P_CloseDst e)" "past_dst (P_Err x)" "past_dst P_Done"
  by (simp_all add: past_src_def past_dst_def)

lemma pipe_errs_simps [simp]:
  "pipe_errs P_Copy = 0" "pipe_errs (P_CloseSrc e) = 0" "pipe_errs (P_CloseDst e) = 0" "pipe_errs (P_Err x) = 0"
  "pipe_errs P_Done = 1"
  by (simp_all add: pipe_errs_def)

lemma connect_inv_step: "connect_step S T \<Longrightarrow> connect_inv S \<Longrightarrow> connect_inv T"
  by (induction rule: connect_step.induct) (auto simp: connect_inv_def)

lemma steps_left_step: "connect_step S T \<Longrightarrow> connect_inv S \<Longrightarrow> steps_left T < steps_left S"
  by (induction rule: connect_step.induct)
    (auto simp: steps_left_def connect_inv_def intro: le_less_trans [OF after_close_left(1)])

lemma connect_inv_Connect: "connect_inv Connect" "steps_left Connect = 10"
  by (simp_all add: Connect_def connect_inv_def steps_left_def)

lemma connect_steps_bound:
  "connect_steps n Connect S \<Longrightarrow> connect_inv S \<and> n + steps_left S \<le> 10"
proof (induction n Connect S rule: connect_steps.induct)
  case none
  then show ?case by (simp add: connect_inv_Connect)
next
  case (more n T U)
  then show ?case
    using connect_inv_step [of T U] steps_left_step [of T U] by simp
qed

lemma connect_progress:
  assumes "connect_inv S" and "\<not> finished S"
  shows "\<exists>T. connect_step S T"
proof -
  have cap: "length (errCh S) < errCh_cap" "errCh_st S = Open" if "fwd S = P_Err e \<or> bwd S = P_Err e" for e
    using assms(1) that by (cases "errCh_st S"; auto simp: connect_inv_def errCh_cap_def pipe_errs_def split: if_splits)+
  show ?thesis
  proof (cases "fwd S = P_Done \<and> bwd S = P_Done")
    case True
    with assms show ?thesis
      by (cases "waiter S") (auto simp: connect_inv_def finished_def intro: connect_step.intros)
  next
    case False
    then show ?thesis
      using cap by (cases "fwd S"; cases "bwd S") (auto intro: connect_step.intros, blast intro: connect_step.fwd_err)
  qed
qed

text \<open>The copy loop returns when the source does, having moved every byte.\<close>

lemma CopyBuffer_delivers:
  assumes "delivers Read sz r bs e r'" and "accepts_all Write content"
  shows "\<exists>w'. CopyBuffer Read Write sz n r w =
      Some (n + length bs, if e = Sentinel EOF then None else Some e, r', w') \<and> content w' = content w @ bs"
  using assms(1)
proof (induction arbitrary: n w rule: delivers.induct)
  case (last r b e r')
  obtain m err w' where w: "Write b w = (m, err, w')"
    by (metis prod_cases3)
  with assms(2) have "m = length b" "err = None" "content w' = content w @ b"
    by (auto simp: accepts_all_def split: prod.splits)
  with last w show ?case
    by (subst CopyBuffer.simps) auto
next
  case (chunk r b r1 bs e r')
  obtain m err w' where w: "Write b w = (m, err, w')"
    by (metis prod_cases3)
  with assms(2) have "m = length b" "err = None" "content w' = content w @ b"
    by (auto simp: accepts_all_def split: prod.splits)
  with chunk.hyps(1) w chunk.IH [of "n + length b" w'] chunk.IH [of n w] show ?case
    by (subst CopyBuffer.simps) (auto simp: add.assoc)
qed

lemma delivers_conn:
  assumes "delivers Read sz r bs e r'"
  shows "delivers (conn_Read Read) sz (c\<lparr>dev := r\<rparr>) bs e (c\<lparr>dev := r'\<rparr>)"
  using assms
proof (induction rule: delivers.induct)
  case (last r b e r')
  then show ?case
    by (intro delivers.last) (simp add: conn_Read_def)
next
  case (chunk r b r1 bs e r')
  then have "conn_Read Read sz (c\<lparr>dev := r\<rparr>) = (b, None, c\<lparr>dev := r1\<rparr>)"
    by (simp add: conn_Read_def)
  with chunk.IH show ?case
    by (rule delivers.chunk [rotated])
qed

lemma delivers_ctx:
  assumes "delivers Read sz r bs e r'"
  shows "\<exists>k'. delivers (CtxReader (\<lambda>_. None) Read) sz (k, r) bs e (k', r')"
  using assms
proof (induction arbitrary: k rule: delivers.induct)
  case (last r b e r')
  then have "CtxReader (\<lambda>_. None) Read sz (k, r) = (b, Some e, (Suc k, r'))"
    by (simp add: CtxReader_def)
  then show ?case
    by (blast intro: delivers.last)
next
  case (chunk r b r1 bs e r')
  then have "CtxReader (\<lambda>_. None) Read sz (k, r) = (b, None, (Suc k, r1))"
    by (simp add: CtxReader_def)
  with chunk.IH [of "Suc k"] show ?case
    by (blast intro: delivers.chunk)
qed

lemma accepts_all_conn: "accepts_all Write content \<Longrightarrow> accepts_all (conn_Write Write) (content \<circ> dev)"
  by (auto simp: accepts_all_def conn_Write_def split: prod.splits)

lemma delivers_list_reader: "delivers list_reader (Suc n) bs bs (Sentinel EOF) []"
proof (induction bs rule: length_induct)
  case (1 bs)
  show ?case
  proof (cases "bs = []")
    case True
    then show ?thesis
      by (intro delivers.last) (simp add: list_reader_def)
  next
    case False
    then have r: "list_reader (Suc n) bs = (take (Suc n) bs, None, drop (Suc n) bs)"
      by (simp add: list_reader_def)
    have "delivers list_reader (Suc n) (drop (Suc n) bs) (drop (Suc n) bs) (Sentinel EOF) []"
      using 1 False by simp
    from delivers.chunk [of list_reader, OF r this] show ?thesis
      by simp
  qed
qed

section \<open>Properties\<close>



text \<open>C10: \<^verbatim>\<open>Connect\<close> terminates once both copies return, in every interleaving: no run has more than
  ten steps, no goroutine panics or waits for ever, and when nothing more can happen both
  connections are closed and the error channel is closed, holding at most two errors.\<close>

theorem connect_terminates:
  assumes "connect_steps n Connect S"
  shows "n \<le> 10 \<and> pipe_panic S = None \<and> length (errCh S) \<le> errCh_cap \<and>
    ((\<nexists>T. connect_step S T) \<longrightarrow> finished S)"
proof -
  have inv: "connect_inv S" and bound: "n + steps_left S \<le> 10"
    using connect_steps_bound [OF assms] by simp_all
  moreover have "length (errCh S) \<le> errCh_cap"
    using inv by (auto simp: connect_inv_def errCh_cap_def pipe_errs_def split: if_splits)
  ultimately show ?thesis
    using connect_progress [OF inv] by (auto simp: connect_inv_def)
qed

lemma connect_terminates_witness:
  "\<exists>S. connect_steps 2 Connect S \<and> src_st S = Closed \<and> pipe_panic S = None"
proof -
  let ?S1 = "Connect\<lparr>fwd := P_CloseSrc None\<rparr>"
  let ?S2 = "?S1\<lparr>fwd := P_CloseDst None, src_st := Closed\<rparr>"
  have "connect_step Connect ?S1" "connect_step ?S1 ?S2"
    by (rule connect_step.fwd_copied connect_step.fwd_src; simp add: Connect_def)+
  then have S: "connect_steps 2 Connect ?S2"
    using connect_steps.none connect_steps.more by (metis Suc_1 One_nat_def)
  from connect_terminates [OF this] S show ?thesis
    by (intro exI [of _ ?S2]) simp
qed

end
