(* ===== verification/Client.thy ===== *)
theory Client
  imports Handshake Mux_Peers Pipe
begin

text \<open>
  The client program: package \<^verbatim>\<open>client\<close>. \<^verbatim>\<open>Tunnel\<close> discovers the server, shakes hands with it,
  registers the session and dispatches the streams it is given; \<^verbatim>\<open>Connect\<close> and \<^verbatim>\<open>Forward\<close> reach
  a tunnel from the visitor's side. \<^verbatim>\<open>logger.Fatal\<close> ends the process: it is the result
  \<open>Fatal\<close> with its message; a nil dereference is \<open>Crash\<close>. Parsing of addresses, HTTP and dialling are arguments.
\<close>

datatype 'a exit = Fatal string | Crash | Running 'a

section \<open>Addresses (package \<^verbatim>\<open>net/url\<close>)\<close>

record URL =
  url_Scheme :: string
  url_Host :: string

text \<open>\<^verbatim>\<open>splitHostPort\<close>: a port is what follows the last colon, if it has only digits.\<close>

definition splitHostPort :: "string \<Rightarrow> string \<times> string" where
  "splitHostPort hostPort =
     (let p = takeWhile (\<lambda>c. c \<noteq> CHR '':'') (rev hostPort);
          (host, port) = (if length p < length hostPort \<and> list_all is_digit p
                          then (take (length hostPort - Suc (length p)) hostPort, rev p) else (hostPort, ''''));
          host = (if host \<noteq> [] \<and> hd host = CHR ''['' \<and> last host = CHR '']'' then butlast (tl host) else host)
      in (host, port))"

definition URL_Hostname :: "URL \<Rightarrow> string" where
  "URL_Hostname u = fst (splitHostPort (url_Host u))"

definition URL_Port :: "URL \<Rightarrow> string" where
  "URL_Port u = snd (splitHostPort (url_Host u))"

section \<open>Negotiation\<close>

definition GeneratedName_of_json :: "json \<Rightarrow> string option" where
  "GeneratedName_of_json v = (if is_struct v then str_field v ''Hostname'' else None)"

definition client_hello :: "Protocol \<Rightarrow> Link" where
  "client_hello proto = \<lparr>Source = 0, Destination = 0, Protocol = proto, ALPN = ALPN_Multiplexer\<rparr>"

text \<open>
  The link and the host name, beside them what the decoder has read beyond the name, and the
  connection. The reply is read into the buffer that held the greeting, and the number of bytes
  read is ignored. \<^const>\<open>None\<close> is a decoder that waits for ever.
\<close>

definition client_peerNegotiation ::
  "'c reader \<Rightarrow> 'c writer \<Rightarrow> Protocol \<Rightarrow> 'c \<Rightarrow> (Link \<times> string \<times> bytes \<times> 'c) exit option" where
  "client_peerNegotiation Read Write proto connector =
     (let link = client_hello proto;
          buf = Link_MarshalBinary link in
      case Write buf connector of
        (n, Some err, connector) \<Rightarrow> Some (Fatal ''writing handshake to peer'')
      | (n, None, connector) \<Rightarrow>
        if n \<noteq> LinkSize then Some (Fatal ''invalid handshake length sent'')
        else
          (case Read (length buf) connector of
             (b, Some err, connector) \<Rightarrow> Some (Fatal ''reading handshake from peer'')
           | (b, None, connector) \<Rightarrow>
             (case Link_UnmarshalBinary link (copy_at 0 b buf) of
                Inl err \<Rightarrow> Some (Fatal ''unmarshal link'')
              | Inr link \<Rightarrow>
                (case Decoder_Decode Read [] connector of
                   None \<Rightarrow> None
                 | Some (Inl err) \<Rightarrow> Some (Fatal ''unmarshaling generated name response'')
                 | Some (Inr (v, rest, connector)) \<Rightarrow>
                   (case GeneratedName_of_json v of
                      None \<Rightarrow> Some (Fatal ''unmarshaling generated name response'')
                    | Some hostname \<Rightarrow> Some (Running (link, hostname, rest, connector)))))))"

section \<open>The tunnel\<close>

record TunnelOpts =
  to_AppName :: string
  to_Forward :: string
  to_Where :: string
  to_Proto :: int
  to_Debug :: bool
  to_Overwrite :: bool
  to_Version :: string
  to_Concise :: bool

text \<open>
  The world of the client: \<^verbatim>\<open>url.Parse\<close>, an HTTP request (status and body), the dialers, and the
  sessions. The first argument of a request, and the second of a dial, is \<^verbatim>\<open>InsecureSkipVerify\<close> of
  its TLS configuration.
\<close>

record ('c, 'p) tunnel_env =
  te_Parse :: "string \<Rightarrow> error + URL"
  te_Get :: "bool \<Rightarrow> string \<Rightarrow> error + nat \<times> bytes"
  te_Dial :: "mux \<Rightarrow> bool \<Rightarrow> string \<Rightarrow> error + nat \<times> 'c"
  te_sessions :: "(mux, 'p) session_env"

definition Where_json :: "string \<Rightarrow> nat \<Rightarrow> json" where
  "Where_json addr port = JObj [(''Addr'', JStr addr), (''Port'', JNum port)]"

text \<open>A number that is no \<^verbatim>\<open>int\<close> is refused.\<close>

definition Where_of_json :: "json \<Rightarrow> (string \<times> nat) option" where
  "Where_of_json v =
     (if is_struct v then
        (case (str_field v ''Addr'', json_field v ''Port'') of
           (Some a, None) \<Rightarrow> Some (a, 0)
         | (Some a, Some JNull) \<Rightarrow> Some (a, 0)
         | (Some a, Some (JNum n)) \<Rightarrow> if n < 2 ^ 63 then Some (a, n) else None
         | _ \<Rightarrow> None)
      else None)"

definition discover :: "('c, 'p) tunnel_env \<Rightarrow> bool \<Rightarrow> string \<Rightarrow> string exit option" where
  "discover te debug where =
     (case te_Get te debug (''https://'' @ where @ ''/where'') of
        Inl err \<Rightarrow> Some (Fatal ''auto discovering peer'')
      | Inr (status, body) \<Rightarrow>
        if status \<noteq> 200 then Some (Fatal ''auto discovering returns non-200 response code'')
        else
          (case Decoder_Decode list_reader [] body of
             None \<Rightarrow> None
           | Some (Inl err) \<Rightarrow> Some (Fatal ''cannot recode auto discovering result'')
           | Some (Inr (v, rest, r)) \<Rightarrow>
             (case Where_of_json v of
                None \<Rightarrow> Some (Fatal ''cannot recode auto discovering result'')
              | Some (addr, port) \<Rightarrow> Some (Running (addr @ '':'' @ itoa port)))))"

definition tunnel_config :: "nat \<Rightarrow> u64 \<Rightarrow> Config" where
  "tunnel_config connector peer =
     \<lparr>cfg_Logger = Some (), cfg_Conn = Some connector, cfg_Peer = peer, cfg_Initiator = True, cfg_Wait = 0\<rparr>"

text \<open>
  \<^verbatim>\<open>Tunnel\<close> until its goroutines start: the target, the link, the host name, the header for
  requests, the session and the table of sessions. \<^verbatim>\<open>protocol.Protocol(opts.Proto)\<close> keeps eight
  bits; an empty notification channel is a wait that times out; the address of the tunnel is
  parsed without a look at the error, so that \<^verbatim>\<open>tunnelURL.Host\<close> may be taken of \<^verbatim>\<open>nil\<close>.
\<close>

definition Tunnel ::
  "('c, 'p) tunnel_env \<Rightarrow> 'c reader \<Rightarrow> 'c writer \<Rightarrow> TunnelOpts \<Rightarrow>
   (URL \<times> Link \<times> string \<times> string \<times> 'p \<times> 'p PeerMap) exit option" where
  "Tunnel te Read Write opts =
     (case te_Parse te (to_Forward opts) of
        Inl err \<Rightarrow> Some (Fatal ''parsing forwarding target'')
      | Inr u \<Rightarrow>
        if url_Scheme u \<notin> {''http'', ''https'', ''tcp''}
        then Some (Fatal ''unsupported scheme. valid schemes: http, https, tcp'')
        else
          (case discover te (to_Debug opts) (to_Where opts) of
             None \<Rightarrow> None
           | Some (Fatal msg) \<Rightarrow> Some (Fatal msg)
           | Some Crash \<Rightarrow> Some Crash
           | Some (Running peerTarget) \<Rightarrow>
             let proposedProtocol = word_of_int (to_Proto opts) in
             (case Dialer mux_dialers proposedProtocol of
                Inl err \<Rightarrow> Some (Fatal ''selecting peer dialer'')
              | Inr dialer \<Rightarrow>
                (case te_Dial te dialer (to_Debug opts) peerTarget of
                   Inl err \<Rightarrow> Some (Fatal ''connecting to peer'')
                 | Inr (connector, conn) \<Rightarrow>
                   (case client_peerNegotiation Read Write proposedProtocol conn of
                      None \<Rightarrow> None
                    | Some (Fatal msg) \<Rightarrow> Some (Fatal msg)
                    | Some Crash \<Rightarrow> Some Crash
                    | Some (Running (link, hostname, rest, conn)) \<Rightarrow>
                      (case env_NewPeer (te_sessions te) (NewPeerMap (Source link)) (Protocol link)
                              (tunnel_config connector (Destination link)) of
                         (Some err, pm) \<Rightarrow> Some (Fatal ''registering peer'')
                       | (None, pm) \<Rightarrow>
                         (case pm_notify pm of
                            [] \<Rightarrow> Some (Fatal ''timeout attempting to establish connection with peer'')
                          | p # ps \<Rightarrow>
                            let pm = pm\<lparr>pm_notify := ps\<rparr> in
                            if \<not> to_Overwrite opts then Some (Running (u, link, hostname, url_Host u, p, pm))
                            else
                              (case te_Parse te hostname of
                                 Inl err \<Rightarrow> Some Crash
                               | Inr tunnelURL \<Rightarrow> Some (Running (u, link, hostname, url_Host tunnelURL, p, pm))))))))))"

section \<open>Streams\<close>

definition alpnCheck :: "ALPN \<Rightarrow> URL \<Rightarrow> bool" where
  "alpnCheck a u =
     (if url_Scheme u = ''http'' \<or> url_Scheme u = ''https'' then a = ALPN_HTTP
      else if url_Scheme u = ''tcp'' then a = ALPN_Raw
      else False)"

text \<open>One turn of the loop over \<^verbatim>\<open>p.Handle()\<close>; \<open>Dial\<close> is the outcome of dialling the target.\<close>

datatype 'n stream_action = CloseStream | ServeHTTP | Exit | ConnectTo 'n

definition handle_stream :: "(string \<Rightarrow> error + 'n) \<Rightarrow> URL \<Rightarrow> Link \<Rightarrow> 'n stream_action" where
  "handle_stream Dial u link =
     (if \<not> alpnCheck (ALPN link) u then CloseStream
      else if ALPN link = ALPN_Multiplexer then Exit
      else if ALPN link = ALPN_Raw then
        (case Dial (URL_Hostname u @ '':'' @ URL_Port u) of
           Inl err \<Rightarrow> CloseStream
         | Inr n \<Rightarrow> ConnectTo n)
      else ServeHTTP)"

text \<open>\<^verbatim>\<open>httpAccepter.Accept\<close> on the next element of its channel; a closed channel gives \<^verbatim>\<open>nil\<close>.\<close>

definition client_Accept :: "'c option \<Rightarrow> error + 'c" where
  "client_Accept c = (case c of None \<Rightarrow> Inl (Sentinel EOF) | Some c \<Rightarrow> Inr c)"

section \<open>The visitor's side\<close>

record ConnectOpts =
  co_URL :: string
  co_Debug :: bool

record ForwardOpts =
  fo_URL :: string
  fo_Addr :: string
  fo_Debug :: bool

text \<open>What \<^verbatim>\<open>getConn\<close> dials: the address, and of the TLS configuration \<^verbatim>\<open>InsecureSkipVerify\<close> and the ALPN names.\<close>

definition getConn :: "bool \<Rightarrow> URL \<Rightarrow> string \<times> bool \<times> string list" where
  "getConn debug u =
     (let port = (if URL_Port u = '''' then ''443'' else URL_Port u)
      in (URL_Hostname u @ '':'' @ port, debug, [ALPN_String ALPN_Raw]))"

text \<open>\<^verbatim>\<open>Connect\<close>: the connection it copies to and from; a copy ends the process only with an error.\<close>

definition client_Connect ::
  "(string \<Rightarrow> error + URL) \<Rightarrow> (string \<times> bool \<times> string list \<Rightarrow> error + 'n) \<Rightarrow> ConnectOpts \<Rightarrow> 'n exit" where
  "client_Connect Parse Dial opts =
     (case Parse (co_URL opts) of
        Inl err \<Rightarrow> Fatal ''parsing gateway target''
      | Inr u \<Rightarrow>
        if url_Scheme u \<noteq> ''https'' then Fatal ''unsupported scheme. valid schemes: https''
        else (case Dial (getConn (co_Debug opts) u) of
                Inl err \<Rightarrow> Fatal ''connecting to gateway'' | Inr conn \<Rightarrow> Running conn))"

definition copy_signals :: "error option \<Rightarrow> bool" where
  "copy_signals err = (err \<noteq> None)"

text \<open>\<^verbatim>\<open>Forward\<close>: the checks before listening, and what happens to one accepted connection.\<close>

definition client_Forward ::
  "(string \<Rightarrow> error + URL) \<Rightarrow> (string \<Rightarrow> error + 'l) \<Rightarrow> ForwardOpts \<Rightarrow> (URL \<times> 'l) exit" where
  "client_Forward Parse Listen opts =
     (case Parse (fo_URL opts) of
        Inl err \<Rightarrow> Fatal ''parsing gateway target''
      | Inr u \<Rightarrow>
        if url_Scheme u \<noteq> ''https'' then Fatal ''unsupported scheme. valid schemes: https''
        else (case Listen (fo_Addr opts) of Inl err \<Rightarrow> Fatal ''listening for connections'' | Inr l \<Rightarrow> Running (u, l)))"

definition forward_conn :: "(string \<times> bool \<times> string list \<Rightarrow> error + 'n) \<Rightarrow> bool \<Rightarrow> URL \<Rightarrow> 'n stream_action" where
  "forward_conn Dial debug u =
     (case Dial (getConn debug u) of Inl err \<Rightarrow> CloseStream | Inr rConn \<Rightarrow> ConnectTo rConn)"

section \<open>Example\<close>

text \<open>A world with one server, number 7, that calls the client 3; sessions are numbers.\<close>

definition plain_reply :: duplex where
  "plain_reply =
     \<lparr>inbox = Link_MarshalBinary \<lparr>Source = 3, Destination = 7, Protocol = Yamux, ALPN = ALPN_Multiplexer\<rparr> @
        string_bytes (json_Encode (GeneratedName_json ''https://a-b.x.y'')), outbox = []\<rparr>"

definition plain_tunnel :: "(duplex, nat) tunnel_env" where
  "plain_tunnel =
     \<lparr>te_Parse = (\<lambda>s. Inr \<lparr>url_Scheme = ''tcp'', url_Host = ''h:22''\<rparr>),
      te_Get = (\<lambda>skip s. Inr (200, string_bytes (json_Encode (Where_json ''x'' 1)))),
      te_Dial = (\<lambda>m skip addr. Inr (5, plain_reply)),
      te_sessions = \<lparr>reg = mux_constructors, construct = (\<lambda>c conf. Inr (the (cfg_Conn conf))), closes = (\<lambda>p. False)\<rparr>\<rparr>"

definition plain_opts :: "int \<Rightarrow> TunnelOpts" where
  "plain_opts proto =
     \<lparr>to_AppName = ''t'', to_Forward = ''tcp://h:22'', to_Where = ''x.y'', to_Proto = proto, to_Debug = False,
      to_Overwrite = False, to_Version = ''dev'', to_Concise = False\<rparr>"

section \<open>Lemmas\<close>

lemma GeneratedName_json_inverse [simp]: "GeneratedName_of_json (GeneratedName_json h) = Some h"
  by (simp add: GeneratedName_of_json_def GeneratedName_json_def is_struct_def str_field_def json_field_def)

lemma Where_json_inverse [simp]: "port < 2 ^ 63 \<Longrightarrow> Where_of_json (Where_json addr port) = Some (addr, port)"
  by (simp add: Where_of_json_def Where_json_def is_struct_def str_field_def json_field_def)

lemma json_Decode_empty [simp]: "json_Decode (bytes_string []) = None"
  by (simp add: json_Decode_def bytes_string_def skip_ws_def)

text \<open>A value and what follows it, within one chunk: the decoder takes both.\<close>

lemma Decoder_Decode_duplex:
  assumes "inbox d = string_bytes (json_Encode v) @ extra" and "length (inbox d) \<le> 512"
  shows "Decoder_Decode duplex_Read [] d = Some (Inr (v, 10 # extra, d\<lparr>inbox := []\<rparr>))"
proof -
  have "string_bytes (CHR 0x0A # bytes_string extra) = 10 # extra"
    by (simp add: string_bytes_Cons)
  moreover have "Decoder_Decode duplex_Read [] d =
      Some (Inr (v, string_bytes (CHR 0x0A # bytes_string extra), d\<lparr>inbox := []\<rparr>))"
  proof (rule Decoder_Decode_one_read [of _ _ "inbox d"])
    show "json_Decode (bytes_string []) = None"
      by simp
    show "duplex_Read 512 d = (inbox d, None, d\<lparr>inbox := []\<rparr>)"
      using assms by (auto simp: duplex_Read_def list_reader_def json_Encode_def string_bytes_Cons)
    show "json_Decode (bytes_string (inbox d)) = Some (v, CHR 0x0A # bytes_string extra)"
      using assms by (simp add: json_Decode_Encode)
  qed
  ultimately show ?thesis
    by simp
qed

text \<open>The client's half of the handshake, on the reply of a server.\<close>

lemma client_peerNegotiation_reply:
  assumes "inbox d = Link_MarshalBinary link @ string_bytes (json_Encode (GeneratedName_json hostname)) @ extra"
    and "length (inbox d) \<le> LinkSize + 512"
  shows "client_peerNegotiation duplex_Read duplex_Write proto d =
    Some (Running (link, hostname, 10 # extra,
      d\<lparr>inbox := [], outbox := outbox d @ Link_MarshalBinary (client_hello proto)\<rparr>))"
  using assms
  by (simp add: client_peerNegotiation_def Let_def duplex_Write_def duplex_Read_def list_reader_def copy_at_all
      Decoder_Decode_duplex [of _ "GeneratedName_json hostname" extra])

text \<open>What is known once \<^verbatim>\<open>Tunnel\<close> has its session.\<close>

lemma Tunnel_sound:
  assumes "Tunnel te Read Write opts = Some (Running (u, link, hostname, hostHeader, p, pm))"
  shows "url_Scheme u \<in> {''http'', ''https'', ''tcp''}"
    and "pm_peers pm = [Destination link \<mapsto> p]" and "pm_notify pm = []" and "pm_num pm = 1"
    and "\<not> closes (te_sessions te) p"
  using assms
  by (auto simp: Tunnel_def Let_def env_NewPeer_None_iff PM_register_def PM_Notify_def PM_Count_def PM_Store_def
      NewPeerMap_def tunnel_config_def split: sum.splits if_splits option.splits exit.splits prod.splits list.splits)

lemma Decoder_Decode_list:
  assumes "length (json_Encode v) \<le> 512"
  shows "Decoder_Decode list_reader [] (string_bytes (json_Encode v)) = Some (Inr (v, [10], []))"
proof -
  have "Decoder_Decode list_reader [] (string_bytes (json_Encode v)) = Some (Inr (v, string_bytes [CHR 0x0A], []))"
  proof (rule Decoder_Decode_one_read)
    show "json_Decode (bytes_string []) = None"
      by simp
    show "list_reader 512 (string_bytes (json_Encode v)) = (string_bytes (json_Encode v), None, [])"
      using assms by (auto simp: list_reader_def json_Encode_def string_bytes_Cons)
    show "json_Decode (bytes_string (string_bytes (json_Encode v))) = Some (v, [CHR 0x0A])"
      using json_Decode_Encode [of v "[]"] by simp
  qed
  then show ?thesis
    by (simp add: string_bytes_Cons string_bytes_def)
qed

text \<open>An answer of the discovery service that fits the decoder's chunk gives the address in it.\<close>

lemma discover_ok:
  assumes "te_Get te debug (''https://'' @ wh @ ''/where'') = Inr (200, string_bytes (json_Encode (Where_json addr port)))"
    and "length (json_Encode (Where_json addr port)) \<le> 512" and "port < 2 ^ 63"
  shows "discover te debug wh = Some (Running (addr @ '':'' @ itoa port))"
  using assms by (simp add: discover_def Decoder_Decode_list)

lemma word_of_int_byte:
  "word_of_int i = (1 :: byte) \<longleftrightarrow> i mod 256 = 1" "word_of_int i = (2 :: byte) \<longleftrightarrow> i mod 256 = 2"
  "word_of_int i = (3 :: byte) \<longleftrightarrow> i mod 256 = 3"
  by (simp_all add: word_uint_eq_iff uint_word_of_int)

lemma plain_tunnel_discovers: "discover plain_tunnel False ''x.y'' = Some (Running (''x'' @ '':'' @ itoa 1))"
proof -
  have "length (json_Encode (Where_json ''x'' 1)) \<le> 512"
    by code_simp
  then show ?thesis
    by (intro discover_ok) (simp_all add: plain_tunnel_def)
qed

lemma plain_tunnel_runs:
  "\<exists>p pm. Tunnel plain_tunnel duplex_Read duplex_Write
       (plain_opts 1) =
     Some (Running (\<lparr>url_Scheme = ''tcp'', url_Host = ''h:22''\<rparr>,
       \<lparr>Source = 3, Destination = 7, Protocol = Yamux, ALPN = ALPN_Multiplexer\<rparr>, ''https://a-b.x.y'', ''h:22'', p, pm))"
proof -
  let ?l = "\<lparr>Source = 3, Destination = 7, Protocol = Yamux, ALPN = ALPN_Multiplexer\<rparr> :: Link"
  note plain_tunnel_discovers
  moreover have "length (json_Encode (GeneratedName_json ''https://a-b.x.y'')) \<le> 512"
    by code_simp
  then have "client_peerNegotiation duplex_Read duplex_Write Yamux plain_reply =
      Some (Running (?l, ''https://a-b.x.y'', 10 # [], plain_reply\<lparr>inbox := [], outbox := outbox plain_reply @ Link_MarshalBinary (client_hello Yamux)\<rparr>))"
    by (intro client_peerNegotiation_reply) (simp_all add: plain_reply_def)
  moreover have "Dialer mux_dialers 1 = Inr Mux_Yamux" "New mux_constructors Yamux = Inr Mux_Yamux"
    by (auto simp: mux_registered proto_defs)
  ultimately show ?thesis
    by (simp add: Tunnel_def plain_tunnel_def plain_opts_def Let_def env_NewPeer_def PM_NewPeer_def PM_register_def PM_Notify_def
        PM_Count_def PM_Store_def NewPeerMap_def Yamux_def)
qed

lemma plain_client_admitted:
  obtains s' conn' where "clientNegotiation plain_sessions duplex_Read duplex_Write (\<lambda>n. Inr [''a'', ''b'']) 0 5 QUICProtos plain_server
      (net_conn_of \<lparr>inbox = Link_MarshalBinary (client_hello QUIC), outbox = []\<rparr>) = (None, s', conn')"
proof -
  let ?G = "\<lambda>n :: nat. Inr [''a'', ''b''] :: error + string list"
  let ?conn = "net_conn_of \<lparr>inbox = Link_MarshalBinary (client_hello QUIC), outbox = []\<rparr>"
  let ?w = "Link_MarshalBinary ((client_hello QUIC)\<lparr>Source := PeerHash ''a-b'', Destination := srv_id plain_server\<rparr>)"
  let ?j = "string_bytes (json_Encode (GeneratedName_json (''https://'' @ ''a-b'' @ ''.'' @ srv_Domain plain_server)))"
  have name: "''a-b'' = RandomHostname ?G"
    by (simp add: RandomHostname_def)
  have "\<exists>s' conn'. clientNegotiation plain_sessions duplex_Read duplex_Write ?G 0 5 QUICProtos plain_server ?conn = (None, s', conn')"
    using clientNegotiation_ok [of duplex_Read ?conn "client_hello QUIC" "\<lparr>inbox = [], outbox = []\<rparr>" QUICProtos plain_sessions "()"
        "''a-b''" ?G duplex_Write plain_server "\<lparr>inbox = [], outbox = ?w\<rparr>" "length ?j" "\<lparr>inbox = [], outbox = ?w @ ?j\<rparr>" 5 5 0]
    by (simp add: name [symmetric] client_hello_def QUICProtos_def New_Inr_iff plain_sessions_def proto_defs plain_server_def
        NewPeerMap_def responder_config_def duplex_Write_def duplex_Read_def list_reader_def net_conn_of_def)
  then show ?thesis
    using that by blast
qed

section \<open>Properties\<close>

text \<open>C7: the two ends of the first handshake agree. If a server ends its negotiation with a
client without an error on the greeting that the client sends, and the reply with what follows
it fits the decoder's chunk, then the client's negotiation succeeds: the identifier it takes as
its own is the one the server has registered its session under, the peer it takes is the server,
and the address it shows carries the name whose hash that identifier is and the server's domain.
Whatever follows the reply on the connection is swallowed by the decoder.\<close>

lemma client_server_agree:
  assumes srv: "clientNegotiation e duplex_Read duplex_Write Generate now connector protos s
      (net_conn_of \<lparr>inbox = Link_MarshalBinary (client_hello proto), outbox = []\<rparr>) = (None, s', conn')"
    and name: "name = RandomHostname Generate"
    and short: "length (json_Encode (GeneratedName_json (''https://'' @ name @ ''.'' @ srv_Domain s))) + length extra \<le> 512"
  shows "\<exists>p. client_peerNegotiation duplex_Read duplex_Write proto \<lparr>inbox = outbox (dev conn') @ extra, outbox = []\<rparr> =
      Some (Running (\<lparr>Source = PeerHash name, Destination = srv_id s, Protocol = proto, ALPN = ALPN_Multiplexer\<rparr>,
        ''https://'' @ name @ ''.'' @ srv_Domain s, 10 # extra,
        \<lparr>inbox = [], outbox = Link_MarshalBinary (client_hello proto)\<rparr>)) \<and>
      PM_Get (srv_clients s') (PeerHash name) = Some p \<and> PM_Get (srv_clients s) (PeerHash name) = None"
proof -
  let ?conn = "net_conn_of \<lparr>inbox = Link_MarshalBinary (client_hello proto), outbox = []\<rparr>"
  obtain link d c d2 n d3 p where h: "duplex_Read LinkSize (dev ?conn) = (Link_MarshalBinary link, None, d)"
      "ALPN link = ALPN_Multiplexer" "Protocol link \<in> set protos" "New (reg e) (Protocol link) = Inr c"
      "Source link = 0" "Destination link = 0"
      "duplex_Write (Link_MarshalBinary (link\<lparr>Source := PeerHash name, Destination := srv_id s\<rparr>)) d = (LinkSize, None, d2)"
      "duplex_Write (string_bytes (json_Encode (GeneratedName_json (''https://'' @ name @ ''.'' @ srv_Domain s)))) d2 = (n, None, d3)"
      "pm_peers (srv_clients s) (PeerHash name) = None"
      "construct e c (responder_config connector (PeerHash name)) = Inr p" "\<not> closes e p"
    using reader_contract_duplex srv name by (rule clientNegotiation_sound)
  have s': "s' = s\<lparr>srv_clients := PM_register (srv_clients s) (PeerHash name) p\<rparr>" and "dev conn' = d3"
    using clientNegotiation_ok [of duplex_Read ?conn link d protos e c name Generate duplex_Write s d2 n d3 connector p now,
      OF h(1-6) name h(7-11)] srv by auto
  have "Link_MarshalBinary link = Link_MarshalBinary (client_hello proto)" and d: "outbox d = []"
    using h(1) by (auto simp: net_conn_of_def duplex_Read_def list_reader_def)
  then have "link = client_hello proto"
    by (metis Inr_inject Link_Unmarshal_Marshal)
  then have "outbox (dev conn') =
      Link_MarshalBinary \<lparr>Source = PeerHash name, Destination = srv_id s, Protocol = proto, ALPN = ALPN_Multiplexer\<rparr> @
      string_bytes (json_Encode (GeneratedName_json (''https://'' @ name @ ''.'' @ srv_Domain s)))"
    using h(7,8) d unfolding \<open>dev conn' = d3\<close> by (auto simp: duplex_Write_def client_hello_def)
  then show ?thesis
    using short h(9) unfolding s'
    by (subst client_peerNegotiation_reply) (auto simp: PM_Get_def PM_register_def PM_Notify_def PM_Count_def PM_Store_def)
qed

lemma client_server_agree_witness:
  "\<exists>s' conn'. clientNegotiation plain_sessions duplex_Read duplex_Write (\<lambda>n. Inr [''a'', ''b'']) 0 5 QUICProtos plain_server
      (net_conn_of \<lparr>inbox = Link_MarshalBinary (client_hello QUIC), outbox = []\<rparr>) = (None, s', conn') \<and>
     client_peerNegotiation duplex_Read duplex_Write QUIC \<lparr>inbox = outbox (dev conn') @ [], outbox = []\<rparr> =
       Some (Running (\<lparr>Source = PeerHash ''a-b'', Destination = 7, Protocol = QUIC, ALPN = ALPN_Multiplexer\<rparr>,
         ''https://a-b.x.y'', [10], \<lparr>inbox = [], outbox = Link_MarshalBinary (client_hello QUIC)\<rparr>))"
proof -
  let ?G = "\<lambda>n :: nat. Inr [''a'', ''b''] :: error + string list"
  let ?conn = "net_conn_of \<lparr>inbox = Link_MarshalBinary (client_hello QUIC), outbox = []\<rparr>"
  have name: "''a-b'' = RandomHostname ?G"
    by (simp add: RandomHostname_def)
  obtain s' conn' where run: "clientNegotiation plain_sessions duplex_Read duplex_Write ?G 0 5 QUICProtos plain_server ?conn =
      (None, s', conn')"
    by (rule plain_client_admitted)
  have "length (json_Encode (GeneratedName_json (''https://'' @ ''a-b'' @ ''.'' @ srv_Domain plain_server))) + length ([] :: bytes) \<le> 512"
    by (simp add: plain_server_def) code_simp
  from client_server_agree [OF run name this] run show ?thesis
    by (auto simp: plain_server_def)
qed

text \<open>What a running tunnel does with its streams. Once \<^verbatim>\<open>Tunnel\<close> has come through, the table
of sessions holds the one session with the server, its notification is consumed, and the loop
over the streams never ends the process: a stream is served as HTTP exactly if the target is
HTTP or HTTPS and the link says HTTP, it is connected exactly if the target is TCP, the link says
raw and the dial of the target's host and port succeeds, and it is closed in all other cases.\<close>

lemma tunnel_serves:
  assumes run: "Tunnel te Read Write opts = Some (Running (u, link, hostname, hostHeader, p, pm))"
  shows "PM_Get pm (Destination link) = Some p \<and> PM_Len pm = 1 \<and> pm_notify pm = [] \<and>
    handle_stream Dial u l =
      (if url_Scheme u \<noteq> ''tcp'' \<and> ALPN l = ALPN_HTTP then ServeHTTP
       else if url_Scheme u = ''tcp'' \<and> ALPN l = ALPN_Raw \<and> (\<exists>n. Dial (URL_Hostname u @ '':'' @ URL_Port u) = Inr n)
       then ConnectTo (projr (Dial (URL_Hostname u @ '':'' @ URL_Port u)))
       else CloseStream)"
  using Tunnel_sound [OF run]
  by (auto simp: PM_Get_def PM_Len_def handle_stream_def alpnCheck_def split: sum.split)

lemma tunnel_serves_witness:
  "\<exists>p pm. Tunnel plain_tunnel duplex_Read duplex_Write
       (plain_opts 1) =
     Some (Running (\<lparr>url_Scheme = ''tcp'', url_Host = ''h:22''\<rparr>,
       \<lparr>Source = 3, Destination = 7, Protocol = Yamux, ALPN = ALPN_Multiplexer\<rparr>, ''https://a-b.x.y'', ''h:22'', p, pm)) \<and>
     handle_stream (\<lambda>addr. Inr addr) \<lparr>url_Scheme = ''tcp'', url_Host = ''h:22''\<rparr>
       \<lparr>Source = 9, Destination = 3, Protocol = Yamux, ALPN = ALPN_Raw\<rparr> = ConnectTo ''h:22''"
proof -
  let ?u = "\<lparr>url_Scheme = ''tcp'', url_Host = ''h:22''\<rparr>"
  let ?opts = "plain_opts 1"
  have "URL_Hostname ?u = ''h''" "URL_Port ?u = ''22''"
    by code_simp+
  obtain p pm where run: "Tunnel plain_tunnel duplex_Read duplex_Write ?opts =
      Some (Running (?u, \<lparr>Source = 3, Destination = 7, Protocol = Yamux, ALPN = ALPN_Multiplexer\<rparr>, ''https://a-b.x.y'', ''h:22'', p, pm))"
    using plain_tunnel_runs by blast
  from tunnel_serves [OF run, of "\<lambda>addr. Inr addr" "\<lparr>Source = 9, Destination = 3, Protocol = Yamux, ALPN = ALPN_Raw\<rparr>"] run
  show ?thesis
    using \<open>URL_Hostname ?u = ''h''\<close> \<open>URL_Port ?u = ''22''\<close> by auto
qed

text \<open>C38: the number of the protocol wraps around. Past parsing and discovery, the choice of the
dialer fails exactly if the number given on the command line is not 1, 2 or 3 modulo 256: the
conversion to a byte keeps eight bits, and a number such as 257 or -254 is taken for a protocol
instead of being refused.\<close>

lemma tunnel_protocol_wraps:
  assumes "te_Parse te (to_Forward opts) = Inr u" and "url_Scheme u \<in> {''http'', ''https'', ''tcp''}"
    and "discover te (to_Debug opts) (to_Where opts) = Some (Running peerTarget)"
  shows "Tunnel te Read Write opts = Some (Fatal ''selecting peer dialer'') \<longleftrightarrow> to_Proto opts mod 256 \<notin> {1, 2, 3}"
proof -
  have "(\<exists>d. Dialer mux_dialers (word_of_int (to_Proto opts)) = Inr d) \<longleftrightarrow> to_Proto opts mod 256 \<in> {1, 2, 3}"
    by (auto simp: mux_registered proto_defs word_of_int_byte)
  then show ?thesis
    using assms
    by (cases "Dialer mux_dialers (word_of_int (to_Proto opts))")
      (auto simp: Tunnel_def Let_def client_peerNegotiation_def
        split: sum.splits option.splits prod.splits exit.splits list.splits if_splits)
qed

lemma tunnel_protocol_wraps_witness:
  "Tunnel plain_tunnel duplex_Read duplex_Write
     (plain_opts 257) \<noteq> Some (Fatal ''selecting peer dialer'')"
proof -
  let ?opts = "plain_opts 257"
  have "te_Parse plain_tunnel (to_Forward ?opts) = Inr \<lparr>url_Scheme = ''tcp'', url_Host = ''h:22''\<rparr>"
    by (simp add: plain_tunnel_def)
  moreover have "discover plain_tunnel (to_Debug ?opts) (to_Where ?opts) = Some (Running (''x'' @ '':'' @ itoa 1))"
    using plain_tunnel_discovers by (simp add: plain_opts_def)
  ultimately show ?thesis
    using tunnel_protocol_wraps [of plain_tunnel ?opts "\<lparr>url_Scheme = ''tcp'', url_Host = ''h:22''\<rparr>" "''x'' @ '':'' @ itoa 1"
        duplex_Read duplex_Write] by (simp add: plain_opts_def)
qed

end
