(* ===== verification/Gossip.thy ===== *)
theory Gossip
  imports Handshake "HOL-Library.Sublist"
begin

text \<open>
  What a server does on behalf of gossip (\<^verbatim>\<open>server/gossip.go\<close>, \<^verbatim>\<open>server/messaging.go\<close>): who
  connects to whom, the reaction to nodes that join and leave, the exchange of state in both
  directions, and the messages between peers. The memberlist library calls these methods; its
  own work is not modelled.
\<close>

section \<open>Who reaches out\<close>

definition shouldReachOut :: "('p, 'v) Server \<Rightarrow> Meta \<Rightarrow> bool" where
  "shouldReachOut s m =
     (if RespondOnly (srv_meta s) then False
      else if \<not> RespondOnly m \<and> PeerID m < srv_id s then False
      else True)"

record node =
  node_Name :: string
  node_Alive :: bool
  node_Meta :: bytes

text \<open>
  The loop of \<^verbatim>\<open>peerReconciliation\<close>: one variable \<^verbatim>\<open>m\<close>, declared before the loop, receives the
  metadata of every node. The result lists the metadata with which \<^verbatim>\<open>connectPeer\<close> is started.
\<close>

fun reconcile :: "('p, 'v) Server \<Rightarrow> Meta \<Rightarrow> node list \<Rightarrow> Meta list" where
  "reconcile s m [] = []"
| "reconcile s m (node # nodes) =
     (if \<not> node_Alive node then reconcile s m nodes
      else if node_Name node = g_Name (gossipCfg s) then reconcile s m nodes
      else case Meta_UnmarshalBinary m (node_Meta node) of
        Inl err \<Rightarrow> reconcile s m nodes
      | Inr m \<Rightarrow>
        if PeerID m = srv_id s then reconcile s m nodes
        else if PM_Get (srv_peers s) (PeerID m) = None \<and> shouldReachOut s m then m # reconcile s m nodes
        else reconcile s m nodes)"

definition peerReconciliation :: "('p, 'v) Server \<Rightarrow> node list \<Rightarrow> Meta list" where
  "peerReconciliation s knownNodes = reconcile s Meta_zero knownNodes"

section \<open>Membership\<close>

datatype join_outcome = JoinIgnored | JoinFatal | JoinConnect Meta | JoinRespond

definition NotifyJoin :: "('p, 'v) Server \<Rightarrow> node \<Rightarrow> join_outcome" where
  "NotifyJoin s node =
     (if node_Name node = g_Name (gossipCfg s) then JoinIgnored
      else case Meta_UnmarshalBinary Meta_zero (node_Meta node) of
        Inl err \<Rightarrow> JoinIgnored
      | Inr m \<Rightarrow>
        if PeerID m = srv_id s then JoinFatal
        else if shouldReachOut s m then JoinConnect m
        else JoinRespond)"

definition NotifyLeave :: "('p, 'v) Server \<Rightarrow> node \<Rightarrow> 'p option \<times> ('p, 'v) Server" where
  "NotifyLeave s node =
     (if node_Name node = g_Name (gossipCfg s) then (None, s)
      else case Meta_UnmarshalBinary Meta_zero (node_Meta node) of
        Inl err \<Rightarrow> (None, s)
      | Inr m \<Rightarrow> removePeer (PeerID m) s)"

definition NotifyUpdate :: "('p, 'v) Server \<Rightarrow> node \<Rightarrow> ('p, 'v) Server" where
  "NotifyUpdate s node = s"

definition NotifyMsg :: "('p, 'v) Server \<Rightarrow> bytes \<Rightarrow> ('p, 'v) Server" where
  "NotifyMsg s msg = s"

text \<open>\<open>queued\<close> is what the library's own queue of broadcasts gives.\<close>

definition GetBroadcasts :: "(nat \<Rightarrow> nat \<Rightarrow> bytes list) \<Rightarrow> ('p, 'v) Server \<Rightarrow> nat \<Rightarrow> nat \<Rightarrow> bytes list" where
  "GetBroadcasts queued s overhead limit = queued overhead limit"

definition NodeMeta :: "('p, 'v) Server \<Rightarrow> nat \<Rightarrow> bytes" where
  "NodeMeta s limit = metaBytes s"

definition AckPayload :: "('p, 'v) Server \<Rightarrow> bytes" where
  "AckPayload s = PutUint64 (word_of_int (PM_Len (srv_peers s)))"

text \<open>The number of peers in a ping's payload; \<^verbatim>\<open>Uint64\<close> panics on a short payload.\<close>

definition NotifyPingComplete :: "node \<Rightarrow> bytes \<Rightarrow> (u64 \<times> u64) option go" where
  "NotifyPingComplete other payload =
     (case Meta_UnmarshalBinary Meta_zero (node_Meta other) of
        Inl err \<Rightarrow> Ret None
      | Inr m \<Rightarrow> bind_go (index payload 7) (\<lambda>_. Ret (Some (PeerID m, Uint64 (take 8 payload)))))"

text \<open>
  \<^verbatim>\<open>connectPeer\<close>: \<open>dreg\<close> is the registry of dialers, \<open>Dial\<close> the call of one, giving the
  connector and the connection to shake hands on. On a later error the dialer's closer runs.
\<close>

definition initiator_config :: "nat \<Rightarrow> u64 \<Rightarrow> Config" where
  "initiator_config connector peer =
     \<lparr>cfg_Logger = Some (), cfg_Conn = Some connector, cfg_Peer = peer, cfg_Initiator = True, cfg_Wait = second\<rparr>"

definition connectPeer ::
  "('k, 'p) session_env \<Rightarrow> 'd registry \<Rightarrow> ('d \<Rightarrow> string \<Rightarrow> error + nat \<times> 'c net_conn) \<Rightarrow> 'c writer \<Rightarrow>
   ('p, 'v) Server \<Rightarrow> Meta \<Rightarrow> error option \<times> ('p, 'v) Server \<times> 'c net_conn option" where
  "connectPeer e dreg Dial Write s m =
     (let link = \<lparr>Source = srv_id s, Destination = PeerID m, Protocol = meta_Protocol m, ALPN = ALPN_Multiplexer\<rparr>;
          buf = Link_MarshalBinary link in
      case Dialer dreg (meta_Protocol m) of
        Inl err \<Rightarrow> (Some (Wrapf ''getting dialer: %w'' [] err), s, None)
      | Inr dialer \<Rightarrow>
        (case Dial dialer (ConnectIP m @ '':'' @ itoa (unat (ConnectPort m))) of
           Inl err \<Rightarrow> (Some (Wrapf ''dialing peer: %w'' [] err), s, None)
         | Inr (connector, conn) \<Rightarrow>
           (case conn_Write Write buf conn of
              (n, Some err, conn) \<Rightarrow> (Some (Wrapf ''writing handshake: %w'' [] err), s, Some (conn_Close conn))
            | (n, None, conn) \<Rightarrow>
              (case env_NewPeer e (srv_peers s) (meta_Protocol m) (initiator_config connector (PeerID m)) of
                 (None, tbl) \<Rightarrow> (None, s\<lparr>srv_peers := tbl\<rparr>, Some conn)
               | (Some err, tbl) \<Rightarrow> (Some err, s\<lparr>srv_peers := tbl\<rparr>, Some (conn_Close conn))))))"

section \<open>Exchange of state\<close>

record ACMESynchronization =
  as_From :: u64
  as_AccountFile :: "AccountFile option"
  as_Bundle :: "Bundle option"

definition ACMESynchronization_json :: "ACMESynchronization \<Rightarrow> json" where
  "ACMESynchronization_json a =
     JObj [(''From'', JNum (unat (as_From a))),
           (''AccountFile'', case as_AccountFile a of None \<Rightarrow> JNull | Some af \<Rightarrow> AccountFile_json af),
           (''Bundle'', case as_Bundle a of None \<Rightarrow> JNull | Some b \<Rightarrow> Bundle_json b)]"

definition u64_field :: "json \<Rightarrow> string \<Rightarrow> u64 option" where
  "u64_field v k =
     (case json_field v k of
        None \<Rightarrow> Some 0 | Some JNull \<Rightarrow> Some 0
      | Some (JNum n) \<Rightarrow> if n < 2 ^ 64 then Some (of_nat n) else None
      | Some _ \<Rightarrow> None)"

text \<open>A pointer field: absent or \<^verbatim>\<open>null\<close> is \<^verbatim>\<open>nil\<close>.\<close>

definition ptr_field :: "(json \<Rightarrow> 'a option) \<Rightarrow> json \<Rightarrow> string \<Rightarrow> 'a option option" where
  "ptr_field of_json v k =
     (case json_field v k of
        None \<Rightarrow> Some None | Some JNull \<Rightarrow> Some None | Some w \<Rightarrow> map_option Some (of_json w))"

definition ACMESynchronization_of_json :: "json \<Rightarrow> ACMESynchronization option" where
  "ACMESynchronization_of_json v =
     (if is_struct v
      then do { f \<leftarrow> u64_field v ''From'';
                a \<leftarrow> ptr_field AccountFile_of_json v ''AccountFile'';
                b \<leftarrow> ptr_field Bundle_of_json v ''Bundle'';
                Some \<lparr>as_From = f, as_AccountFile = a, as_Bundle = b\<rparr> }
      else None)"

definition LocalState :: "'v acme_env \<Rightarrow> ('p, 'v) Server \<Rightarrow> bool \<Rightarrow> bytes go" where
  "LocalState env s join =
     (if join then
        bind_go (ExportAccount env (certManager s)) (\<lambda>af.
          case af of
            Inl err \<Rightarrow> Ret []
          | Inr af \<Rightarrow>
            (case ExportBundle (certManager s) of
               Inl err \<Rightarrow> Ret []
             | Inr b \<Rightarrow>
               Ret (string_bytes (json_Marshal (ACMESynchronization_json
                      \<lparr>as_From = srv_id s, as_AccountFile = Some af, as_Bundle = Some b\<rparr>)))))
      else Ret (case cached s of None \<Rightarrow> [] | Some c \<Rightarrow> c))"

definition MergeRemoteState :: "'v acme_env \<Rightarrow> ('p, 'v) Server \<Rightarrow> bytes \<Rightarrow> bool \<Rightarrow> ('p, 'v) Server go" where
  "MergeRemoteState env s buf join =
     (if buf = [] then Ret s
      else if join then
        (case Option.bind (json_Unmarshal (bytes_string buf)) ACMESynchronization_of_json of
           None \<Rightarrow> Ret s
         | Some a \<Rightarrow>
           (case (as_AccountFile a, as_Bundle a) of
              (Some af, Some b) \<Rightarrow>
                if as_From a = srv_id s then Ret s
                else bind_go (ImportAccount env af (\<not> srv_Debug s) (certManager s)) (\<lambda>(err, c).
                  (let s = s\<lparr>certManager := c\<rparr> in
                   case err of
                     Some x \<Rightarrow>
                       if \<not> errors_Is x ErrAccountExists then Ret s
                       else bind_go (ImportBundle env b (\<not> srv_Debug s) c) (\<lambda>(err, c). Ret (s\<lparr>certManager := c\<rparr>))
                   | None \<Rightarrow> bind_go (ImportBundle env b (\<not> srv_Debug s) c) (\<lambda>(err, c). Ret (s\<lparr>certManager := c\<rparr>))))
            | _ \<Rightarrow> Ret s))
      else
        bind_go (CC_UnmarshalBinary buf) (\<lambda>r.
          case r of
            Inl err \<Rightarrow> Ret s
          | Inr c \<Rightarrow> Ret (s\<lparr>updatesCh := updatesCh s @ [c]\<rparr>)))"

text \<open>One turn of \<^verbatim>\<open>for x := range s.updatesCh\<close>, and the loop until the channel is empty.\<close>

definition merge_one :: "('p, 'v) Server \<Rightarrow> ConnectedClients \<Rightarrow> ('p, 'v) Server" where
  "merge_one s x =
     (if cc_Peer x = srv_id s then s
      else s\<lparr>srv_peerGraph := fst (PeerGraph_Replace (srv_peerGraph s) x)\<rparr>)"

definition handleMerge :: "('p, 'v) Server \<Rightarrow> ('p, 'v) Server" where
  "handleMerge s = foldl merge_one (s\<lparr>updatesCh := []\<rparr>) (updatesCh s)"

section \<open>Messages between peers\<close>

definition handlePeerMessage :: "'v acme_env \<Rightarrow> Message \<Rightarrow> ('p, 'v) Server \<Rightarrow> ('p, 'v) Server go" where
  "handlePeerMessage env m s =
     (if msg_Type m = MessageACMEAccountKey then
        (case Option.bind (json_Unmarshal (bytes_string (msg_Data m))) AccountFile_of_json of
           None \<Rightarrow> Ret s
         | Some af \<Rightarrow>
           bind_go (ImportAccount env af (\<not> srv_Debug s) (certManager s)) (\<lambda>(err, c). Ret (s\<lparr>certManager := c\<rparr>)))
      else if msg_Type m = MessageClientCerts then
        (case Option.bind (json_Unmarshal (bytes_string (msg_Data m))) Bundle_of_json of
           None \<Rightarrow> Ret s
         | Some b \<Rightarrow>
           bind_go (ImportBundle env b (\<not> srv_Debug s) (certManager s)) (\<lambda>(err, c). Ret (s\<lparr>certManager := c\<rparr>)))
      else Ret s)"

section \<open>What reconciliation is meant to dial\<close>

text \<open>
  The join notification of an alive node again, for a peer without a session; what \<^verbatim>\<open>connectPeer\<close>
  takes from the metadata, everything but the flag \<^verbatim>\<open>RespondOnly\<close>; and whether the reused
  variable makes the loop dial against the rule: after a respond-only node comes one without a
  session that has the lower identifier and does not respond only.
\<close>

definition rejoin :: "('p, 'v) Server \<Rightarrow> node \<Rightarrow> Meta list" where
  "rejoin s node =
     (if \<not> node_Alive node then []
      else case NotifyJoin s node of
        JoinConnect m \<Rightarrow> if PM_Get (srv_peers s) (PeerID m) = None then [m] else []
      | _ \<Rightarrow> [])"

definition dial_target :: "Meta \<Rightarrow> Meta" where
  "dial_target m = m\<lparr>RespondOnly := False\<rparr>"

fun misled :: "('p, 'v) Server \<Rightarrow> bool \<Rightarrow> node list \<Rightarrow> bool" where
  "misled s seen [] = False"
| "misled s seen (node # nodes) =
     (if \<not> node_Alive node \<or> node_Name node = g_Name (gossipCfg s) then misled s seen nodes
      else case Meta_UnmarshalBinary Meta_zero (node_Meta node) of
        Inl err \<Rightarrow> misled s seen nodes
      | Inr m \<Rightarrow>
        (seen \<and> \<not> RespondOnly m \<and> \<not> RespondOnly (srv_meta s) \<and> PeerID m < srv_id s \<and>
         PM_Get (srv_peers s) (PeerID m) = None) \<or>
        misled s (seen \<or> RespondOnly m) nodes)"

section \<open>Examples\<close>

text \<open>How another server appears in gossip.\<close>

definition node_of :: "('p, 'v) Server \<Rightarrow> node" where
  "node_of t = \<lparr>node_Name = g_Name (gossipCfg t), node_Alive = True, node_Meta = NodeMeta t 512\<rparr>"

text \<open>A valid configuration for examples, with a key of three zero bytes.\<close>

definition plain_config :: "string \<Rightarrow> bool \<Rightarrow> bytes ServerConfig" where
  "plain_config ip respond =
     \<lparr>sc_Context = Some (), sc_Logger = Some (), sc_Network = \<lparr>AdvertiseAddr = ip, BindAddr = ip\<rparr>,
      sc_PeerTLSListener = Some (), sc_PeerQUICListener = Some (), sc_PeerTLSConfig = Some (),
      sc_ClientTLSListener = Some (), sc_ClientQUICListener = Some (),
      sc_Multiplexer = \<lparr>mc_Peer = 9, mc_Protocol = QUIC, mc_RespondOnly = respond\<rparr>,
      sc_Gossip = \<lparr>gc_Port = 8, gc_Keyring = [''AAAA''], gc_Members = []\<rparr>,
      sc_CertManager = Some plain_manager, sc_Debug = False, sc_Domain = ''x.y''\<rparr>"

definition plain_summary :: "u64 \<Rightarrow> u64 \<Rightarrow> ConnectedClients" where
  "plain_summary peer crc = \<lparr>cc_Peer = peer, cc_CRC64 = crc, cc_f = \<lparr>Seed = 0, SegmentLength = 0, SegmentLengthMask = 0,
     SegmentCount = 0, SegmentCountLength = 0, Fingerprints = []\<rparr>\<rparr>"

section \<open>Lemmas\<close>

subsection \<open>Construction and metadata\<close>

lemma Server_New_Inr:
  assumes "Server_New v6 NewKeyring self pick conf = Ret (Inr s)"
  shows "srv_id s = self" and "PeerID (srv_meta s) = self"
    and "Meta_MarshalBinary v6 (srv_meta s) = Ret (metaBytes s)"
    and "ConnectIP (srv_meta s) = AdvertiseAddr (sc_Network conf)"
    and "RespondOnly (srv_meta s) = mc_RespondOnly (sc_Multiplexer conf)"
    and "pm_inv (srv_peers s)" and "pm_inv (srv_clients s)" and "pg_inv (srv_peerGraph s)"
  using assms
  by (auto simp: Server_New_def Let_def pm_inv_def NewPeerMap_def NewPeerGraph_def pg_inv_def
      elim!: bind_go_RetE split: option.splits sum.splits if_splits)

lemma NodeMeta_decodes:
  assumes "Server_New v6 NewKeyring self pick conf = Ret (Inr t)" and "wf_meta (srv_meta t)"
  shows "Meta_UnmarshalBinary Meta_zero (NodeMeta t limit) = Inr (srv_meta t)"
  using Meta_Unmarshal_Marshal [OF assms(2) Server_New_Inr(3) [OF assms(1)], of Meta_zero]
  by (simp add: NodeMeta_def Meta_zero_def)

lemma shouldReachOut_dual:
  assumes "PeerID (srv_meta s) = srv_id s" and "PeerID (srv_meta t) = srv_id t" and "srv_id s \<noteq> srv_id t"
    and "\<not> (RespondOnly (srv_meta s) \<and> RespondOnly (srv_meta t))"
  shows "shouldReachOut s (srv_meta t) \<longleftrightarrow> \<not> shouldReachOut t (srv_meta s)"
  using assms by (auto simp: shouldReachOut_def)

subsection \<open>Merging\<close>

lemma merge_one_pg_inv [inv_intros]: "pg_inv (srv_peerGraph s) \<Longrightarrow> pg_inv (srv_peerGraph (merge_one s x))"
  by (simp add: merge_one_def inv_intros)

lemma merge_one_id [simp]:
  "srv_id (merge_one s x) = srv_id s" "srv_peers (merge_one s x) = srv_peers s"
  "srv_clients (merge_one s x) = srv_clients s" "updatesCh (merge_one s x) = updatesCh s"
  by (simp_all add: merge_one_def)

lemma foldl_merge_one [simp]:
  "srv_id (foldl merge_one s xs) = srv_id s" "srv_peers (foldl merge_one s xs) = srv_peers s"
  "srv_clients (foldl merge_one s xs) = srv_clients s" "updatesCh (foldl merge_one s xs) = updatesCh s"
  by (induction xs arbitrary: s) simp_all

text \<open>On the checksums, the loop is the sequence of map updates by the summaries of others.\<close>

lemma foldl_merge_one_sums:
  "pg_inv (srv_peerGraph s) \<Longrightarrow>
   peer_graph.sums (srv_peerGraph (foldl merge_one s xs)) =
     foldl (\<lambda>m x. m(cc_Peer x \<mapsto> cc_CRC64 x)) (peer_graph.sums (srv_peerGraph s)) (filter (\<lambda>x. cc_Peer x \<noteq> srv_id s) xs)"
proof (induction xs arbitrary: s)
  case (Cons x xs)
  show ?case
  proof (cases "cc_Peer x = srv_id s")
    case True
    with Cons show ?thesis by (simp add: merge_one_def)
  next
    case False
    have "peer_graph.sums (srv_peerGraph (merge_one s x)) = (peer_graph.sums (srv_peerGraph s))(cc_Peer x \<mapsto> cc_CRC64 x)"
      using Cons.prems False by (simp add: merge_one_def peer_graph.sums_replace)
    with Cons False show ?thesis by (simp add: inv_intros)
  qed
qed simp

subsection \<open>Names\<close>

lemma name_suffix_inj:
  assumes "p @ CHR ''/'' # itoa m = q @ CHR ''/'' # itoa n"
  shows "m = n"
proof -
  have "takeWhile (\<lambda>c. c \<noteq> CHR ''/'') (rev (r @ CHR ''/'' # itoa k)) = rev (itoa k)" for r k
  proof -
    have "CHR ''/'' \<notin> set (itoa k)"
      using set_itoa [of "CHR ''/''" k] by (auto simp: is_digit_def)
    then show ?thesis
      by (auto simp: takeWhile_append takeWhile_eq_all_conv)
  qed
  then have "itoa m = itoa n"
    using assms by (metis rev_rev_ident)
  then show ?thesis
    by (metis atoi_itoa)
qed

lemma Server_New_name:
  assumes "Server_New v6 NewKeyring self pick conf = Ret (Inr s)"
  shows "\<exists>p. g_Name (gossipCfg s) = p @ CHR ''/'' # itoa (unat self)"
  using assms
  by (auto simp: Server_New_def Let_def elim!: bind_go_RetE split: option.splits sum.splits if_splits)

lemma Server_New_names_differ:
  assumes "Server_New v6 K self pick conf = Ret (Inr s)" and "Server_New v6' K' self' pick' conf' = Ret (Inr t)"
    and "self \<noteq> self'"
  shows "g_Name (gossipCfg s) \<noteq> g_Name (gossipCfg t)"
proof
  assume eq: "g_Name (gossipCfg s) = g_Name (gossipCfg t)"
  obtain p q where "g_Name (gossipCfg s) = p @ CHR ''/'' # itoa (unat self)"
      "g_Name (gossipCfg t) = q @ CHR ''/'' # itoa (unat self')"
    using Server_New_name [OF assms(1)] Server_New_name [OF assms(2)] by auto
  with eq have "unat self = unat self'"
    by (intro name_suffix_inj [of p _ q]) simp
  with assms(3) show False by (simp add: word_unat_eq_iff)
qed

lemma NotifyJoin_node_of:
  assumes "Server_New v6 K self pick conf = Ret (Inr s)" and "Server_New v6' K' self' pick' conf' = Ret (Inr t)"
    and "self \<noteq> self'" and "wf_meta (srv_meta t)"
  shows "NotifyJoin s (node_of t) = (if shouldReachOut s (srv_meta t) then JoinConnect (srv_meta t) else JoinRespond)"
  using Server_New_names_differ [OF assms(1-3)] NodeMeta_decodes [OF assms(2,4)] assms(3)
    Server_New_Inr(1) [OF assms(1)] Server_New_Inr(2) [OF assms(2)]
  by (auto simp: NotifyJoin_def node_of_def)

subsection \<open>Reconciliation\<close>

lemma Meta_UnmarshalBinary_onto:
  "Meta_UnmarshalBinary m0 b =
     map_sum id (\<lambda>m. m\<lparr>RespondOnly := RespondOnly m0 \<or> RespondOnly m\<rparr>) (Meta_UnmarshalBinary Meta_zero b)"
  by (simp add: Meta_UnmarshalBinary_def Meta_zero_def Let_def)

lemma dial_target_fields [simp]:
  "PeerID (dial_target m) = PeerID m" "meta_Protocol (dial_target m) = meta_Protocol m"
  "ConnectIP (dial_target m) = ConnectIP m" "ConnectPort (dial_target m) = ConnectPort m"
  by (simp_all add: dial_target_def)

lemma connectPeer_dial_target: "connectPeer e dreg Dial Write s (dial_target m) = connectPeer e dreg Dial Write s m"
  unfolding connectPeer_def dial_target_fields ..

lemma reconcile_skips:
  "\<not> node_Alive n \<or> node_Name n = g_Name (gossipCfg s) \<or> (\<nexists>k. Meta_UnmarshalBinary Meta_zero (node_Meta n) = Inr k) \<Longrightarrow>
   reconcile s m (n # ns) = reconcile s m ns \<and> rejoin s n = [] \<and> misled s seen (n # ns) = misled s seen ns"
  by (cases "Meta_UnmarshalBinary Meta_zero (node_Meta n)") (auto simp: rejoin_def NotifyJoin_def Meta_UnmarshalBinary_onto [of m])

lemma reconcile_decodes:
  assumes "node_Alive n" and "node_Name n \<noteq> g_Name (gossipCfg s)"
    and "Meta_UnmarshalBinary Meta_zero (node_Meta n) = Inr k" and "m' = k\<lparr>RespondOnly := RespondOnly m \<or> RespondOnly k\<rparr>"
  shows "reconcile s m (n # ns) =
      (if PeerID k \<noteq> srv_id s \<and> PM_Get (srv_peers s) (PeerID k) = None \<and> shouldReachOut s m' then [m'] else []) @
      reconcile s m' ns"
    and "rejoin s n =
      (if PeerID k \<noteq> srv_id s \<and> PM_Get (srv_peers s) (PeerID k) = None \<and> shouldReachOut s k then [k] else [])"
  using assms by (auto simp: rejoin_def NotifyJoin_def Meta_UnmarshalBinary_onto [of m])

lemma shouldReachOut_flag:
  "shouldReachOut s (k\<lparr>RespondOnly := b \<or> RespondOnly k\<rparr>) \<longleftrightarrow>
   shouldReachOut s k \<or> b \<and> \<not> RespondOnly k \<and> \<not> RespondOnly (srv_meta s) \<and> PeerID k < srv_id s"
  by (auto simp: shouldReachOut_def)

lemma reconcile_extends:
  "\<exists>extra. length (reconcile s m nodes) = length (concat (map (rejoin s) nodes)) + extra \<and>
     (extra = 0 \<longleftrightarrow> \<not> misled s (RespondOnly m) nodes) \<and>
     subseq (map dial_target (concat (map (rejoin s) nodes))) (map dial_target (reconcile s m nodes))"
proof (induction nodes arbitrary: m)
  case (Cons n ns)
  show ?case
  proof (cases "node_Alive n \<and> node_Name n \<noteq> g_Name (gossipCfg s) \<and> (\<exists>k. Meta_UnmarshalBinary Meta_zero (node_Meta n) = Inr k)")
    case False
    then have "reconcile s m (n # ns) = reconcile s m ns \<and> rejoin s n = [] \<and>
        misled s (RespondOnly m) (n # ns) = misled s (RespondOnly m) ns"
      by (intro reconcile_skips) blast
    with Cons [of m] show ?thesis
      by simp
  next
    case True
    then obtain k where n: "node_Alive n" "node_Name n \<noteq> g_Name (gossipCfg s)"
        "Meta_UnmarshalBinary Meta_zero (node_Meta n) = Inr k"
      by blast
    define m' where m': "m' = k\<lparr>RespondOnly := RespondOnly m \<or> RespondOnly k\<rparr>"
    note step = reconcile_decodes [OF n m']
    obtain extra where IH: "length (reconcile s m' ns) = length (concat (map (rejoin s) ns)) + extra"
        "extra = 0 \<longleftrightarrow> \<not> misled s (RespondOnly m \<or> RespondOnly k) ns"
        "subseq (map dial_target (concat (map (rejoin s) ns))) (map dial_target (reconcile s m' ns))"
      using Cons [of m'] by (auto simp: m')
    have reach: "shouldReachOut s m' \<longleftrightarrow>
        shouldReachOut s k \<or> RespondOnly m \<and> \<not> RespondOnly k \<and> \<not> RespondOnly (srv_meta s) \<and> PeerID k < srv_id s"
      by (simp add: m' shouldReachOut_flag)
    have same: "dial_target m' = dial_target k"
      by (simp add: m' dial_target_def)
    let ?low = "\<not> RespondOnly k \<and> \<not> RespondOnly (srv_meta s) \<and> PeerID k < srv_id s \<and> PM_Get (srv_peers s) (PeerID k) = None"
    have mis: "misled s b (n # ns) \<longleftrightarrow> b \<and> ?low \<or> misled s (b \<or> RespondOnly k) ns" for b
      using n by auto
    show ?thesis
    proof (cases "RespondOnly m \<and> ?low")
      case True
      then have "\<not> shouldReachOut s k" "shouldReachOut s m'" "PeerID k \<noteq> srv_id s"
        using reach by (auto simp: shouldReachOut_def)
      then show ?thesis
        using True IH by (intro exI [of _ "Suc extra"]) (auto simp: step mis simp del: reconcile.simps misled.simps)
    next
      case False
      then show ?thesis
        using IH same reach by (intro exI [of _ extra]) (auto simp: step mis simp del: reconcile.simps misled.simps)
    qed
  qed
qed simp

subsection \<open>Synchronization of the certificates\<close>

lemma ptr_field_Some: "json_field v k = Some w \<Longrightarrow> w \<noteq> JNull \<Longrightarrow> ptr_field f v k = map_option Some (f w)"
  by (cases w) (simp_all add: ptr_field_def)

lemma ptr_field_null: "json_field v k = Some JNull \<Longrightarrow> ptr_field f v k = Some None"
  by (simp add: ptr_field_def)

lemma json_not_null [simp]: "AccountFile_json af \<noteq> JNull" "Bundle_json b \<noteq> JNull"
  by (simp_all add: AccountFile_json_def Bundle_json_def)

lemma ACMESynchronization_inverse [simp]:
  "ACMESynchronization_of_json (ACMESynchronization_json a) = Some a"
proof -
  let ?v = "ACMESynchronization_json a"
  have "unat (as_From a) < 2 ^ 64"
    using unsigned_less [of "as_From a", where 'a = nat] by simp
  then have "u64_field ?v ''From'' = Some (as_From a)"
    by (simp add: u64_field_def json_field_def ACMESynchronization_json_def)
  moreover have "ptr_field AccountFile_of_json ?v ''AccountFile'' = Some (as_AccountFile a)"
    by (cases "as_AccountFile a")
      (simp_all add: ptr_field_Some ptr_field_null json_field_def ACMESynchronization_json_def)
  moreover have "ptr_field Bundle_of_json ?v ''Bundle'' = Some (as_Bundle a)"
    by (cases "as_Bundle a") (simp_all add: ptr_field_Some ptr_field_null json_field_def ACMESynchronization_json_def)
  ultimately show ?thesis
    by (simp add: ACMESynchronization_of_json_def is_struct_def ACMESynchronization_json_def)
qed

section \<open>Properties\<close>

text \<open>C11: of two servers that discover each other, exactly one dials. For two servers with
  different identifiers and IPv4 addresses, not both configured to respond only, the join
  notifications make one connect with the other's metadata and the other wait.\<close>

theorem gossip_one_side_dials:
  assumes "Server_New v6 K self pick conf = Ret (Inr s)" and "Server_New v6' K' self' pick' conf' = Ret (Inr t)"
    and "self \<noteq> self'" and "wf_meta (srv_meta s)" and "wf_meta (srv_meta t)"
    and "\<not> (RespondOnly (srv_meta s) \<and> RespondOnly (srv_meta t))"
  shows "(NotifyJoin s (node_of t) = JoinConnect (srv_meta t) \<and> NotifyJoin t (node_of s) = JoinRespond) \<or>
         (NotifyJoin s (node_of t) = JoinRespond \<and> NotifyJoin t (node_of s) = JoinConnect (srv_meta s))"
proof -
  have "shouldReachOut s (srv_meta t) \<longleftrightarrow> \<not> shouldReachOut t (srv_meta s)"
    using assms(3,6) Server_New_Inr(1,2) [OF assms(1)] Server_New_Inr(1,2) [OF assms(2)]
    by (intro shouldReachOut_dual) simp_all
  with NotifyJoin_node_of [OF assms(1,2,3,5)] NotifyJoin_node_of [OF assms(2,1) _ assms(4)] assms(3) show ?thesis
    by auto
qed

lemma plain_New:
  "\<exists>s :: (nat, bytes) Server. Server_New v6 (\<lambda>ks k. None) self 0 (plain_config (IPv4_String [10, 0, 0, x]) respond) = Ret (Inr s) \<and>
     wf_meta (srv_meta s) \<and> RespondOnly (srv_meta s) = respond"
proof -
  let ?ip = "IPv4_String [10, 0, 0, x]"
  let ?m = "\<lparr>ConnectIP = ?ip, ConnectPort = 9, PeerID = self, meta_Protocol = QUIC, RespondOnly = respond\<rparr>"
  have wf: "wf_meta ?m"
    by (auto simp: wf_meta_def)
  then obtain bs where bs: "Meta_MarshalBinary v6 ?m = Ret bs"
    using wf_meta_marshals by blast
  have "decode_keyring [''AAAA''] [] = Inr [[0, 0, 0]]"
    by (simp add: base64_DecodeString_def b64_val_def b64_bytes_def)
  with wf bs show ?thesis
    by (simp add: Server_New_def ServerConfig_validate_def plain_config_def Let_def)
qed

lemma gossip_one_side_dials_witness:
  "\<exists>(s :: (nat, bytes) Server) (t :: (nat, bytes) Server). srv_id s = 3 \<and> srv_id t = 5 \<and> RespondOnly (srv_meta t) \<and>
     ((NotifyJoin s (node_of t) = JoinConnect (srv_meta t) \<and> NotifyJoin t (node_of s) = JoinRespond) \<or>
      (NotifyJoin s (node_of t) = JoinRespond \<and> NotifyJoin t (node_of s) = JoinConnect (srv_meta s)))"
proof -
  obtain s :: "(nat, bytes) Server" where
    s: "Server_New (\<lambda>_. None) (\<lambda>ks k. None) 3 0 (plain_config (IPv4_String [10, 0, 0, 1]) False) = Ret (Inr s)"
      "wf_meta (srv_meta s)" "\<not> RespondOnly (srv_meta s)"
    using plain_New by metis
  obtain t :: "(nat, bytes) Server" where
    t: "Server_New (\<lambda>_. None) (\<lambda>ks k. None) 5 0 (plain_config (IPv4_String [10, 0, 0, 2]) True) = Ret (Inr t)"
      "wf_meta (srv_meta t)" "RespondOnly (srv_meta t)"
    using plain_New by metis
  show ?thesis
    using gossip_one_side_dials [OF s(1) t(1) _ s(2) t(2)] s(3) t(3)
      Server_New_Inr(1) [OF s(1)] Server_New_Inr(1) [OF t(1)] by - (rule exI [of _ s], rule exI [of _ t], simp)
qed

text \<open>C13: reconciliation is the join notifications over again, up to its reused variable. The peers
  it dials contain, in order, those that a fresh look at every alive node would dial, so a lost
  peer is never missed; they are exactly those if and only if no respond-only node precedes a node
  with a lower identifier that should dial itself. The flag itself makes no difference to the dial.\<close>

theorem reconciliation_equivalent:
  "subseq (map dial_target (concat (map (rejoin s) nodes))) (map dial_target (peerReconciliation s nodes)) \<and>
   (map dial_target (peerReconciliation s nodes) = map dial_target (concat (map (rejoin s) nodes)) \<longleftrightarrow> \<not> misled s False nodes) \<and>
   connectPeer e dreg Dial Write s (dial_target m) = connectPeer e dreg Dial Write s m"
proof -
  obtain extra where "length (peerReconciliation s nodes) = length (concat (map (rejoin s) nodes)) + extra"
      "extra = 0 \<longleftrightarrow> \<not> misled s False nodes"
      "subseq (map dial_target (concat (map (rejoin s) nodes))) (map dial_target (peerReconciliation s nodes))"
    using reconcile_extends [of s Meta_zero nodes] by (auto simp: peerReconciliation_def Meta_zero_def)
  then show ?thesis
    using subseq_same_length connectPeer_dial_target
    by (metis add_cancel_left_right length_map)
qed

text \<open>The periodic reconciliation can dial against the rule. Because its loop reuses one
  variable and decoding never clears the flag, a respond-only node seen first makes the server
  dial a later node that has the lower identifier and does not respond only.\<close>

lemma reconciliation_sticky:
  "\<exists>(s :: (nat, bytes) Server) n1 n2 m.
     Meta_UnmarshalBinary Meta_zero (node_Meta n2) = Inr m \<and> \<not> RespondOnly m \<and> \<not> shouldReachOut s m \<and>
     NotifyJoin s n2 = JoinRespond \<and>
     m\<lparr>RespondOnly := True\<rparr> \<in> set (peerReconciliation s [n1, n2]) \<and> peerReconciliation s [n2] = []"
proof -
  let ?ip = "IPv4_String [10, 0, 0, 1]"
  let ?m = "\<lambda>i r. \<lparr>ConnectIP = ?ip, ConnectPort = 9, PeerID = i, meta_Protocol = QUIC, RespondOnly = r\<rparr>"
  let ?v6 = "\<lambda>_ :: string. None :: bytes option"
  have wf: "wf_meta (?m i r)" for i r
    by (auto simp: wf_meta_def)
  obtain b1 where b1: "Meta_MarshalBinary ?v6 (?m 8 True) = Ret b1"
    using wf_meta_marshals [OF wf] by metis
  obtain b2 where b2: "Meta_MarshalBinary ?v6 (?m 3 False) = Ret b2"
    using wf_meta_marshals [OF wf] by metis
  let ?n1 = "\<lparr>node_Name = ''a'', node_Alive = True, node_Meta = b1\<rparr>"
  let ?n2 = "\<lparr>node_Name = ''b'', node_Alive = True, node_Meta = b2\<rparr>"
  have d: "Meta_UnmarshalBinary m0 b1 = Inr (?m 8 True)"
      "Meta_UnmarshalBinary m0 b2 = Inr (?m 3 (RespondOnly m0))" for m0
    using Meta_Unmarshal_Marshal [OF wf b1, of m0] Meta_Unmarshal_Marshal [OF wf b2, of m0] by simp_all
  show ?thesis
    by (intro exI [of _ plain_server] exI [of _ ?n1] exI [of _ ?n2] exI [of _ "?m 3 False"])
      (simp add: d peerReconciliation_def shouldReachOut_def NotifyJoin_def Meta_zero_def PM_Get_def
        plain_server_def NewPeerMap_def)
qed

text \<open>C21: merging is last-writer-wins on checksums. Draining the update channel leaves, for every
  owner, the checksum of the last summary received for it, ignores summaries that carry the
  server's own identifier, and touches neither the sessions nor the entries of other owners.\<close>

theorem handleMerge_refines:
  assumes "pg_inv (srv_peerGraph s)"
  shows "pg_inv (srv_peerGraph (handleMerge s)) \<and>
    (\<lambda>k. map_option cc_CRC64 (srv_peerGraph (handleMerge s) k)) =
      foldl (\<lambda>m x. m(cc_Peer x \<mapsto> cc_CRC64 x)) (\<lambda>k. map_option cc_CRC64 (srv_peerGraph s k))
        (filter (\<lambda>x. cc_Peer x \<noteq> srv_id s) (updatesCh s)) \<and>
    updatesCh (handleMerge s) = [] \<and> srv_peers (handleMerge s) = srv_peers s \<and> srv_clients (handleMerge s) = srv_clients s"
proof -
  have "pg_inv (srv_peerGraph (foldl merge_one t xs))" if "pg_inv (srv_peerGraph t)" for t :: "('a, 'b) Server" and xs
    using that by (induction xs arbitrary: t) (simp_all add: inv_intros)
  with assms foldl_merge_one_sums [of "s\<lparr>updatesCh := []\<rparr>" "updatesCh s"] show ?thesis
    by (simp add: handleMerge_def peer_graph.sums_def [abs_def])
qed

lemma handleMerge_refines_witness:
  "(\<lambda>k. map_option cc_CRC64 (srv_peerGraph (handleMerge (plain_server\<lparr>updatesCh :=
      [plain_summary 1 5, plain_summary 7 4, plain_summary 1 6]\<rparr>)) k)) = [1 \<mapsto> 6]"
  using handleMerge_refines [of "plain_server\<lparr>updatesCh := [plain_summary 1 5, plain_summary 7 4, plain_summary 1 6]\<rparr>"]
  by (simp add: plain_server_def NewPeerGraph_def pg_inv_def plain_summary_def)



end
