(* ===== verification/Routing.thy ===== *)
theory Routing
  imports Gossip
begin

text \<open>
  Routing across servers: what a chain of \<^verbatim>\<open>findPath\<close> decisions does to a stream when the servers
  know each other's clients through gossip. Each hop is the decision of
  \<^verbatim>\<open>server/server.go\<close>, taken again by every server a stream arrives at
  (\<^verbatim>\<open>handlePeerEvents\<close> in \<^verbatim>\<open>server/peers.go\<close>).
\<close>

section \<open>Definitions\<close>

text \<open>A session leads to a client or to another server.\<close>

datatype session = ToClient u64 | ToPeer u64

type_synonym 'v cluster = "u64 \<rightharpoonup> (session, 'v) Server"

text \<open>
  A stream for \<open>dest\<close> at server \<open>a\<close> goes on to server \<open>b\<close>. \<open>order\<close> gives the iteration order of
  every server's graph.
\<close>

inductive hop ::
  "(BinaryFuse8 \<Rightarrow> u64 \<Rightarrow> bool) \<Rightarrow> (u64 \<Rightarrow> u64 list) \<Rightarrow> 'v cluster \<Rightarrow> Link \<Rightarrow> u64 \<Rightarrow> u64 \<Rightarrow> bool"
  for Contains order cl link where
  hop: "cl a = Some s \<Longrightarrow> findPath Contains (order a) s link = Some (ToPeer b) \<Longrightarrow> hop Contains order cl link a b"

inductive_simps hop_simps: "hop Contains order cl link a b"

text \<open>The stream ends at a client of server \<open>a\<close>.\<close>

definition delivered ::
  "(BinaryFuse8 \<Rightarrow> u64 \<Rightarrow> bool) \<Rightarrow> (u64 \<Rightarrow> u64 list) \<Rightarrow> 'v cluster \<Rightarrow> Link \<Rightarrow> u64 \<Rightarrow> bool" where
  "delivered Contains order cl link a =
     (case cl a of None \<Rightarrow> False
      | Some s \<Rightarrow> findPath Contains (order a) s link = Some (ToClient (Destination link)))"

text \<open>
  A gossip round from \<open>b\<close> to \<open>a\<close>: \<open>b\<close> rebuilds its summary, \<open>a\<close> receives it in a push/pull
  exchange and merges it.
\<close>

definition gossip_round ::
  "'v acme_env \<Rightarrow> (u64 list \<Rightarrow> error + BinaryFuse8) \<Rightarrow> u64 list \<Rightarrow> ('p, 'v) Server \<Rightarrow> ('p, 'v) Server \<Rightarrow> ('p, 'v) Server go" where
  "gossip_round env Populate order b a =
     bind_go (LocalState env (generateConnectedClients Populate order b) False) (\<lambda>buf.
     bind_go (MergeRemoteState env a buf False) (\<lambda>a. Ret (handleMerge a)))"

text \<open>
  A filter with one key and one false positive, for examples: what a fuse filter may be for a
  list of one client.
\<close>

definition single_Populate :: "u64 list \<Rightarrow> error + BinaryFuse8" where
  "single_Populate keys =
     (case keys of
        [k] \<Rightarrow> Inr \<lparr>Seed = k, SegmentLength = 0, SegmentLengthMask = 0, SegmentCount = 0, SegmentCountLength = 0, Fingerprints = [1]\<rparr>
      | _ \<Rightarrow> Inl (Errorf ''size'' []))"

definition single_Contains :: "BinaryFuse8 \<Rightarrow> u64 \<Rightarrow> bool" where
  "single_Contains f k = (k = Seed f \<or> k = 300)"

text \<open>A server with one client and a session with one other server.\<close>

definition small_server :: "u64 \<Rightarrow> u64 \<Rightarrow> u64 \<Rightarrow> (session, bytes) Server" where
  "small_server self client peer =
     \<lparr>srv_id = self, currentLeader = 0, srv_meta = Meta_zero, metaBytes = [],
      srv_peers = PM_register (NewPeerMap self) peer (ToPeer peer),
      srv_clients = PM_register (NewPeerMap self) client (ToClient client),
      srv_peerGraph = NewPeerGraph self, gossipCfg = gossipCfg plain_server,
      updatesCh = [], cached = None, clientEvtCh = 0, membershipCh = 0, certManager = plain_manager,
      srv_Domain = ''x.y'', srv_Debug = False, srv_Members = []\<rparr>"

section \<open>Lemmas\<close>

lemma findPath_local: "pm_peers (srv_clients s) (Destination link) = Some p \<Longrightarrow> findPath Contains order s link = Some p"
  by (simp add: findPath_def PM_Get_def)

text \<open>What one gossip round does, when the summary can be built and transmitted.\<close>

lemma gossip_round_eq:
  assumes "Populate order = Inr f" and "length (Fingerprints f) \<le> maxAlloc" and "srv_id b \<noteq> srv_id a" and "updatesCh a = []"
  shows "gossip_round env Populate order b a =
    Ret (a\<lparr>srv_peerGraph := fst (PeerGraph_Replace (srv_peerGraph a)
                                  \<lparr>cc_Peer = srv_id b, cc_CRC64 = crc64_ids order, cc_f = f\<rparr>)\<rparr>)"
proof -
  let ?c = "\<lparr>cc_Peer = srv_id b, cc_CRC64 = crc64_ids order, cc_f = f\<rparr>"
  have "cached (generateConnectedClients Populate order b) = Some (CC_MarshalBinary ?c)"
    using assms(1) by (simp add: generateConnectedClients_def NewConnectedClients_def)
  moreover have "CC_MarshalBinary ?c \<noteq> []"
    by simp
  moreover have "CC_UnmarshalBinary (CC_MarshalBinary ?c) = Ret (Inr ?c)"
    using assms(2) by (simp add: CC_Unmarshal_Marshal wf_cc_def)
  ultimately have "gossip_round env Populate order b a = Ret (handleMerge (a\<lparr>updatesCh := [?c]\<rparr>))"
    using assms(4) by (simp add: gossip_round_def LocalState_def MergeRemoteState_def)
  also have "handleMerge (a\<lparr>updatesCh := [?c]\<rparr>) = a\<lparr>srv_peerGraph := fst (PeerGraph_Replace (srv_peerGraph a) ?c)\<rparr>"
    using assms(3,4) by (cases a) (simp add: handleMerge_def merge_one_def)
  finally show ?thesis .
qed

lemma Replace_Has:
  assumes "CC_Has Contains c k"
    and "\<And>old. p (cc_Peer c) = Some old \<Longrightarrow> cc_CRC64 old = cc_CRC64 c \<Longrightarrow> CC_Has Contains old k"
  obtains d where "fst (PeerGraph_Replace p c) (cc_Peer c) = Some d" and "CC_Has Contains d k"
proof (cases "p (cc_Peer c)")
  case None
  with assms(1) show ?thesis
    by (intro that [of c]) (simp_all add: PeerGraph_Replace_def)
next
  case (Some old)
  with assms show ?thesis
    by (cases "cc_CRC64 old = cc_CRC64 c"; intro that [of "if cc_CRC64 old = cc_CRC64 c then old else c"])
      (simp_all add: PeerGraph_Replace_def)
qed

lemma Replace_other: "q \<noteq> cc_Peer c \<Longrightarrow> fst (PeerGraph_Replace p c) q = p q"
  by (auto simp: PeerGraph_Replace_def Let_def split: option.splits)

section \<open>Properties\<close>




end
