(* ===== verification/Gateway.thy ===== *)
theory Gateway
  imports Client Routing
begin

text \<open>
  The gateway: package \<^verbatim>\<open>gateway\<close>. The multiplexer by ALPN hands each TLS connection to the listener
  of its protocol; the gateway's loop takes the visitors' connections and sends them to the
  landing page, to the HTTP proxy or, raw, to the client's session. Templates and the TLS
  handshake are arguments; the counters of package \<^verbatim>\<open>profiler\<close> are left out.
\<close>

section \<open>The multiplexer by ALPN\<close>

text \<open>What \<^verbatim>\<open>ConnectionState()\<close> says of a connection; the number tells connections apart.\<close>

record tls_conn =
  tc_id :: nat
  ServerName :: string
  NegotiatedProtocol :: string

text \<open>
  The channels are numbered in the order of the calls of \<^verbatim>\<open>For\<close>. Beside the fields of \<^verbatim>\<open>ALPN\<close> the
  state has the connections that have arrived, those whose handshake runs, those that were
  closed, with the error of their handshake, and those each listener has handed out.
\<close>

record alpn_mux =
  mux_protos :: "string \<rightharpoonup> nat"
  mux_chans :: "tls_conn list list"
  mux_done :: bool
  mux_arrived :: "tls_conn multiset"
  mux_pending :: "tls_conn multiset"
  mux_closed :: "(error option \<times> tls_conn) multiset"
  mux_accepted :: "(nat \<times> tls_conn) list"

definition NewALPNMux :: alpn_mux where
  "NewALPNMux =
     \<lparr>mux_protos = Map.empty, mux_chans = [], mux_done = False, mux_arrived = {#}, mux_pending = {#},
      mux_closed = {#}, mux_accepted = []\<rparr>"

definition protoCap :: nat where
  "protoCap = 32"

definition ALPN_For :: "ALPN list \<Rightarrow> alpn_mux \<Rightarrow> nat \<times> alpn_mux" where
  "ALPN_For protos a =
     (let ch = length (mux_chans a)
      in (ch, a\<lparr>mux_protos := foldl (\<lambda>m proto. m(ALPN_String proto \<mapsto> ch)) (mux_protos a) protos,
                mux_chans := mux_chans a @ [[]]\<rparr>))"

text \<open>
  The end of \<^verbatim>\<open>handshake\<close>, with the outcome of \<^verbatim>\<open>HandshakeContext\<close>. The send into a full channel
  waits: \<^const>\<open>None\<close>.
\<close>

definition ALPN_handshake :: "error option \<Rightarrow> tls_conn \<Rightarrow> alpn_mux \<Rightarrow> alpn_mux option" where
  "ALPN_handshake err conn a =
     (case err of
        Some e \<Rightarrow> Some (a\<lparr>mux_closed := add_mset (err, conn) (mux_closed a)\<rparr>)
      | None \<Rightarrow>
        (case mux_protos a (NegotiatedProtocol conn) of
           None \<Rightarrow> Some (a\<lparr>mux_closed := add_mset (err, conn) (mux_closed a)\<rparr>)
         | Some ch \<Rightarrow>
           if length (mux_chans a ! ch) < protoCap
           then Some (a\<lparr>mux_chans := (mux_chans a)[ch := mux_chans a ! ch @ [conn]]\<rparr>)
           else None))"

text \<open>
  \<^verbatim>\<open>protoListener.Accept\<close>: with a connection and the end both there, \<^verbatim>\<open>select\<close> picks either, which
  is the first argument; \<^const>\<open>None\<close> waits.
\<close>

definition protoListener_Accept :: "bool \<Rightarrow> nat \<Rightarrow> alpn_mux \<Rightarrow> ((error + tls_conn) \<times> alpn_mux) option" where
  "protoListener_Accept prefer_d ch a =
     (case mux_chans a ! ch of
        [] \<Rightarrow> if mux_done a then Some (Inl (Sentinel ErrClosed), a) else None
      | conn # cs \<Rightarrow>
        if mux_done a \<and> prefer_d then Some (Inl (Sentinel ErrClosed), a)
        else Some (Inr conn, a\<lparr>mux_chans := (mux_chans a)[ch := cs], mux_accepted := mux_accepted a @ [(ch, conn)]\<rparr>))"

text \<open>
  \<^verbatim>\<open>Serve\<close>, the goroutines it starts, and the listeners. The TLS listener underneath gives only TLS
  connections, so that the assertion of their type holds.
\<close>

inductive alpn_step :: "alpn_mux \<Rightarrow> alpn_mux \<Rightarrow> bool" where
  serve_conn: "\<not> mux_done a \<Longrightarrow> alpn_step a
    (a\<lparr>mux_arrived := add_mset conn (mux_arrived a), mux_pending := add_mset conn (mux_pending a)\<rparr>)"
| serve_end: "\<not> mux_done a \<Longrightarrow> alpn_step a (a\<lparr>mux_done := True\<rparr>)"
| handshake: "conn \<in># mux_pending a \<Longrightarrow>
    ALPN_handshake err conn (a\<lparr>mux_pending := mux_pending a - {#conn#}\<rparr>) = Some a' \<Longrightarrow> alpn_step a a'"
| accept: "ch < length (mux_chans a) \<Longrightarrow> protoListener_Accept prefer_d ch a = Some (r, a') \<Longrightarrow> alpn_step a a'"

text \<open>The two listeners that the server's \<^verbatim>\<open>main\<close> asks for.\<close>

definition server_listeners :: "nat \<times> nat \<times> alpn_mux" where
  "server_listeners =
     (let (clientTLSListener, a) = ALPN_For [ALPN_Multiplexer] NewALPNMux;
          (gatewayListener, a) = ALPN_For [ALPN_Raw, ALPN_HTTP, ALPN_Unknown] a
      in (clientTLSListener, gatewayListener, a))"

section \<open>The landing page\<close>

record apexServer =
  as_hostname :: string
  as_host :: string
  as_clientPort :: nat

text \<open>The answer of a handler: the status and the body.\<close>

type_synonym response = "nat \<times> bytes"

definition handleLookup :: "apexServer \<Rightarrow> response" where
  "handleLookup a = (200, string_bytes (json_Encode (Where_json (as_hostname a) (as_clientPort a))))"

text \<open>
  The templates are arguments: \<open>mdExec\<close> gives the text or an error, \<open>indexExec\<close> what it has
  written and its error. \<open>rnd\<close> is the result of \<^verbatim>\<open>rand.Intn(50000)\<close>.
\<close>

definition handleRoot ::
  "(string \<times> string \<times> nat \<Rightarrow> error + string) \<Rightarrow> (string \<Rightarrow> bytes \<times> error option) \<Rightarrow>
   (nat \<Rightarrow> error + string list) \<Rightarrow> nat \<Rightarrow> apexServer \<Rightarrow> response" where
  "handleRoot mdExec indexExec Generate rnd a =
     (case mdExec (as_host a, RandomHostname Generate, rnd + 1024) of
        Inl err \<Rightarrow> (200, [])
      | Inr md \<Rightarrow>
        let buf = json_Marshal (JStr md) in
        case indexExec (take (length buf - 2) (drop 1 buf)) of (b, err) \<Rightarrow> (200, b))"

definition apex_Handler ::
  "(string \<times> string \<times> nat \<Rightarrow> error + string) \<Rightarrow> (string \<Rightarrow> bytes \<times> error option) \<Rightarrow>
   (nat \<Rightarrow> error + string list) \<Rightarrow> nat \<Rightarrow> apexServer \<Rightarrow> string \<Rightarrow> response" where
  "apex_Handler mdExec indexExec Generate rnd a path =
     (if path = ''/where'' then handleLookup a else handleRoot mdExec indexExec Generate rnd a)"

section \<open>The gateway\<close>

record GatewayConfig =
  RootDomain :: string
  GatewayPort :: nat

record Gateway =
  gw_conf :: GatewayConfig
  gw_apex :: apexServer
  apexAcceptor :: "tls_conn list"
  httpTunnelAcceptor :: "tls_conn list"

definition accepterCap :: nat where
  "accepterCap = 1024"

text \<open>\<^verbatim>\<open>New\<close>, with the errors of parsing the two templates.\<close>

definition Gateway_New :: "error option \<Rightarrow> error option \<Rightarrow> GatewayConfig \<Rightarrow> error + Gateway" where
  "Gateway_New mdErr idxErr conf =
     (case mdErr of
        Some err \<Rightarrow> Inl (Wrapf ''reading markdown for apex template: %w'' [] err)
      | None \<Rightarrow>
        (case idxErr of
           Some err \<Rightarrow> Inl (Wrapf ''reading index for apex template: %w'' [] err)
         | None \<Rightarrow>
           let d = RootDomain conf;
               d = (if GatewayPort conf \<noteq> 443 then d @ '':'' @ itoa (GatewayPort conf) else d)
           in Inr \<lparr>gw_conf = conf,
                   gw_apex = \<lparr>as_hostname = RootDomain conf, as_host = d, as_clientPort = GatewayPort conf\<rparr>,
                   apexAcceptor = [], httpTunnelAcceptor = []\<rparr>))"

definition gateway_link :: "ALPN list \<Rightarrow> ('p, 'v) Server \<Rightarrow> string \<Rightarrow> string \<Rightarrow> Link" where
  "gateway_link alpns s sni proto =
     (let parts = SplitN2 (CHR ''.'') sni;
          clientID = PeerHash (hd parts)
      in \<lparr>Source = srv_id s, Destination = clientID, Protocol = 0, ALPN = ReverseMap_get alpns proto\<rparr>)"

text \<open>
  One connection of the loop in \<^verbatim>\<open>Start\<close>: what becomes of it, and the gateway with its two channels.
  A send into a full channel waits: \<^const>\<open>None\<close>.
\<close>

datatype 'r visit = Queued | Forwarded 'r | VisitClosed

definition handleConnection ::
  "(BinaryFuse8 \<Rightarrow> u64 \<Rightarrow> bool) \<Rightarrow> u64 list \<Rightarrow> ALPN list \<Rightarrow> ('p \<Rightarrow> tls_conn \<Rightarrow> Link \<Rightarrow> error + 'r) \<Rightarrow>
   ('p, 'v) Server \<Rightarrow> Gateway \<Rightarrow> tls_conn \<Rightarrow> ('r visit \<times> Gateway) option" where
  "handleConnection Contains order alpns Bidirectional s g conn =
     (if ServerName conn = RootDomain (gw_conf g) then
        (if length (apexAcceptor g) < accepterCap
         then Some (Queued, g\<lparr>apexAcceptor := apexAcceptor g @ [conn]\<rparr>) else None)
      else if NegotiatedProtocol conn \<in> {ALPN_String ALPN_Unknown, ALPN_String ALPN_HTTP} then
        (if length (httpTunnelAcceptor g) < accepterCap
         then Some (Queued, g\<lparr>httpTunnelAcceptor := httpTunnelAcceptor g @ [conn]\<rparr>) else None)
      else if NegotiatedProtocol conn = ALPN_String ALPN_Raw then
        (case Forward Contains order Bidirectional s conn
                (gateway_link alpns s (ServerName conn) (NegotiatedProtocol conn)) of
           Inl err \<Rightarrow> if errors_Is err ErrDestinationNotFound then Some (VisitClosed, g) else Some (VisitClosed, g)
         | Inr r \<Rightarrow> Some (Forwarded r, g))
      else if NegotiatedProtocol conn = ALPN_String ALPN_Multiplexer then Some (VisitClosed, g)
      else Some (VisitClosed, g))"

text \<open>\<^verbatim>\<open>httpAccepter.Accept\<close> on what its channel gives; \<^verbatim>\<open>nil\<close> is \<^const>\<open>None\<close>.\<close>

definition gateway_Accept :: "tls_conn option \<Rightarrow> error + tls_conn" where
  "gateway_Accept c = (case c of None \<Rightarrow> Inl (Sentinel EOF) | Some c \<Rightarrow> Inr c)"

text \<open>
  The loop of \<^verbatim>\<open>Start\<close> over the results of \<^verbatim>\<open>Listener.Accept\<close>: the connections that were handed to
  \<^verbatim>\<open>handleConnection\<close>, and the error that ended the loop, if it has ended.
\<close>

fun gateway_Start :: "(error + tls_conn) list \<Rightarrow> tls_conn list \<times> error option" where
  "gateway_Start [] = ([], None)"
| "gateway_Start (Inl err # rs) = ([], Some err)"
| "gateway_Start (Inr conn # rs) = (case gateway_Start rs of (conns, err) \<Rightarrow> (conn # conns, err))"

section \<open>The proxy for HTTP\<close>

text \<open>
  A request that comes in for a server name is sent to that host: the director rewrites the
  address, and the transport, which adds the port of the scheme to a host without one, dials
  through the session of the client.
\<close>

definition http_Director :: "tls_conn \<Rightarrow> URL" where
  "http_Director conn = \<lparr>url_Scheme = ''http'', url_Host = ServerName conn\<rparr>"

definition JoinHostPort :: "string \<Rightarrow> string \<Rightarrow> string" where
  "JoinHostPort host port =
     (if CHR '':'' \<in> set host then ''['' @ host @ '']:'' @ port else host @ '':'' @ port)"

definition canonicalAddr :: "URL \<Rightarrow> string" where
  "canonicalAddr u =
     JoinHostPort (URL_Hostname u)
       (if URL_Port u \<noteq> '''' then URL_Port u else if url_Scheme u = ''http'' then ''80''
        else if url_Scheme u = ''https'' then ''443'' else '''')"

definition http_DialContext ::
  "(BinaryFuse8 \<Rightarrow> u64 \<Rightarrow> bool) \<Rightarrow> u64 list \<Rightarrow> ALPN list \<Rightarrow> ('p \<Rightarrow> Link \<Rightarrow> error + 'r) \<Rightarrow>
   ('p, 'v) Server \<Rightarrow> string \<Rightarrow> error + 'r" where
  "http_DialContext Contains order alpns DirectCall s addr =
     Direct Contains order DirectCall s (gateway_link alpns s addr (ALPN_String ALPN_HTTP))"

text \<open>
  The limits of the transport, in nanoseconds where they are times, and the response on its way
  back: \<^verbatim>\<open>Header.Del\<close> takes the canonical form of the name.
\<close>

record http_Transport =
  MaxConnsPerHost :: nat
  MaxIdleConnsPerHost :: nat
  IdleConnTimeout :: nat
  ResponseHeaderTimeout :: nat
  ExpectContinueTimeout :: nat

definition ConnIdleTimeout :: nat where
  "ConnIdleTimeout = second * 30"

definition http_transport :: http_Transport where
  "http_transport =
     \<lparr>MaxConnsPerHost = 15, MaxIdleConnsPerHost = 3, IdleConnTimeout = ConnIdleTimeout,
      ResponseHeaderTimeout = second * 30, ExpectContinueTimeout = second * 3\<rparr>"

definition http_ModifyResponse :: "(string \<rightharpoonup> string list) \<Rightarrow> (string \<rightharpoonup> string list)" where
  "http_ModifyResponse header = header(''Alt-Svc'' := None)"

text \<open>The buffers of the proxy: \<open>Get\<close> and \<open>Put\<close> are those of the pool library.\<close>

definition gateway_bufferSize :: nat where
  "gateway_bufferSize = 8 * 1024"

definition bufferPool_Get :: "(nat \<Rightarrow> 'pool \<Rightarrow> bytes \<times> 'pool) \<Rightarrow> 'pool \<Rightarrow> bytes \<times> 'pool" where
  "bufferPool_Get Get p = Get gateway_bufferSize p"

definition bufferPool_Put :: "(bytes \<Rightarrow> 'pool \<Rightarrow> 'pool) \<Rightarrow> bytes \<Rightarrow> 'pool \<Rightarrow> 'pool" where
  "bufferPool_Put Put buf p = Put buf p"

text \<open>The status that \<^verbatim>\<open>errorHandler\<close> writes, and the text; \<^const>\<open>None\<close> if it writes nothing.\<close>

definition errorHandler :: "string \<Rightarrow> error \<Rightarrow> (nat \<times> string) option" where
  "errorHandler hostname e =
     (if errors_Is e ErrDestinationNotFound then
        Some (404, ''Destination '' @ hostname @ '' not found. Propagation may take up to 2 minutes.'')
      else if IsTimeout e then Some (504, ''Destination '' @ hostname @ '' is taking too long to respond.'')
      else if errors_Is e Canceled then None
      else Some (503, ''An unexpected error has occurred while attempting to forward to destination.''))"

section \<open>Redirection to HTTPS\<close>

text \<open>
  \<^verbatim>\<open>url.escape\<close> for hosts and for paths; \<^verbatim>\<open>EscapedPath\<close> of an address without \<^verbatim>\<open>RawPath\<close>;
  \<^verbatim>\<open>String\<close> of an address with scheme, host, path and query.
\<close>

definition unreserved :: "char \<Rightarrow> bool" where
  "unreserved c = (let n = (of_char c :: nat) in
     97 \<le> n \<and> n \<le> 122 \<or> 65 \<le> n \<and> n \<le> 90 \<or> 48 \<le> n \<and> n \<le> 57 \<or> c \<in> set ''-_.~'')"

definition shouldEscape_host :: "char \<Rightarrow> bool" where
  "shouldEscape_host c = (\<not> unreserved c \<and> c \<notin> set ''!$&()*+,;=:[]<>'' \<union> {CHR 0x22, CHR 0x27})"

definition shouldEscape_path :: "char \<Rightarrow> bool" where
  "shouldEscape_path c = (\<not> unreserved c \<and> c \<notin> set ''$&+,/:;=@'')"

definition percent :: "char \<Rightarrow> string" where
  "percent c = (let n = (of_char c :: nat) in
     [CHR ''%'', ''0123456789ABCDEF'' ! (n div 16), ''0123456789ABCDEF'' ! (n mod 16)])"

definition url_escape :: "(char \<Rightarrow> bool) \<Rightarrow> string \<Rightarrow> string" where
  "url_escape shouldEscape s = concat (map (\<lambda>c. if shouldEscape c then percent c else [c]) s)"

definition EscapedPath :: "string \<Rightarrow> string" where
  "EscapedPath p = (if p = ''*'' then ''*'' else url_escape shouldEscape_path p)"

definition URL_String :: "string \<Rightarrow> string \<Rightarrow> string \<Rightarrow> string \<Rightarrow> string" where
  "URL_String scheme host path query =
     (let p = EscapedPath path in
      scheme @ '':'' @ (if host \<noteq> [] \<or> path \<noteq> [] then ''//'' else []) @ url_escape shouldEscape_host host @
      (if p \<noteq> [] \<and> hd p \<noteq> CHR ''/'' \<and> host \<noteq> [] then ''/'' else []) @ p @
      (if query \<noteq> [] then CHR ''?'' # query else []))"

text \<open>\<^verbatim>\<open>http.Redirect\<close> escapes what is not ASCII, with small letters.\<close>

definition hexEscapeNonASCII :: "string \<Rightarrow> string" where
  "hexEscapeNonASCII s =
     concat (map (\<lambda>c. let n = (of_char c :: nat) in
       if 128 \<le> n then [CHR ''%'', ''0123456789abcdef'' ! (n div 16), ''0123456789abcdef'' ! (n mod 16)] else [c]) s)"

definition httpRedirecter :: "string \<Rightarrow> string \<Rightarrow> string \<Rightarrow> nat \<times> string" where
  "httpRedirecter host path query = (308, hexEscapeNonASCII (URL_String ''https'' host path query))"

text \<open>The address \<^verbatim>\<open>RedirectHTTP\<close> listens on, if it does.\<close>

definition RedirectHTTP :: "string \<Rightarrow> nat \<Rightarrow> string option" where
  "RedirectHTTP bindAddr webPort = (if webPort \<noteq> 443 then None else Some (bindAddr @ '':80''))"

section \<open>Example\<close>

definition plain_gateway :: Gateway where
  "plain_gateway =
     \<lparr>gw_conf = \<lparr>RootDomain = ''x.y'', GatewayPort = 443\<rparr>,
      gw_apex = \<lparr>as_hostname = ''x.y'', as_host = ''x.y'', as_clientPort = 443\<rparr>,
      apexAcceptor = [], httpTunnelAcceptor = []\<rparr>"

section \<open>Lemmas\<close>

subsection \<open>Routing by ALPN\<close>

lemma mset_concat_update:
  "i < length xss \<Longrightarrow> mset (concat (xss[i := ys])) + mset (xss ! i) = mset (concat xss) + mset ys"
  by (induction xss arbitrary: i) (auto split: nat.splits)

text \<open>
  Whatever waits in a channel or was taken out of it has a protocol stored for the channel, a
  channel holds at most its capacity, a connection closed for want of a listener has no
  channel, and every connection is in exactly one place.
\<close>

definition alpn_inv :: "(string \<rightharpoonup> nat) \<Rightarrow> alpn_mux \<Rightarrow> bool" where
  "alpn_inv protos a =
     (mux_protos a = protos \<and> ran protos \<subseteq> {..<length (mux_chans a)} \<and>
      (\<forall>ch < length (mux_chans a). length (mux_chans a ! ch) \<le> protoCap \<and>
         (\<forall>conn \<in> set (mux_chans a ! ch). protos (NegotiatedProtocol conn) = Some ch)) \<and>
      (\<forall>(ch, conn) \<in> set (mux_accepted a). protos (NegotiatedProtocol conn) = Some ch) \<and>
      (\<forall>(err, conn) \<in># mux_closed a. err = None \<longrightarrow> protos (NegotiatedProtocol conn) = None) \<and>
      mux_arrived a =
        mux_pending a + image_mset snd (mux_closed a) + mset (concat (mux_chans a)) + mset (map snd (mux_accepted a)))"

lemma alpn_inv_handshake [inv_intros]:
  assumes "alpn_inv protos a" and "conn \<in># mux_pending a"
    and "ALPN_handshake err conn (a\<lparr>mux_pending := mux_pending a - {#conn#}\<rparr>) = Some a'"
  shows "alpn_inv protos a'"
proof (cases "err = None \<and> protos (NegotiatedProtocol conn) \<noteq> None")
  case True
  then obtain ch where ch: "protos (NegotiatedProtocol conn) = Some ch" "ch < length (mux_chans a)"
    using assms(1) by (auto simp: alpn_inv_def ran_def)
  with True assms have a': "a' = a\<lparr>mux_pending := mux_pending a - {#conn#},
      mux_chans := (mux_chans a)[ch := mux_chans a ! ch @ [conn]]\<rparr>" and "length (mux_chans a ! ch) < protoCap"
    by (auto simp: ALPN_handshake_def alpn_inv_def split: if_splits)
  moreover have "mset (concat ((mux_chans a)[ch := mux_chans a ! ch @ [conn]])) = add_mset conn (mset (concat (mux_chans a)))"
    using mset_concat_update [OF ch(2), of "mux_chans a ! ch @ [conn]"] by simp
  ultimately show ?thesis
    using assms(1,2) ch by (auto simp: alpn_inv_def nth_list_update)
next
  case False
  with assms have "a' = a\<lparr>mux_pending := mux_pending a - {#conn#}, mux_closed := add_mset (err, conn) (mux_closed a)\<rparr>"
    by (auto simp: ALPN_handshake_def alpn_inv_def split: option.splits)
  with False assms(1,2) show ?thesis
    by (auto simp: alpn_inv_def)
qed

lemma alpn_inv_accept [inv_intros]:
  assumes "alpn_inv protos a" and "ch < length (mux_chans a)" and "protoListener_Accept prefer_d ch a = Some (r, a')"
  shows "alpn_inv protos a'"
proof (cases "a' = a")
  case False
  with assms(3) obtain conn cs where c: "mux_chans a ! ch = conn # cs"
      "a' = a\<lparr>mux_chans := (mux_chans a)[ch := cs], mux_accepted := mux_accepted a @ [(ch, conn)]\<rparr>"
    by (auto simp: protoListener_Accept_def split: list.splits if_splits)
  moreover have "add_mset conn (mset (concat ((mux_chans a)[ch := cs]))) = mset (concat (mux_chans a))"
    using mset_concat_update [OF assms(2), of cs] c(1) by simp
  then have "mset (concat (mux_chans a)) = add_mset conn (mset (concat ((mux_chans a)[ch := cs])))" ..
  ultimately show ?thesis
    using assms(1,2) by (auto simp: alpn_inv_def nth_list_update)
qed (use assms in simp)

lemma alpn_inv_step:
  assumes "alpn_step a a'" and inv: "alpn_inv protos a"
  shows "alpn_inv protos a'"
  using assms(1)
proof cases
  case (serve_conn conn)
  with inv show ?thesis by (simp add: alpn_inv_def)
next
  case serve_end
  with inv show ?thesis by (simp add: alpn_inv_def)
next
  case (handshake conn err)
  with inv show ?thesis by (metis alpn_inv_handshake)
next
  case (accept ch prefer_d r)
  with inv show ?thesis by (metis alpn_inv_accept)
qed

interpretation alpn_runs: step_invariant alpn_step "alpn_inv protos"
  by unfold_locales (rule alpn_inv_step)

lemma server_listeners_eq:
  "server_listeners = (0, 1, NewALPNMux
     \<lparr>mux_protos := [''multiplexer'' \<mapsto> 0, ''raw'' \<mapsto> 1, ''http/1.1'' \<mapsto> 1, '''' \<mapsto> 1], mux_chans := [[], []]\<rparr>)"
  by (simp add: server_listeners_def ALPN_For_def NewALPNMux_def Let_def)

lemma server_listeners_inv:
  "alpn_inv [''multiplexer'' \<mapsto> 0, ''raw'' \<mapsto> 1, ''http/1.1'' \<mapsto> 1, '''' \<mapsto> 1] (snd (snd server_listeners))"
  by (auto simp: server_listeners_eq alpn_inv_def NewALPNMux_def protoCap_def less_Suc_eq ran_def split: if_splits)

subsection \<open>Redirection\<close>

lemma url_escape_plain: "list_all (\<lambda>c. \<not> esc c) s \<Longrightarrow> url_escape esc s = s"
  unfolding url_escape_def by (induction s) auto

lemma hexEscape_ASCII: "list_all (\<lambda>c. (of_char c :: nat) < 128) s \<Longrightarrow> hexEscapeNonASCII s = s"
  unfolding hexEscapeNonASCII_def by (induction s) auto

text \<open>A request with a plain host and path is sent to the same host, path and query under HTTPS.\<close>

lemma redirect_plain:
  assumes "host \<noteq> []" and "list_all (\<lambda>c. \<not> shouldEscape_host c) host" and "list_all (\<lambda>c. \<not> shouldEscape_path c) (CHR ''/'' # path)"
    and "list_all (\<lambda>c. (of_char c :: nat) < 128) (host @ path @ query)"
  shows "httpRedirecter host (CHR ''/'' # path) query =
    (308, ''https://'' @ host @ CHR ''/'' # path @ (if query = [] then [] else CHR ''?'' # query))"
proof -
  have "URL_String ''https'' host (CHR ''/'' # path) query =
      ''https://'' @ host @ CHR ''/'' # path @ (if query = [] then [] else CHR ''?'' # query)"
    using assms(1-3) by (simp add: URL_String_def EscapedPath_def url_escape_plain Let_def)
  moreover have "list_all (\<lambda>c. (of_char c :: nat) < 128)
      (''https://'' @ host @ CHR ''/'' # path @ (if query = [] then [] else CHR ''?'' # query))"
    using assms(4) by (simp add: of_char_Char)
  ultimately show ?thesis
    by (simp only: httpRedirecter_def hexEscape_ASCII)
qed

subsection \<open>Links for visitors\<close>

lemma gateway_link_name:
  assumes "CHR ''.'' \<notin> set name" and "map_order ALPN_Map alpns" and "a \<in> dom ALPN_Map"
  shows "gateway_link alpns s (name @ ''.'' @ d) (ALPN_String a) =
    \<lparr>Source = srv_id s, Destination = PeerHash name, Protocol = 0, ALPN = a\<rparr>"
  using assms by (simp add: gateway_link_def SplitN2_sep ReverseMap_get_def ReverseMap_String)

text \<open>A host without a colon and not in brackets keeps its name and gets the port of the scheme.\<close>

text \<open>Until the listener fails, every connection is handled, in order; nothing is accepted afterwards.\<close>

lemma gateway_Start_accepted:
  "gateway_Start (map Inr conns) = (conns, None)" "gateway_Start (map Inr conns @ Inl err # rs) = (conns, Some err)"
  by (induction conns) simp_all

lemma canonicalAddr_plain:
  assumes "CHR '':'' \<notin> set h" and "hd h \<noteq> CHR ''[''"
  shows "canonicalAddr \<lparr>url_Scheme = ''http'', url_Host = h\<rparr> = h @ '':80''"
proof -
  have "takeWhile (\<lambda>c. c \<noteq> CHR '':'') (rev h) = rev h"
    using assms(1) by (auto simp: takeWhile_eq_all_conv)
  then have "splitHostPort h = (h, '''')"
    unfolding splitHostPort_def Let_def using assms(2) by (simp only: length_rev) simp
  with assms show ?thesis
    by (simp add: canonicalAddr_def URL_Hostname_def URL_Port_def JoinHostPort_def)
qed

section \<open>Properties\<close>

text \<open>C1: a visitor of a tunnel reaches the client that was given its name. After the server has
admitted a client under a name (which has no dot, colon or opening bracket), a visitor whose
server name is that name below the gateway's domain is handled by the client's session: a raw
connection is passed to the session with a link for the client's identifier, an HTTP connection
goes to the proxy, and the proxy's dial for it, under the address the transport derives from the
rewritten request, opens a stream on the same session.\<close>

theorem visitor_reaches_client:
  assumes contract: "reader_contract Read"
    and run: "clientNegotiation e Read Write Generate now connector protos s conn = (None, s', conn')"
    and name: "name = RandomHostname Generate" and chars: "set name \<inter> set ''.:['' = {}"
    and dom: "CHR '':'' \<notin> set (RootDomain (gw_conf g))" and alpns: "map_order ALPN_Map alpns"
    and sni: "ServerName v = name @ ''.'' @ RootDomain (gw_conf g)"
  shows "\<exists>p. PM_Get (srv_clients s') (PeerHash name) = Some p \<and>
    (NegotiatedProtocol v = ''raw'' \<longrightarrow>
       handleConnection Contains order alpns Bidirectional s' g v =
         (case Bidirectional p v \<lparr>Source = srv_id s, Destination = PeerHash name, Protocol = 0, ALPN = ALPN_Raw\<rparr> of
            Inl err \<Rightarrow> Some (VisitClosed, g) | Inr r \<Rightarrow> Some (Forwarded r, g))) \<and>
    (NegotiatedProtocol v \<in> {'''', ''http/1.1''} \<longrightarrow> length (httpTunnelAcceptor g) < accepterCap \<longrightarrow>
       handleConnection Contains order alpns Bidirectional s' g v =
         Some (Queued, g\<lparr>httpTunnelAcceptor := httpTunnelAcceptor g @ [v]\<rparr>)) \<and>
    http_DialContext Contains order alpns DirectCall s' (canonicalAddr (http_Director v)) =
      DirectCall p \<lparr>Source = srv_id s, Destination = PeerHash name, Protocol = 0, ALPN = ALPN_HTTP\<rparr>"
proof -
  obtain p where s': "s' = s\<lparr>srv_clients := PM_register (srv_clients s) (PeerHash name) p\<rparr>"
    using contract run name by (rule clientNegotiation_registers)
  then have get: "PM_Get (srv_clients s') (PeerHash name) = Some p" and id: "srv_id s' = srv_id s"
    by (simp_all add: PM_Get_def PM_register_def PM_Notify_def PM_Count_def PM_Store_def)
  have dot: "CHR ''.'' \<notin> set name" and root: "ServerName v \<noteq> RootDomain (gw_conf g)"
    using chars sni by auto
  have "hd (ServerName v) \<noteq> CHR ''[''" "CHR '':'' \<notin> set (ServerName v)"
    using chars sni dom by (cases name; auto)+
  then have addr: "canonicalAddr (http_Director v) = name @ ''.'' @ (RootDomain (gw_conf g) @ '':80'')"
    unfolding http_Director_def by (subst canonicalAddr_plain) (simp_all add: sni)
  have path: "findPath Contains order s' \<lparr>Source = x, Destination = PeerHash name, Protocol = y, ALPN = z\<rparr> = Some p" for x y z
    using get by (simp add: findPath_def)
  have "http_DialContext Contains order alpns DirectCall s' (canonicalAddr (http_Director v)) =
      DirectCall p \<lparr>Source = srv_id s, Destination = PeerHash name, Protocol = 0, ALPN = ALPN_HTTP\<rparr>"
    using gateway_link_name [OF dot alpns, of ALPN_HTTP s' "RootDomain (gw_conf g) @ '':80''"]
    by (simp add: http_DialContext_def addr Direct_def path id dom_ALPN_Map)
  moreover have "gateway_link alpns s' (ServerName v) ''raw'' =
      \<lparr>Source = srv_id s, Destination = PeerHash name, Protocol = 0, ALPN = ALPN_Raw\<rparr>"
    using gateway_link_name [OF dot alpns, of ALPN_Raw s' "RootDomain (gw_conf g)"] by (simp add: sni id dom_ALPN_Map)
  ultimately show ?thesis
    using get root by (auto simp: handleConnection_def Forward_def path split: sum.split)
qed

lemma visitor_reaches_client_witness:
  "\<exists>s' conn' p. clientNegotiation plain_sessions duplex_Read duplex_Write (\<lambda>n. Inr [''a'', ''b'']) 0 5 QUICProtos plain_server
      (net_conn_of \<lparr>inbox = Link_MarshalBinary (client_hello QUIC), outbox = []\<rparr>) = (None, s', conn') \<and>
     PM_Get (srv_clients s') (PeerHash ''a-b'') = Some p \<and>
     handleConnection single_Contains [] [0, 1, 2, 3] (\<lambda>p v l. Inr (p, ALPN l)) s' plain_gateway
       \<lparr>tc_id = 0, ServerName = ''a-b.x.y'', NegotiatedProtocol = ''raw''\<rparr> = Some (Forwarded (p, ALPN_Raw), plain_gateway)"
proof -
  let ?G = "\<lambda>n :: nat. Inr [''a'', ''b''] :: error + string list"
  let ?v = "\<lparr>tc_id = 0, ServerName = ''a-b.x.y'', NegotiatedProtocol = ''raw''\<rparr>"
  have name: "''a-b'' = RandomHostname ?G"
    by (simp add: RandomHostname_def)
  obtain s' conn' where run: "clientNegotiation plain_sessions duplex_Read duplex_Write ?G 0 5 QUICProtos plain_server
      (net_conn_of \<lparr>inbox = Link_MarshalBinary (client_hello QUIC), outbox = []\<rparr>) = (None, s', conn')"
    by (rule plain_client_admitted)
  have "map_order ALPN_Map [0, 1, 2, 3]"
    unfolding map_order_def dom_ALPN_Map
    by (auto simp: ALPN_Unknown_def ALPN_Multiplexer_def ALPN_HTTP_def ALPN_Raw_def)
  moreover have "set ''a-b'' \<inter> set ''.:['' = {}" "CHR '':'' \<notin> set (RootDomain (gw_conf plain_gateway))"
    "ServerName ?v = ''a-b'' @ ''.'' @ RootDomain (gw_conf plain_gateway)"
    by (simp_all add: plain_gateway_def)
  ultimately obtain p where "PM_Get (srv_clients s') (PeerHash ''a-b'') = Some p"
    "handleConnection single_Contains [] [0, 1, 2, 3] (\<lambda>p v l. Inr (p, ALPN l)) s' plain_gateway ?v =
       Some (Forwarded (p, ALPN_Raw), plain_gateway)"
    using visitor_reaches_client [OF reader_contract_duplex run name, of plain_gateway "[0, 1, 2, 3]" ?v single_Contains "[]"
        "\<lambda>p v l. Inr (p, ALPN l)"] by auto
  with run show ?thesis
    by blast
qed

text \<open>C8: the multiplexer by ALPN routes every connection to the listener of its protocol. With the
two listeners of the server's \<^verbatim>\<open>main\<close>, under every interleaving of accepting, handshakes and
listeners, the listener for clients hands out only connections that negotiated the multiplexer,
the listener of the gateway only raw, HTTP or no protocol, so that its branches for the
multiplexer and for unknown protocols are dead; a connection is closed after a successful
handshake only if its protocol is none of the four; no queue exceeds its 32 places; and every
connection that arrived is in its handshake, closed, queued or handed out, exactly once.\<close>

theorem alpn_routes:
  assumes start: "server_listeners = (clientTLSListener, gatewayListener, a0)" and run: "alpn_step\<^sup>*\<^sup>* a0 a"
  shows "(\<forall>conn. (clientTLSListener, conn) \<in> set (mux_accepted a) \<longrightarrow> NegotiatedProtocol conn = ''multiplexer'') \<and>
    (\<forall>conn. (gatewayListener, conn) \<in> set (mux_accepted a) \<longrightarrow> NegotiatedProtocol conn \<in> {'''', ''http/1.1'', ''raw''}) \<and>
    (\<forall>conn. (None, conn) \<in># mux_closed a \<longrightarrow>
       NegotiatedProtocol conn \<notin> {'''', ''http/1.1'', ''raw'', ''multiplexer''}) \<and>
    (\<forall>q \<in> set (mux_chans a). length q \<le> 32) \<and>
    mux_arrived a =
      mux_pending a + image_mset snd (mux_closed a) + mset (concat (mux_chans a)) + mset (map snd (mux_accepted a))"
proof -
  let ?protos = "[''multiplexer'' \<mapsto> 0, ''raw'' \<mapsto> 1, ''http/1.1'' \<mapsto> 1, '''' \<mapsto> 1] :: string \<rightharpoonup> nat"
  have inv: "alpn_inv ?protos a"
    using server_listeners_inv unfolding start snd_conv by (rule alpn_runs.run_keeps [OF run])
  have ch: "clientTLSListener = 0" "gatewayListener = 1"
    using start by (simp_all add: server_listeners_eq)
  have acc: "?protos (NegotiatedProtocol conn) = Some k" if "(k, conn) \<in> set (mux_accepted a)" for k conn
    using inv that unfolding alpn_inv_def by blast
  have cl: "?protos (NegotiatedProtocol conn) = None" if "(None, conn) \<in># mux_closed a" for conn
    using inv that unfolding alpn_inv_def by blast
  have "\<forall>q \<in> set (mux_chans a). length q \<le> 32"
    using inv by (auto simp: alpn_inv_def protoCap_def in_set_conv_nth)
  moreover have "\<forall>conn. (clientTLSListener, conn) \<in> set (mux_accepted a) \<longrightarrow> NegotiatedProtocol conn = ''multiplexer''"
    "\<forall>conn. (gatewayListener, conn) \<in> set (mux_accepted a) \<longrightarrow> NegotiatedProtocol conn \<in> {'''', ''http/1.1'', ''raw''}"
    using acc unfolding ch by (fastforce split: if_splits)+
  moreover have "\<forall>conn. (None, conn) \<in># mux_closed a \<longrightarrow> NegotiatedProtocol conn \<notin> {'''', ''http/1.1'', ''raw'', ''multiplexer''}"
    using cl by (fastforce split: if_splits)
  moreover have "mux_arrived a =
      mux_pending a + image_mset snd (mux_closed a) + mset (concat (mux_chans a)) + mset (map snd (mux_accepted a))"
    using inv unfolding alpn_inv_def by blast
  ultimately show ?thesis
    by blast
qed

lemma alpn_routes_witness:
  "\<exists>a. alpn_step\<^sup>*\<^sup>* (snd (snd server_listeners)) a \<and>
     mux_accepted a = [(1, \<lparr>tc_id = 0, ServerName = ''a-b.x.y'', NegotiatedProtocol = ''raw''\<rparr>)] \<and>
     NegotiatedProtocol (snd (hd (mux_accepted a))) \<in> {'''', ''http/1.1'', ''raw''}"
proof -
  let ?c = "\<lparr>tc_id = 0, ServerName = ''a-b.x.y'', NegotiatedProtocol = ''raw''\<rparr>"
  let ?a0 = "snd (snd server_listeners)"
  let ?a1 = "?a0\<lparr>mux_arrived := {#?c#}, mux_pending := {#?c#}\<rparr>"
  let ?a2 = "?a0\<lparr>mux_arrived := {#?c#}, mux_chans := [[], [?c]]\<rparr>"
  let ?a3 = "?a0\<lparr>mux_arrived := {#?c#}, mux_accepted := [(1, ?c)]\<rparr>"
  have s1: "alpn_step ?a0 ?a1"
    using serve_conn [of ?a0 ?c] by (simp add: server_listeners_eq NewALPNMux_def)
  have s2: "alpn_step ?a1 ?a2"
    by (rule handshake [of ?c _ None]) (simp_all add: server_listeners_eq NewALPNMux_def ALPN_handshake_def protoCap_def)
  have s3: "alpn_step ?a2 ?a3"
    by (rule accept [of 1 _ False "Inr ?c"]) (simp_all add: server_listeners_eq NewALPNMux_def protoListener_Accept_def)
  from s1 s2 s3 have run: "alpn_step\<^sup>*\<^sup>* ?a0 ?a3"
    by (meson converse_rtranclp_into_rtranclp r_into_rtranclp)
  have acc: "mux_accepted ?a3 = [(1, ?c)]"
    by simp
  have "server_listeners = (0, 1, ?a0)"
    by (simp add: server_listeners_eq)
  from alpn_routes [OF this run] acc have "NegotiatedProtocol (snd (hd (mux_accepted ?a3))) \<in> {'''', ''http/1.1'', ''raw''}"
    by simp
  with run acc show ?thesis
    by blast
qed

end
