(* ===== verification/Provider.thy ===== *)
theory Provider
  imports Acme
begin

text \<open>
  The DNS provider for the certificate manager's challenges: package \<^verbatim>\<open>provider\<close>. The library
  \<^verbatim>\<open>miekg/dns\<close> is an argument: \<open>Fqdn\<close>, the parser \<open>NewRR\<close> of records and the exchange with the
  name server. A message is what the code puts into it.
\<close>

record RFC2136Config =
  TSIGKey :: string
  TSIGAlgo :: string
  TSIGSecret :: string
  rc_Nameserver :: string
  rc_Zone :: string

record RFC2136 =
  r_conf :: RFC2136Config
  r_nameserver :: string
  r_algo :: string
  r_tsig :: "string \<rightharpoonup> string"
  r_zone :: string

record dns_Client =
  SingleInflight :: bool
  TsigSecret :: "string \<rightharpoonup> string"

text \<open>The calls that fill the update section, in their order.\<close>

datatype 'rr update = RemoveRRset "'rr list" | Insert "'rr list" | Remove "'rr list"

record 'rr dns_Msg =
  msg_Update :: string
  msg_Tsig :: "string \<times> string \<times> nat \<times> nat"
  msg_ops :: "'rr update list"

definition NewRFC2136Provider :: "(string \<Rightarrow> string) \<Rightarrow> RFC2136Config \<Rightarrow> error + RFC2136" where
  "NewRFC2136Provider Fqdn conf =
     Inr \<lparr>r_conf = conf, r_nameserver = rc_Nameserver conf, r_algo = Fqdn (TSIGAlgo conf),
          r_tsig = [Fqdn (TSIGKey conf) \<mapsto> TSIGSecret conf], r_zone = Fqdn (rc_Zone conf)\<rparr>"

definition newClient :: "RFC2136 \<Rightarrow> dns_Client" where
  "newClient r = \<lparr>SingleInflight = True, TsigSecret = r_tsig r\<rparr>"

definition buildMsg ::
  "(string \<Rightarrow> error + 'rr) \<Rightarrow> nat \<Rightarrow> RFC2136 \<Rightarrow> string \<Rightarrow> string \<Rightarrow> string \<Rightarrow> error + 'rr dns_Msg \<times> 'rr list" where
  "buildMsg NewRR now r host t value =
     (case NewRR (host @ ''.'' @ r_zone r @ '' '' @ itoa 15 @ '' IN '' @ t @ '' '' @ value) of
        Inl err \<Rightarrow> Inl err
      | Inr aRR \<Rightarrow>
        Inr (\<lparr>msg_Update = r_zone r, msg_Tsig = (TSIGKey (r_conf r), TSIGAlgo (r_conf r), 300, now), msg_ops = []\<rparr>, [aRR]))"

text \<open>The exchange gives the response code of the answer, or an error.\<close>

definition provider_Update ::
  "(string \<Rightarrow> error + 'rr) \<Rightarrow> (dns_Client \<Rightarrow> 'rr dns_Msg \<Rightarrow> string \<Rightarrow> error + nat) \<Rightarrow> nat \<Rightarrow>
   RFC2136 \<Rightarrow> string \<Rightarrow> string \<Rightarrow> string \<Rightarrow> bool \<times> error option" where
  "provider_Update NewRR ExchangeContext now r host t value =
     (let c = newClient r in
      case buildMsg NewRR now r host t value of
        Inl err \<Rightarrow> (False, Some err)
      | Inr (m, rrs) \<Rightarrow>
        (let m = m\<lparr>msg_ops := msg_ops m @ [RemoveRRset rrs]\<rparr>;
             m = m\<lparr>msg_ops := msg_ops m @ [Insert rrs]\<rparr>
         in case ExchangeContext c m (r_nameserver r) of
              Inl err \<Rightarrow> (False, Some err)
            | Inr rcode \<Rightarrow> (rcode = 0, None)))"

definition provider_Remove ::
  "(string \<Rightarrow> error + 'rr) \<Rightarrow> (dns_Client \<Rightarrow> 'rr dns_Msg \<Rightarrow> string \<Rightarrow> error + nat) \<Rightarrow> nat \<Rightarrow>
   RFC2136 \<Rightarrow> string \<Rightarrow> string \<Rightarrow> string \<Rightarrow> bool \<times> error option" where
  "provider_Remove NewRR ExchangeContext now r host t value =
     (let c = newClient r in
      case buildMsg NewRR now r host t value of
        Inl err \<Rightarrow> (False, Some err)
      | Inr (m, rrs) \<Rightarrow>
        (let m = m\<lparr>msg_ops := msg_ops m @ [Remove rrs]\<rparr>
         in case ExchangeContext c m (r_nameserver r) of
              Inl err \<Rightarrow> (False, Some err)
            | Inr rcode \<Rightarrow> (rcode = 0, None)))"

text \<open>The documentation of \<^verbatim>\<open>dns.Fqdn\<close>: a name that is not fully qualified gets a dot at its end.\<close>

definition Fqdn_doc :: "(string \<Rightarrow> string) \<Rightarrow> bool" where
  "Fqdn_doc Fqdn = (\<forall>s. Fqdn s = (if HasSuffix s ''.'' then s else s @ ''.''))"

section \<open>Lemmas\<close>

text \<open>
  The message is signed under the key's name as configured, and the secrets are found under its
  qualified name: without the dot in the configuration the client has no secret for it.
\<close>

lemma tsig_secret_found:
  assumes "Fqdn_doc Fqdn" and "NewRFC2136Provider Fqdn conf = Inr r" and "buildMsg NewRR now r host t value = Inr (m, rrs)"
  shows "fst (msg_Tsig m) \<in> dom (TsigSecret (newClient r)) \<longleftrightarrow> HasSuffix (TSIGKey conf) ''.''"
  using assms by (auto simp: Fqdn_doc_def NewRFC2136Provider_def buildMsg_def newClient_def split: sum.splits if_splits)

text \<open>What an update sends, and what it makes of the answer.\<close>

lemma provider_Update_sends:
  assumes "NewRR (host @ ''.'' @ r_zone r @ '' 15 IN '' @ t @ '' '' @ value) = Inr rr"
  shows "provider_Update NewRR Exchange now r host t value =
    (case Exchange (newClient r) \<lparr>msg_Update = r_zone r, msg_Tsig = (TSIGKey (r_conf r), TSIGAlgo (r_conf r), 300, now),
        msg_ops = [RemoveRRset [rr], Insert [rr]]\<rparr> (r_nameserver r) of
       Inl err \<Rightarrow> (False, Some err) | Inr rcode \<Rightarrow> (rcode = 0, None))"
proof -
  have "'' '' @ itoa 15 @ '' IN '' = '' 15 IN ''"
    by code_simp
  then have "host @ ''.'' @ r_zone r @ '' '' @ itoa 15 @ '' IN '' @ t @ '' '' @ value =
      host @ ''.'' @ r_zone r @ '' 15 IN '' @ t @ '' '' @ value"
    by (metis append.assoc)
  with assms show ?thesis
    by (simp add: provider_Update_def buildMsg_def Let_def)
qed

end
