(* ===== verification/Cmd.thy ===== *)
theory Cmd
  imports Gateway Provider
begin

text \<open>
  The server's command: \<^verbatim>\<open>cmd/server\<close>. The checks of TLS connections, the configuration with its
  derived fields, and \<^verbatim>\<open>main\<close>, which puts the certificate manager, the DNS provider, the
  multiplexer by ALPN, the server and the gateway together. Reading the configuration file,
  logging, TLS material and listening are arguments.
\<close>

section \<open>Authorization (\<^verbatim>\<open>authz.go\<close>)\<close>

text \<open>A certificate is the list of its DNS names.\<close>

record ConnectionState =
  cs_ServerName :: string
  PeerCertificates :: "string list list"

definition checkClientSNI :: "string \<Rightarrow> ConnectionState \<Rightarrow> error option" where
  "checkClientSNI domain cs =
     (if \<not> HasSuffix (cs_ServerName cs) domain then Some (Errorf (''unauthorized domain name: '' @ cs_ServerName cs) [])
      else None)"

definition checkPeerSAN :: "string \<Rightarrow> ConnectionState \<Rightarrow> error option" where
  "checkPeerSAN required cs =
     (if length (PeerCertificates cs) \<noteq> 1 then Some (Errorf ''exactly one peer certificate is required'' [])
      else let found = foldl (\<lambda>found name. found \<or> name = required) False (PeerCertificates cs ! 0) in
        if \<not> found then Some (Errorf (required @ '' must be present in SANs'') []) else None)"

section \<open>Configuration (\<^verbatim>\<open>config.go\<close>)\<close>

record WebConfig =
  web_Domain :: string

record TLSConfig =
  tls_CA :: string
  tls_Cert :: string
  tls_Key :: string

record ConfigBundle =
  cb_Sentry :: string
  cb_Network :: Network
  cb_TLS :: TLSConfig
  cb_Web :: WebConfig
  cb_Multiplexer :: MultiplexerConfig
  cb_Gossip :: GossipConfig
  cb_ACME :: acme_Config
  cb_RFC2136 :: RFC2136Config

text \<open>\<open>Load\<close> is the third-party loader with the structures it has filled from the file.\<close>

definition getConfig :: "(string \<Rightarrow> error + ConfigBundle) \<Rightarrow> string \<Rightarrow> error + ConfigBundle" where
  "getConfig Load path =
     (case Load path of
        Inl err \<Rightarrow> Inl (Wrapf ''loading config file: %w'' [] err)
      | Inr b \<Rightarrow>
        let b = b\<lparr>cb_ACME := (cb_ACME b)\<lparr>acme_Domain := ''*.'' @ web_Domain (cb_Web b)\<rparr>\<rparr>;
            b = b\<lparr>cb_ACME := (cb_ACME b)\<lparr>RootZone := rc_Zone (cb_RFC2136 b)\<rparr>\<rparr>
        in Inr (if mc_Protocol (cb_Multiplexer b) = Unknown
                then b\<lparr>cb_Multiplexer := (cb_Multiplexer b)\<lparr>mc_Protocol := QUIC\<rparr>\<rparr> else b))"

section \<open>The program (\<^verbatim>\<open>main.go\<close>)\<close>

record server_flags =
  f_gatewayPort :: nat
  f_configPath :: string
  f_peerPort :: nat
  f_gossipPort :: nat
  f_debug :: bool

definition defaultPeerPort :: nat where
  "defaultPeerPort = 1111"

definition defaultGossipPort :: nat where
  "defaultGossipPort = 12345"

definition override_ports :: "server_flags \<Rightarrow> ConfigBundle \<Rightarrow> ConfigBundle" where
  "override_ports f b =
     (let b = (if f_peerPort f \<noteq> defaultPeerPort
               then b\<lparr>cb_Multiplexer := (cb_Multiplexer b)\<lparr>mc_Peer := f_peerPort f\<rparr>\<rparr> else b)
      in if f_gossipPort f \<noteq> defaultGossipPort
         then b\<lparr>cb_Gossip := (cb_Gossip b)\<lparr>gc_Port := f_gossipPort f\<rparr>\<rparr> else b)"

text \<open>
  The two TLS configurations, for peers and for the gateway, without the certificates; suites
  and curves by their names. The order of \<^verbatim>\<open>alpn.Protos\<close> is an argument.
\<close>

datatype ClientAuthType = NoClientCert | RequireAndVerifyClientCert

record tls_Config =
  ClientAuth :: ClientAuthType
  VerifyConnection :: "ConnectionState \<Rightarrow> error option"
  NextProtos :: "string list"
  PreferServerCipherSuites :: bool
  MinVersion :: string
  CipherSuites :: "string list"
  CurvePreferences :: "string list"

definition peerTLSConfig :: tls_Config where
  "peerTLSConfig =
     \<lparr>ClientAuth = RequireAndVerifyClientCert, VerifyConnection = checkPeerSAN ''t_Peer'',
      NextProtos = [ALPN_String ALPN_Multiplexer], PreferServerCipherSuites = True, MinVersion = ''VersionTLS12'',
      CipherSuites =
        [''TLS_AES_128_GCM_SHA256'', ''TLS_AES_256_GCM_SHA384'', ''TLS_CHACHA20_POLY1305_SHA256'',
         ''TLS_ECDHE_ECDSA_WITH_AES_128_GCM_SHA256'', ''TLS_ECDHE_ECDSA_WITH_AES_256_GCM_SHA384'',
         ''TLS_ECDHE_ECDSA_WITH_CHACHA20_POLY1305'', ''TLS_ECDHE_RSA_WITH_AES_128_GCM_SHA256'',
         ''TLS_ECDHE_RSA_WITH_AES_256_GCM_SHA384'', ''TLS_ECDHE_RSA_WITH_CHACHA20_POLY1305'',
         ''TLS_RSA_WITH_AES_128_GCM_SHA256'', ''TLS_RSA_WITH_AES_256_GCM_SHA384''],
      CurvePreferences = [''X25519'', ''CurveP256'', ''CurveP384'']\<rparr>"

definition gatwayTLSConfig :: "ALPN list \<Rightarrow> ConfigBundle \<Rightarrow> tls_Config" where
  "gatwayTLSConfig alpns b =
     \<lparr>ClientAuth = NoClientCert, VerifyConnection = checkClientSNI (web_Domain (cb_Web b)),
      NextProtos = Protos alpns, PreferServerCipherSuites = True, MinVersion = ''VersionTLS12'',
      CipherSuites =
        [''TLS_AES_128_GCM_SHA256'', ''TLS_AES_256_GCM_SHA384'', ''TLS_CHACHA20_POLY1305_SHA256'',
         ''TLS_ECDHE_ECDSA_WITH_AES_128_GCM_SHA256'', ''TLS_ECDHE_ECDSA_WITH_AES_256_GCM_SHA384'',
         ''TLS_ECDHE_ECDSA_WITH_CHACHA20_POLY1305''],
      CurvePreferences = [''X25519'', ''CurveP256'', ''CurveP384'']\<rparr>"

text \<open>
  The outcomes of the calls that set up the process: the configuration loader, error reporting
  and loggers, the key pair and the CA file with the call that adds it, packet and stream
  listeners with the QUIC listener on top, the port the peers' listener has got, the parsing of
  the gateway's templates, and the start of the gossip library.
\<close>

record main_env =
  me_Load :: "string \<Rightarrow> error + ConfigBundle"
  me_sentry :: "error option"
  me_zap :: "error option"
  me_core :: "error option"
  me_redirect :: "error option"
  me_KeyPair :: "string \<Rightarrow> string \<Rightarrow> error option"
  me_ReadFile :: "string \<Rightarrow> error + bytes"
  me_AppendCerts :: "bytes \<Rightarrow> bool"
  me_PacketConn :: "string \<Rightarrow> error option"
  me_quic_Listen :: "string \<Rightarrow> error option"
  me_Listener :: "string \<Rightarrow> error option"
  me_Port :: nat
  me_tmpl :: "error option"
  me_index :: "error option"
  me_Create :: "error option"

definition fatal_if :: "error option \<Rightarrow> string \<Rightarrow> 'a exit \<Rightarrow> 'a exit" where
  "fatal_if err msg rest = (case err of Some e \<Rightarrow> Fatal msg | None \<Rightarrow> rest)"

text \<open>The loads of account and bundle: their errors are ignored, a panic is not.\<close>

definition load_files :: "'v acme_env \<Rightarrow> 'v CertManager \<Rightarrow> 'v CertManager go" where
  "load_files env c =
     bind_go (LoadAccountFromFile env c) (\<lambda>(err, c). bind_go (LoadBundleFromFile env c) (\<lambda>(err, c). Ret c))"

text \<open>The four listening sockets: QUIC and TLS for peers, then for the gateway.\<close>

definition listen_all :: "main_env \<Rightarrow> string \<Rightarrow> string \<Rightarrow> 'a exit \<Rightarrow> 'a exit" where
  "listen_all me peerAddr gatewayAddr rest =
     fatal_if (me_PacketConn me peerAddr) ''setting up for peer quic connection'' (
     fatal_if (me_quic_Listen me peerAddr) ''listening for peer quic connection'' (
     fatal_if (me_PacketConn me gatewayAddr) ''setting up for client quic connection'' (
     fatal_if (me_quic_Listen me gatewayAddr) ''listening for client quic connection'' (
     fatal_if (me_Listener me peerAddr) ''listening for peer tls connection'' (
     fatal_if (me_Listener me gatewayAddr) ''listening for gateway connection'' rest)))))"

text \<open>A port left to the system is the one the listener has got.\<close>

definition actual_peer_port :: "main_env \<Rightarrow> ConfigBundle \<Rightarrow> ConfigBundle" where
  "actual_peer_port me b =
     (if mc_Peer (cb_Multiplexer b) = 0
      then b\<lparr>cb_Multiplexer := (cb_Multiplexer b)\<lparr>mc_Peer := me_Port me\<rparr>\<rparr> else b)"

definition server_domain :: "server_flags \<Rightarrow> ConfigBundle \<Rightarrow> string" where
  "server_domain f b =
     (let domain = web_Domain (cb_Web b)
      in if f_gatewayPort f \<noteq> 443 then domain @ '':'' @ itoa (f_gatewayPort f) else domain)"

definition server_config :: "server_flags \<Rightarrow> ConfigBundle \<Rightarrow> 'v CertManager \<Rightarrow> 'v ServerConfig" where
  "server_config f b cm =
     \<lparr>sc_Context = Some (), sc_Logger = Some (), sc_Network = cb_Network b, sc_PeerTLSListener = Some (),
      sc_PeerQUICListener = Some (), sc_PeerTLSConfig = Some (), sc_ClientTLSListener = Some (),
      sc_ClientQUICListener = Some (), sc_Multiplexer = cb_Multiplexer b, sc_Gossip = cb_Gossip b,
      sc_CertManager = Some cm, sc_Debug = f_debug f, sc_Domain = server_domain f b\<rparr>"

definition gateway_config :: "server_flags \<Rightarrow> ConfigBundle \<Rightarrow> GatewayConfig" where
  "gateway_config f b = \<lparr>RootDomain = web_Domain (cb_Web b), GatewayPort = f_gatewayPort f\<rparr>"

text \<open>From the listeners on: the server, the gateway and the start of gossip.\<close>

definition start_server ::
  "main_env \<Rightarrow> (string \<Rightarrow> bytes option) \<Rightarrow> (bytes list \<Rightarrow> bytes \<Rightarrow> error option) \<Rightarrow> u64 \<Rightarrow> nat \<Rightarrow>
   server_flags \<Rightarrow> ConfigBundle \<Rightarrow> 'v CertManager \<Rightarrow> (('p, 'v) Server \<times> Gateway) exit" where
  "start_server me v6 NewKeyring self pick f b cm =
     (case Server_New v6 NewKeyring self pick (server_config f b cm) of
        Panic p \<Rightarrow> Crash
      | Ret (Inl err) \<Rightarrow> Fatal ''setting up multiplexer server''
      | Ret (Inr s) \<Rightarrow>
        (case Gateway_New (me_tmpl me) (me_index me) (gateway_config f b) of
           Inl err \<Rightarrow> Fatal ''setting up gateway server''
         | Inr gw \<Rightarrow> fatal_if (me_Create me) ''starting gossip'' (Running (s, gw))))"

text \<open>
  \<^verbatim>\<open>main\<close> until its goroutines run. \<open>acme\<close> is the environment of the certificate manager for a
  DNS provider, \<open>fs\<close> the files.
\<close>

definition server_main ::
  "main_env \<Rightarrow> (string \<Rightarrow> string) \<Rightarrow> (RFC2136 \<Rightarrow> 'v acme_env) \<Rightarrow> (string \<rightharpoonup> string) \<Rightarrow>
   (string \<Rightarrow> bytes option) \<Rightarrow> (bytes list \<Rightarrow> bytes \<Rightarrow> error option) \<Rightarrow> u64 \<Rightarrow> nat \<Rightarrow>
   server_flags \<Rightarrow> (('p, 'v) Server \<times> Gateway) exit" where
  "server_main me Fqdn acme fs v6 NewKeyring self pick f =
     (case getConfig (me_Load me) (f_configPath f) of
        Inl err \<Rightarrow> Fatal ''loading config file''
      | Inr b \<Rightarrow>
        let b = override_ports f b in
        fatal_if (me_sentry me) ''initializing sentry'' (
        fatal_if (me_zap me) ''initializing zap logger'' (
        fatal_if (me_core me) ''initializing zap core'' (
        fatal_if (me_redirect me) ''redirecting std log'' (
        fatal_if (me_KeyPair me (tls_Cert (cb_TLS b)) (tls_Key (cb_TLS b))) ''loading peer certificates'' (
        case NewRFC2136Provider Fqdn (cb_RFC2136 b) of
          Inl err \<Rightarrow> Fatal ''setting up rfc2136 provider''
        | Inr rfc2136 \<Rightarrow>
          (case acme_New (acme rfc2136) fs (cb_ACME b) of
             Inl err \<Rightarrow> Fatal ''setting up cert manager''
           | Inr cm \<Rightarrow>
             (case load_files (acme rfc2136) cm of
                Panic p \<Rightarrow> Crash
              | Ret cm \<Rightarrow>
                (case me_ReadFile me (tls_CA (cb_TLS b)) of
                   Inl err \<Rightarrow> Fatal ''reading CA bundle''
                 | Inr caCert \<Rightarrow>
                   if \<not> me_AppendCerts me caCert then Fatal ''unable to use the provided CA bundle''
                   else
                     listen_all me (BindAddr (cb_Network b) @ '':'' @ itoa (mc_Peer (cb_Multiplexer b)))
                       (BindAddr (cb_Network b) @ '':'' @ itoa (f_gatewayPort f))
                       (start_server me v6 NewKeyring self pick f (actual_peer_port me b) cm))))))))))"

section \<open>Example\<close>

text \<open>The repository's example configuration, with one key, and a world in which every call succeeds.\<close>

definition example_config :: ConfigBundle where
  "example_config =
     \<lparr>cb_Sentry = '''', cb_Network = \<lparr>AdvertiseAddr = ''1.2.3.4'', BindAddr = ''0.0.0.0''\<rparr>,
      cb_TLS = \<lparr>tls_CA = ''ca.pem'', tls_Cert = ''peer.pem'', tls_Key = ''peer-key.pem''\<rparr>,
      cb_Web = \<lparr>web_Domain = ''tunnel.example.com''\<rparr>,
      cb_Multiplexer = \<lparr>mc_Peer = 0, mc_Protocol = 0, mc_RespondOnly = False\<rparr>,
      cb_Gossip = \<lparr>gc_Port = 12345, gc_Keyring = [''AAAA''], gc_Members = []\<rparr>,
      cb_ACME = \<lparr>Contact = ''c'', DataDir = ''/d'', RootZone = '''', acme_Domain = ''''\<rparr>,
      cb_RFC2136 = \<lparr>TSIGKey = ''sign.'', TSIGAlgo = ''hmac-sha256.'', TSIGSecret = ''s'',
                    rc_Nameserver = ''dns.example.com:53'', rc_Zone = ''example.com''\<rparr>\<rparr>"

definition plain_main :: main_env where
  "plain_main =
     \<lparr>me_Load = (\<lambda>path. Inr example_config), me_sentry = None, me_zap = None, me_core = None, me_redirect = None,
      me_KeyPair = (\<lambda>cert key. None), me_ReadFile = (\<lambda>name. Inr []), me_AppendCerts = (\<lambda>pem. True),
      me_PacketConn = (\<lambda>addr. None), me_quic_Listen = (\<lambda>addr. None), me_Listener = (\<lambda>addr. None), me_Port = 4000,
      me_tmpl = None, me_index = None, me_Create = None\<rparr>"

definition plain_flags :: server_flags where
  "plain_flags =
     \<lparr>f_gatewayPort = 90, f_configPath = ''config.yaml'', f_peerPort = 1111, f_gossipPort = 12345, f_debug = False\<rparr>"

definition plain_Fqdn :: "string \<Rightarrow> string" where
  "plain_Fqdn s = (if HasSuffix s ''.'' then s else s @ ''.'')"

section \<open>Lemmas\<close>

subsection \<open>Who gets in\<close>

lemma foldl_found: "foldl (\<lambda>found name. found \<or> name = required) found names \<longleftrightarrow> found \<or> required \<in> set names"
  by (induction names arbitrary: found) auto

text \<open>A peer shows exactly one certificate, and it carries the name \<^verbatim>\<open>t_Peer\<close>.\<close>

lemma peer_admitted_iff:
  "VerifyConnection peerTLSConfig cs = None \<longleftrightarrow> (\<exists>names. PeerCertificates cs = [names] \<and> ''t_Peer'' \<in> set names)"
  by (auto simp: peerTLSConfig_def checkPeerSAN_def Let_def foldl_found length_Suc_conv)

text \<open>
  Every tunnel below the web domain passes the check of the server name; but so does any name
  that merely ends in the domain's letters.
\<close>

lemma gateway_admits_suffix:
  "VerifyConnection (gatwayTLSConfig alpns b) \<lparr>cs_ServerName = x @ web_Domain (cb_Web b), PeerCertificates = certs\<rparr> = None"
  by (simp add: gatwayTLSConfig_def checkClientSNI_def HasSuffix_def)

text \<open>The gateway offers the names of all four protocols.\<close>

lemma gateway_NextProtos:
  assumes "map_order ALPN_Map alpns"
  shows "set (NextProtos (gatwayTLSConfig alpns b)) = {'''', ''multiplexer'', ''http/1.1'', ''raw''}"
proof -
  have "set (Protos alpns) = (\<lambda>k. the (ALPN_Map k)) ` set alpns"
    unfolding Protos_def by (induction alpns rule: rev_induct) auto
  with assms show ?thesis
    by (auto simp: gatwayTLSConfig_def map_order_def dom_ALPN_Map ALPN_Map_def)
qed

subsection \<open>The program\<close>

lemma fatal_if_Running [simp]: "fatal_if err msg rest = Running x \<longleftrightarrow> err = None \<and> rest = Running x"
  by (simp add: fatal_if_def split: option.split)

lemma Server_New_fields:
  assumes "Server_New v6 NewKeyring self pick conf = Ret (Inr s)"
  shows "srv_Domain s = sc_Domain conf" "meta_Protocol (srv_meta s) = mc_Protocol (sc_Multiplexer conf)"
    "ConnectPort (srv_meta s) = of_nat (mc_Peer (sc_Multiplexer conf))" "srv_id s = self"
  using assms by (auto simp: Server_New_def Let_def bind_go_Ret_iff split: option.splits sum.splits if_splits)

lemma Gateway_New_iff:
  "Gateway_New mdErr idxErr conf = Inr g \<longleftrightarrow> mdErr = None \<and> idxErr = None \<and>
     g = \<lparr>gw_conf = conf,
          gw_apex = \<lparr>as_hostname = RootDomain conf,
                     as_host = RootDomain conf @ (if GatewayPort conf = 443 then '''' else '':'' @ itoa (GatewayPort conf)),
                     as_clientPort = GatewayPort conf\<rparr>,
          apexAcceptor = [], httpTunnelAcceptor = []\<rparr>"
  by (auto simp: Gateway_New_def Let_def split: option.split)

lemma getConfig_derived:
  assumes "getConfig Load path = Inr b"
  shows "acme_Domain (cb_ACME b) = ''*.'' @ web_Domain (cb_Web b)" "RootZone (cb_ACME b) = rc_Zone (cb_RFC2136 b)"
    "mc_Protocol (cb_Multiplexer b) \<noteq> Unknown"
  using assms by (auto simp: getConfig_def Let_def proto_defs split: sum.splits if_splits)

lemma example_config_derived:
  obtains b where "getConfig (\<lambda>path. Inr example_config) path = Inr b" "cb_Web b = \<lparr>web_Domain = ''tunnel.example.com''\<rparr>"
    "rc_Zone (cb_RFC2136 b) = ''example.com''"
proof -
  let ?r = "getConfig (\<lambda>path. Inr example_config) path"
  have "?r = Inr (projr ?r)" "cb_Web (projr ?r) = \<lparr>web_Domain = ''tunnel.example.com''\<rparr>"
    "rc_Zone (cb_RFC2136 (projr ?r)) = ''example.com''"
    by (simp_all add: getConfig_def example_config_def Let_def)
  then show ?thesis
    by (rule that)
qed

lemma override_ports_fields [simp]:
  "cb_Web (override_ports f b) = cb_Web b" "mc_Protocol (cb_Multiplexer (override_ports f b)) = mc_Protocol (cb_Multiplexer b)"
  by (simp_all add: override_ports_def Let_def)

lemma actual_peer_port_fields [simp]:
  "cb_Web (actual_peer_port me b) = cb_Web b"
  "mc_Protocol (cb_Multiplexer (actual_peer_port me b)) = mc_Protocol (cb_Multiplexer b)"
  by (simp_all add: actual_peer_port_def)

text \<open>What \<^verbatim>\<open>main\<close> has built its server and its gateway from.\<close>

lemma server_main_sound:
  assumes "server_main me Fqdn acme fs v6 NewKeyring self pick f = Running (s, g)"
    and "getConfig (me_Load me) (f_configPath f) = Inr b"
  obtains cm where
    "Server_New v6 NewKeyring self pick (server_config f (actual_peer_port me (override_ports f b)) cm) = Ret (Inr s)"
    "Gateway_New (me_tmpl me) (me_index me) (gateway_config f (actual_peer_port me (override_ports f b))) = Inr g"
  using assms
  by (auto simp: server_main_def Let_def listen_all_def start_server_def split: sum.splits go.splits if_splits)

lemma plain_files_loaded:
  "load_files plain_env c = Ret c" if "files c = Map.empty"
  using that
  by (simp add: load_files_def plain_env_def LoadAccountFromFile_def LoadBundleFromFile_def load_json_def Let_def)

lemma plain_main_runs:
  "\<exists>(s :: (nat, bytes) Server) g.
     server_main plain_main plain_Fqdn (\<lambda>r. plain_env) Map.empty (\<lambda>ip. None) (\<lambda>keys key. None) 9 0 plain_flags = Running (s, g)"
proof -
  have "''1.2.3.4'' = IPv4_String [1, 2, 3, 4]"
    by (simp add: IPv4_String_quad itoa_1 digit_char_def char_of_def bit_0)
  then have marshals: "\<exists>bs. Meta_MarshalBinary v6 m = Ret bs" if "ConnectIP m = ''1.2.3.4''" for v6 m
    using that Meta_MarshalBinary_wire [of m 1 2 3 4 v6] by simp
  obtain bs where meta: "Meta_MarshalBinary (\<lambda>ip. None)
      \<lparr>ConnectIP = ''1.2.3.4'', ConnectPort = 4000, PeerID = 9, meta_Protocol = 3, RespondOnly = False\<rparr> = Ret bs"
    using marshals [of "\<lparr>ConnectIP = ''1.2.3.4'', ConnectPort = 4000, PeerID = 9, meta_Protocol = 3, RespondOnly = False\<rparr>"] by auto
  have "decode_keyring [''AAAA''] [] = Inr [[0, 0, 0]]" "HasSuffix ''*.tunnel.example.com'' ''example.com''"
    by code_simp+
  then show ?thesis
    by (simp add: server_main_def getConfig_def plain_main_def example_config_def plain_flags_def Let_def override_ports_def
        fatal_if_def NewRFC2136Provider_def acme_New_def plain_files_loaded listen_all_def start_server_def Gateway_New_def
        Server_New_def ServerConfig_validate_def server_config_def server_domain_def actual_peer_port_def
        gateway_config_def proto_defs meta defaultPeerPort_def defaultGossipPort_def plain_env_def [THEN arg_cong, of NewClient])
qed

section \<open>Properties\<close>



text \<open>C40: the certificate's challenge ends up where the CA looks for it. With a web domain below the
provider's zone, the derived configuration asks for a certificate for the domain and the
wildcard below it, and an update by the provider with the host computed for the challenge
replaces the TXT record of \<^verbatim>\<open>_acme-challenge.\<close> followed by the fully qualified web domain, reporting
success exactly if the name server's answer says so. With the zone itself as web domain the
computation of the names panics.\<close>

theorem challenge_record:
  assumes conf: "getConfig Load path = Inr b" and doc: "Fqdn_doc Fqdn" and zone: "\<not> HasSuffix (rc_Zone (cb_RFC2136 b)) ''.''"
    and prov: "NewRFC2136Provider Fqdn (cb_RFC2136 b) = Inr r"
    and rr: "NewRR (''_acme-challenge.'' @ web_Domain (cb_Web b) @ ''. 15 IN TXT '' @ value) = Inr rr"
  shows "(web_Domain (cb_Web b) = sub @ ''.'' @ rc_Zone (cb_RFC2136 b) \<longrightarrow>
     (\<exists>host. request_names (cb_ACME b) =
        Ret (host, web_Domain (cb_Web b), [web_Domain (cb_Web b), ''*.'' @ web_Domain (cb_Web b)]) \<and>
      provider_Update NewRR Exchange now r host ''TXT'' value =
        (case Exchange (newClient r)
            \<lparr>msg_Update = rc_Zone (cb_RFC2136 b) @ ''.'',
             msg_Tsig = (TSIGKey (cb_RFC2136 b), TSIGAlgo (cb_RFC2136 b), 300, now),
             msg_ops = [RemoveRRset [rr], Insert [rr]]\<rparr> (rc_Nameserver (cb_RFC2136 b)) of
           Inl err \<Rightarrow> (False, Some err) | Inr rcode \<Rightarrow> (rcode = 0, None)))) \<and>
    (web_Domain (cb_Web b) = rc_Zone (cb_RFC2136 b) \<longrightarrow> request_names (cb_ACME b) = Panic SliceOutOfRange)"
proof (intro conjI impI)
  assume web: "web_Domain (cb_Web b) = sub @ ''.'' @ rc_Zone (cb_RFC2136 b)"
  note d = getConfig_derived [OF conf]
  have r: "r_zone r = rc_Zone (cb_RFC2136 b) @ ''.''" "r_conf r = cb_RFC2136 b" "r_nameserver r = rc_Nameserver (cb_RFC2136 b)"
    using prov doc zone by (auto simp: NewRFC2136Provider_def Fqdn_doc_def)
  have "request_names (cb_ACME b) = Ret (''_acme-challenge.'' @ sub, web_Domain (cb_Web b),
      [web_Domain (cb_Web b), ''*.'' @ web_Domain (cb_Web b)])"
    using request_names_wildcard [of "cb_ACME b" sub] by (simp add: d web)
  moreover have "provider_Update NewRR Exchange now r (''_acme-challenge.'' @ sub) ''TXT'' value =
      (case Exchange (newClient r) \<lparr>msg_Update = r_zone r, msg_Tsig = (TSIGKey (r_conf r), TSIGAlgo (r_conf r), 300, now),
          msg_ops = [RemoveRRset [rr], Insert [rr]]\<rparr> (r_nameserver r) of
         Inl err \<Rightarrow> (False, Some err) | Inr rcode \<Rightarrow> (rcode = 0, None))"
    by (rule provider_Update_sends) (use rr in \<open>simp add: r web\<close>)
  ultimately show "\<exists>host. request_names (cb_ACME b) =
        Ret (host, web_Domain (cb_Web b), [web_Domain (cb_Web b), ''*.'' @ web_Domain (cb_Web b)]) \<and>
      provider_Update NewRR Exchange now r host ''TXT'' value =
        (case Exchange (newClient r)
            \<lparr>msg_Update = rc_Zone (cb_RFC2136 b) @ ''.'',
             msg_Tsig = (TSIGKey (cb_RFC2136 b), TSIGAlgo (cb_RFC2136 b), 300, now),
             msg_ops = [RemoveRRset [rr], Insert [rr]]\<rparr> (rc_Nameserver (cb_RFC2136 b)) of
           Inl err \<Rightarrow> (False, Some err) | Inr rcode \<Rightarrow> (rcode = 0, None))"
    unfolding r by blast
next
  assume "web_Domain (cb_Web b) = rc_Zone (cb_RFC2136 b)"
  then show "request_names (cb_ACME b) = Panic SliceOutOfRange"
    using getConfig_derived [OF conf] by (intro request_names_root_wildcard) simp
qed

lemma challenge_record_witness:
  "\<exists>b r host. getConfig (\<lambda>path. Inr example_config) ''c'' = Inr b \<and> NewRFC2136Provider plain_Fqdn (cb_RFC2136 b) = Inr r \<and>
     request_names (cb_ACME b) = Ret (host, ''tunnel.example.com'', [''tunnel.example.com'', ''*.tunnel.example.com'']) \<and>
     provider_Update Inr (\<lambda>c m ns. if msg_ops m = [RemoveRRset [''_acme-challenge.tunnel.example.com. 15 IN TXT v''],
           Insert [''_acme-challenge.tunnel.example.com. 15 IN TXT v'']] then Inr 0 else Inr 5) 0 r host ''TXT'' ''v'' = (True, None)"
proof -
  let ?rr = "''_acme-challenge.tunnel.example.com. 15 IN TXT v''"
  obtain b where b: "getConfig (\<lambda>path. Inr example_config) ''c'' = Inr b" "cb_Web b = \<lparr>web_Domain = ''tunnel.example.com''\<rparr>"
      "rc_Zone (cb_RFC2136 b) = ''example.com''"
    by (rule example_config_derived)
  have doc: "Fqdn_doc plain_Fqdn"
    by (simp add: Fqdn_doc_def plain_Fqdn_def)
  have zone: "\<not> HasSuffix (rc_Zone (cb_RFC2136 b)) ''.''"
    by (simp add: b HasSuffix_def)
  obtain r where r: "NewRFC2136Provider plain_Fqdn (cb_RFC2136 b) = Inr r"
    by (simp add: NewRFC2136Provider_def)
  have rr: "Inr (''_acme-challenge.'' @ web_Domain (cb_Web b) @ ''. 15 IN TXT '' @ ''v'') = (Inr ?rr :: error + string)"
    by (simp add: b)
  have "web_Domain (cb_Web b) = ''tunnel'' @ ''.'' @ rc_Zone (cb_RFC2136 b)"
    by (simp add: b)
  with challenge_record [OF b(1) doc zone r, of Inr "''v''" ?rr "''tunnel''"
      "\<lambda>c m ns. if msg_ops m = [RemoveRRset [?rr], Insert [?rr]] then Inr 0 else Inr 5" 0, OF rr] b r
  show ?thesis
    by auto
qed

end
