(* ===== verification/Leader.thy ===== *)
theory Leader
  imports Gossip
begin

text \<open>
  The choice of the leader and its duties (\<^verbatim>\<open>server/leader.go\<close>). The membership handler, the
  timer loop and the checks it starts are goroutines that share \<^verbatim>\<open>currentLeader\<close> and two
  channels of capacity one; they are the steps of a relation. What a check does to the
  certificate manager is a function.
\<close>

section \<open>The lowest identifier\<close>

definition lowest :: "u64 list \<Rightarrow> u64" where
  "lowest peers = foldl (\<lambda>low peer. if peer < low then peer else low) (NOT 0) peers"

datatype leader_signal = SendStart | SendStop

text \<open>
  One turn of \<^verbatim>\<open>handleMembershipChange\<close> on a signal: the new state and the signal to be sent to
  the timer loop, if the leader changed.
\<close>

definition membership_turn :: "u64 list \<Rightarrow> ('p, 'v) Server \<Rightarrow> leader_signal option \<times> ('p, 'v) Server" where
  "membership_turn order s =
     (let peers = PM_Snapshot order (srv_peers s) @ [srv_id s];
          low = lowest peers in
      if currentLeader s \<noteq> low
      then (let s = s\<lparr>currentLeader := low\<rparr> in
            (Some (if srv_id s = currentLeader s then SendStart else SendStop), s))
      else (None, s))"

section \<open>The goroutines\<close>

definition signal_cap :: nat where
  "signal_cap = 1"

datatype hm_pc = HM_Select | HM_Start | HM_Stop
datatype lt_pc = LT_Select | LT_Stop
datatype ck_pc = CK_Work | CK_Send

text \<open>
  \<open>view\<close> is the set of peers with a session; \<open>signals\<close> the membership signals sent or about to
  be sent and not yet received; \<open>armed\<close> whether \<^verbatim>\<open>timer\<close> is a channel that has yet to fire.
\<close>

record leader_sys =
  self :: u64
  leader :: u64
  view :: "u64 set"
  signals :: nat
  startCh :: nat
  stopCh :: nat
  armed :: bool
  hm :: hm_pc
  lt :: lt_pc
  checks :: "ck_pc multiset"

definition leader_init :: "u64 \<Rightarrow> leader_sys" where
  "leader_init i = \<lparr>self = i, leader = 0, view = {}, signals = 1, startCh = 0, stopCh = 0, armed = False,
                    hm = HM_Select, lt = LT_Select, checks = {#}\<rparr>"

inductive leader_step :: "leader_sys \<Rightarrow> leader_sys \<Rightarrow> bool" where
  change: "finite V \<Longrightarrow> leader_step S (S\<lparr>view := V, signals := signals S + 1\<rparr>)"
| hm_same: "hm S = HM_Select \<Longrightarrow> 0 < signals S \<Longrightarrow> set order = view S \<Longrightarrow> leader S = lowest (order @ [self S]) \<Longrightarrow>
    leader_step S (S\<lparr>signals := signals S - 1\<rparr>)"
| hm_new: "hm S = HM_Select \<Longrightarrow> 0 < signals S \<Longrightarrow> set order = view S \<Longrightarrow> leader S \<noteq> lowest (order @ [self S]) \<Longrightarrow>
    leader_step S (S\<lparr>signals := signals S - 1, leader := lowest (order @ [self S]),
                     hm := (if self S = lowest (order @ [self S]) then HM_Start else HM_Stop)\<rparr>)"
| hm_start: "hm S = HM_Start \<Longrightarrow> startCh S < signal_cap \<Longrightarrow> leader_step S (S\<lparr>hm := HM_Select, startCh := startCh S + 1\<rparr>)"
| hm_stop: "hm S = HM_Stop \<Longrightarrow> stopCh S < signal_cap \<Longrightarrow> leader_step S (S\<lparr>hm := HM_Select, stopCh := stopCh S + 1\<rparr>)"
| lt_start: "lt S = LT_Select \<Longrightarrow> 0 < startCh S \<Longrightarrow> leader_step S (S\<lparr>startCh := startCh S - 1, armed := True\<rparr>)"
| lt_stop: "lt S = LT_Select \<Longrightarrow> 0 < stopCh S \<Longrightarrow> leader_step S (S\<lparr>stopCh := stopCh S - 1, armed := False\<rparr>)"
| fire_other: "lt S = LT_Select \<Longrightarrow> armed S \<Longrightarrow> self S \<noteq> leader S \<Longrightarrow> leader_step S (S\<lparr>armed := False, lt := LT_Stop\<rparr>)"
| fire_leader: "lt S = LT_Select \<Longrightarrow> armed S \<Longrightarrow> self S = leader S \<Longrightarrow>
    leader_step S (S\<lparr>armed := False, checks := add_mset CK_Work (checks S)\<rparr>)"
| lt_send: "lt S = LT_Stop \<Longrightarrow> stopCh S < signal_cap \<Longrightarrow> leader_step S (S\<lparr>lt := LT_Select, stopCh := stopCh S + 1\<rparr>)"
| check_again: "checks S = add_mset CK_Work C \<Longrightarrow> self S = leader S \<Longrightarrow> leader_step S (S\<lparr>checks := add_mset CK_Send C\<rparr>)"
| check_end: "checks S = add_mset CK_Work C \<Longrightarrow> self S \<noteq> leader S \<Longrightarrow> leader_step S (S\<lparr>checks := C\<rparr>)"
| check_send: "checks S = add_mset CK_Send C \<Longrightarrow> startCh S < signal_cap \<Longrightarrow>
    leader_step S (S\<lparr>checks := C, startCh := startCh S + 1\<rparr>)"

text \<open>
  The channels stay within their capacity, and a handler that has taken every signal knows the
  lowest identifier of its view.
\<close>

definition leader_inv :: "leader_sys \<Rightarrow> bool" where
  "leader_inv S =
     (finite (view S) \<and> startCh S \<le> signal_cap \<and> stopCh S \<le> signal_cap \<and>
      (signals S = 0 \<longrightarrow> leader S = Min (insert (self S) (view S))))"

section \<open>The leader's checks\<close>

text \<open>
  \<^verbatim>\<open>checkACMEAccountKeys\<close>: the manager afterwards, and what is announced to all peers. A failure to
  load the file other than its absence is only noticed by the following export.
\<close>

definition announce_account :: "'v acme_env \<Rightarrow> 'v CertManager \<Rightarrow> ((MessageType \<times> bytes) option \<times> 'v CertManager) go" where
  "announce_account env c =
     bind_go (ExportAccount env c) (\<lambda>af.
       case af of
         Inl err \<Rightarrow> Ret (None, c)
       | Inr af \<Rightarrow> Ret (Some (MessageACMEAccountKey, string_bytes (json_Marshal (AccountFile_json af))), c))"

definition checkACMEAccountKeys ::
  "'v acme_env \<Rightarrow> 'v CertManager \<Rightarrow> ((MessageType \<times> bytes) option \<times> 'v CertManager) go" where
  "checkACMEAccountKeys env c =
     bind_go (ExportAccount env c) (\<lambda>af.
       case af of
         Inr af \<Rightarrow> Ret (None, c)
       | Inl err \<Rightarrow>
         if \<not> errors_Is err ErrNoAccount then Ret (None, c)
         else bind_go (LoadAccountFromFile env c) (\<lambda>(err, c).
           if (case err of None \<Rightarrow> False | Some e \<Rightarrow> errors_Is e ErrNoAccount)
           then (case CreateAccount env c of
                   (Some err, c) \<Rightarrow> Ret (None, c)
                 | (None, c) \<Rightarrow> announce_account env c)
           else announce_account env c))"

text \<open>
  \<^verbatim>\<open>checkACMECerts\<close>: \<open>parsed\<close> gives the outcome of \<^verbatim>\<open>x509.ParseCertificate\<close> for every certificate of
  the chain, as DNS names and seconds until expiry.
\<close>

fun find_leaf :: "string \<Rightarrow> (error + string list \<times> int) list \<Rightarrow> (string list \<times> int) option \<Rightarrow> error + (string list \<times> int) option" where
  "find_leaf domain [] leaf = Inr leaf"
| "find_leaf domain (Inl err # xs) leaf = Inl err"
| "find_leaf domain (Inr x # xs) leaf =
     find_leaf domain xs (if list_ex (strings_Contains domain) (fst x) then Some x else leaf)"

definition thirty_days :: int where
  "thirty_days = 30 * 24 * 3600"

definition renew_if_expiring ::
  "'v acme_env \<Rightarrow> int \<Rightarrow> Bundle \<Rightarrow> bool \<Rightarrow> 'v CertManager \<Rightarrow> ((MessageType \<times> bytes) option \<times> 'v CertManager) go" where
  "renew_if_expiring env left bundle renewed c =
     (let announce = (\<lambda>b c. Ret (Some (MessageClientCerts, string_bytes (json_Marshal (Bundle_json b))), c)) in
      if left < thirty_days
      then bind_go (RequestCertificate env c) (\<lambda>(err, c).
             case err of
               Some e \<Rightarrow> Ret (None, c)
             | None \<Rightarrow> (case ExportBundle c of Inl e \<Rightarrow> Ret (None, c) | Inr b \<Rightarrow> announce b c))
      else if renewed then announce bundle c else Ret (None, c))"

definition inspect_certs ::
  "'v acme_env \<Rightarrow> ('v \<Rightarrow> (error + string list \<times> int) list) \<Rightarrow> string \<Rightarrow> Bundle \<Rightarrow> bool \<Rightarrow> 'v CertManager \<Rightarrow>
   ((MessageType \<times> bytes) option \<times> 'v CertManager) go" where
  "inspect_certs env parsed domain bundle renewed c =
     (case GetCertificatesFunc c of
        Inl err \<Rightarrow> Ret (None, c)
      | Inr None \<Rightarrow> Ret (None, c)
      | Inr (Some cert) \<Rightarrow>
        (case find_leaf domain (parsed cert) None of
           Inl err \<Rightarrow> Ret (None, c)
         | Inr None \<Rightarrow> Ret (None, c)
         | Inr (Some leaf) \<Rightarrow> renew_if_expiring env (snd leaf) bundle renewed c))"

definition checkACMECerts ::
  "'v acme_env \<Rightarrow> ('v \<Rightarrow> (error + string list \<times> int) list) \<Rightarrow> string \<Rightarrow> 'v CertManager \<Rightarrow>
   ((MessageType \<times> bytes) option \<times> 'v CertManager) go" where
  "checkACMECerts env parsed domain c =
     (case ExportBundle c of
        Inr bundle \<Rightarrow> inspect_certs env parsed domain bundle False c
      | Inl err \<Rightarrow>
        if \<not> errors_Is err ErrNoCert then Ret (None, c)
        else bind_go (RequestCertificate env c) (\<lambda>(err, c).
          case err of
            Some e \<Rightarrow> Ret (None, c)
          | None \<Rightarrow>
            (case ExportBundle c of
               Inl e \<Rightarrow> Ret (None, c)
             | Inr bundle \<Rightarrow> inspect_certs env parsed domain bundle True c)))"

text \<open>An outcome that announces at most the bundle the manager holds.\<close>

definition announces_own :: "'v acme_env \<Rightarrow> (MessageType \<times> bytes) option \<times> 'v CertManager \<Rightarrow> bool" where
  "announces_own env r =
     (acme_run env (snd r) \<and>
      (\<forall>t d. fst r = Some (t, d) \<longrightarrow> t = MessageClientCerts \<and>
         (\<exists>b. ExportBundle (snd r) = Inr b \<and> d = string_bytes (json_Marshal (Bundle_json b)))))"

section \<open>Lemmas\<close>

lemma lowest_Min: "lowest (xs @ [i]) = Min (insert i (set xs))"
proof -
  have "foldl (\<lambda>low peer. if peer < low then peer else low) b xs = Min (insert b (set xs))" for b :: u64 and xs
  proof (induction xs arbitrary: b)
    case (Cons x xs)
    have "(if x < b then x else b) = min b x" by (auto simp: min_def)
    with Cons show ?case by (cases "xs = []") (simp_all add: min.assoc min.left_commute Min_insert)
  qed simp
  then have "lowest ys = Min (insert (NOT 0) (set ys))" for ys
    by (simp add: lowest_def)
  moreover have "(y :: u64) \<le> NOT 0" for y
    by simp
  ultimately show ?thesis
    by (simp add: Min_insert min_absorb2)
qed

lemma membership_turn_leader:
  assumes "map_order (pm_peers (srv_peers s)) order"
  shows "currentLeader (snd (membership_turn order s)) = Min (insert (srv_id s) (dom (pm_peers (srv_peers s))))"
  using assms by (auto simp: membership_turn_def Let_def lowest_Min PM_Snapshot_order map_order_def)

lemma leader_inv_init: "leader_inv (leader_init i)"
  by (simp add: leader_inv_def leader_init_def)

lemma leader_inv_step: "leader_step S T \<Longrightarrow> leader_inv S \<Longrightarrow> leader_inv T"
  by (induction rule: leader_step.induct) (auto simp: leader_inv_def lowest_Min signal_cap_def)

interpretation leader_runs: step_invariant leader_step leader_inv
  by unfold_locales (rule leader_inv_step)

lemma leader_inv_reachable: "leader_step\<^sup>*\<^sup>* (leader_init i) S \<Longrightarrow> leader_inv S"
  by (rule leader_runs.run_keeps [OF _ leader_inv_init])

lemma leader_step_self: "leader_step S T \<Longrightarrow> self T = self S"
  by (induction rule: leader_step.induct) simp_all

text \<open>Nobody but the timer loop receives from \<^verbatim>\<open>stopLeader\<close>.\<close>

lemma stuck_step: "leader_step S T \<Longrightarrow> lt S = LT_Stop \<Longrightarrow> stopCh S = signal_cap \<Longrightarrow> lt T = LT_Stop \<and> stopCh T = signal_cap"
  by (induction rule: leader_step.induct) simp_all

interpretation stuck_runs: step_invariant leader_step "\<lambda>S. lt S = LT_Stop \<and> stopCh S = signal_cap"
  by unfold_locales (blast dest: stuck_step)

lemma stuck_steps:
  "leader_step\<^sup>*\<^sup>* S T \<Longrightarrow> lt S = LT_Stop \<Longrightarrow> stopCh S = signal_cap \<Longrightarrow> lt T = LT_Stop \<and> stopCh T = signal_cap"
  by (rule stuck_runs.run_keeps) auto

subsection \<open>What the certificate check announces\<close>

lemma RequestCertificate_run:
  "acme_run env c \<Longrightarrow> same_crypto env env' \<Longrightarrow> go_all (\<lambda>r. acme_run env (snd r)) (RequestCertificate env' c)"
  by (rule go_all_I) (auto intro: acme_more [where op = Op_RequestCertificate])

lemma renew_announces_own:
  assumes "acme_run env c" and "same_crypto env env'" and "ExportBundle c = Inr bundle"
  shows "go_all (announces_own env) (renew_if_expiring env' left bundle renewed c)"
proof (cases "left < thirty_days")
  case True
  show ?thesis
  proof (cases "RequestCertificate env' c")
    case (Ret r)
    with RequestCertificate_run [OF assms(1,2)] have "acme_run env (snd r)" by simp
    with True Ret show ?thesis
      by (cases r) (simp add: renew_if_expiring_def announces_own_def split: option.split sum.split)
  qed (simp add: renew_if_expiring_def True)
next
  case False
  with assms show ?thesis
    by (simp add: renew_if_expiring_def announces_own_def)
qed

lemma inspect_announces_own:
  assumes "acme_run env c" and "same_crypto env env'" and "ExportBundle c = Inr bundle"
  shows "go_all (announces_own env) (inspect_certs env' parsed domain bundle renewed c)"
  using renew_announces_own [OF assms] assms(1)
  by (simp add: inspect_certs_def announces_own_def split: option.split sum.split)

lemma check_announces_own:
  assumes "acme_run env c" and "same_crypto env env'"
  shows "go_all (announces_own env) (checkACMECerts env' parsed domain c)"
proof (cases "ExportBundle c")
  case (Inr b)
  with inspect_announces_own [OF assms] show ?thesis
    by (simp add: checkACMECerts_def)
next
  case (Inl err)
  show ?thesis
  proof (cases "RequestCertificate env' c")
    case (Ret r)
    with RequestCertificate_run [OF assms] have "acme_run env (snd r)" by simp
    with Inl Ret assms inspect_announces_own [OF this assms(2)] show ?thesis
      by (cases r) (simp add: checkACMECerts_def announces_own_def split: option.split sum.split)
  qed (use Inl assms in \<open>simp add: checkACMECerts_def announces_own_def\<close>)
qed

section \<open>Properties\<close>

text \<open>C17: agreement on the leader. Two servers that have handled all their membership signals and
  see the same set of servers, themselves included, have the same leader, which is the lowest
  identifier of that set; the signal channels never exceed their capacity.\<close>

theorem leader_agreement:
  assumes "leader_step\<^sup>*\<^sup>* (leader_init i) S" and "leader_step\<^sup>*\<^sup>* (leader_init j) T"
    and "signals S = 0" and "signals T = 0"
    and "insert (self S) (view S) = insert (self T) (view T)"
  shows "leader S = leader T \<and> leader S = Min (insert (self S) (view S)) \<and>
    startCh S \<le> signal_cap \<and> stopCh S \<le> signal_cap"
  using leader_inv_reachable [OF assms(1)] leader_inv_reachable [OF assms(2)] assms(3-5)
  by (simp add: leader_inv_def)

text \<open>A server alone, and two servers that found each other.\<close>

lemma settle_run:
  "finite V \<Longrightarrow> i \<noteq> 0 \<Longrightarrow> Min (insert i V) \<noteq> 0 \<Longrightarrow>
   \<exists>S. leader_step\<^sup>*\<^sup>* (leader_init i) S \<and> signals S = 0 \<and> self S = i \<and> view S = V"
proof -
  assume V: "finite V" "i \<noteq> 0" "Min (insert i V) \<noteq> 0"
  obtain order where order: "set order = V"
    using V(1) finite_list by blast
  define m where "m = Min (insert i V)"
  have low: "lowest (order @ [i]) = m"
    using order by (simp add: lowest_Min m_def)
  let ?S1 = "(leader_init i)\<lparr>view := V, signals := 2\<rparr>"
  let ?S2 = "?S1\<lparr>signals := 1, leader := m, hm := (if i = m then HM_Start else HM_Stop)\<rparr>"
  let ?S3 = "?S2\<lparr>hm := HM_Select, startCh := (if i = m then 1 else 0), stopCh := (if i = m then 0 else 1)\<rparr>"
  have "leader_step (leader_init i) ?S1"
    using leader_step.change [OF V(1), of "leader_init i"] by (simp add: leader_init_def numeral_2_eq_2)
  moreover have "leader_step ?S1 ?S2"
    using leader_step.hm_new [of ?S1 order] V(3) order low by (simp add: leader_init_def m_def [symmetric])
  moreover have "leader_step ?S2 ?S3"
    using leader_step.hm_start [of ?S2] leader_step.hm_stop [of ?S2]
    by (cases "i = m") (simp_all add: leader_init_def signal_cap_def)
  moreover have "leader_step ?S3 (?S3\<lparr>signals := 0\<rparr>)"
    using leader_step.hm_same [of ?S3 order] order low by (simp add: leader_init_def)
  ultimately have "leader_step\<^sup>*\<^sup>* (leader_init i) (?S3\<lparr>signals := 0\<rparr>)"
    by (meson rtranclp.rtrancl_into_rtrancl rtranclp.rtrancl_refl)
  then show ?thesis
    by (intro exI [of _ "?S3\<lparr>signals := 0\<rparr>"]) (simp add: leader_init_def)
qed

lemma leader_agreement_witness:
  "\<exists>S T. leader_step\<^sup>*\<^sup>* (leader_init 3) S \<and> leader_step\<^sup>*\<^sup>* (leader_init 5) T \<and> view S = {5} \<and> view T = {3} \<and>
     leader S = leader T \<and> leader S = 3"
proof -
  obtain S where S: "leader_step\<^sup>*\<^sup>* (leader_init 3) S" "signals S = 0" "self S = 3" "view S = {5}"
    using settle_run [of "{5}" 3] by auto
  obtain T where T: "leader_step\<^sup>*\<^sup>* (leader_init 5) T" "signals T = 0" "self T = 5" "view T = {3}"
    using settle_run [of "{3}" 5] by auto
  have "leader S = leader T \<and> leader S = Min (insert (self S) (view S)) \<and> startCh S \<le> signal_cap \<and> stopCh S \<le> signal_cap"
    using S T by (intro leader_agreement [OF S(1) T(1)]) auto
  with S T show ?thesis by - (rule exI [of _ S], rule exI [of _ T], auto)
qed

text \<open>C23: the timer loop can block itself for ever. A leader that is replaced while its timer is due
  can take the timer before the stop signal and then sends a second stop signal into the full
  channel of which it is the only receiver; from that reachable state no continuation lets the
  loop go on, so the server never again acts as leader.\<close>

theorem leader_self_deadlock:
  "\<exists>S. leader_step\<^sup>*\<^sup>* (leader_init 5) S \<and> lt S = LT_Stop \<and> \<not> (\<exists>T. leader_step\<^sup>*\<^sup>* S T \<and> lt T = LT_Select)"
proof -
  let ?S1 = "(leader_init 5)\<lparr>signals := 0, leader := 5, hm := HM_Start\<rparr>"
  let ?S2 = "?S1\<lparr>hm := HM_Select, startCh := 1\<rparr>"
  let ?S3 = "?S2\<lparr>startCh := 0, armed := True\<rparr>"
  let ?S4 = "?S3\<lparr>view := {3}, signals := 1\<rparr>"
  let ?S5 = "?S4\<lparr>signals := 0, leader := 3, hm := HM_Stop\<rparr>"
  let ?S6 = "?S5\<lparr>hm := HM_Select, stopCh := 1\<rparr>"
  let ?S7 = "?S6\<lparr>armed := False, lt := LT_Stop\<rparr>"
  have "leader_step (leader_init 5) ?S1"
    using leader_step.hm_new [of "leader_init 5" "[]"] lowest_Min [of "[]" 5] by (simp add: leader_init_def)
  moreover have "leader_step ?S1 ?S2"
    using leader_step.hm_start [of ?S1] by (simp add: leader_init_def signal_cap_def)
  moreover have "leader_step ?S2 ?S3"
    using leader_step.lt_start [of ?S2] by (simp add: leader_init_def)
  moreover have "leader_step ?S3 ?S4"
    using leader_step.change [of "{3}" ?S3] by (simp add: leader_init_def)
  moreover have "leader_step ?S4 ?S5"
    using leader_step.hm_new [of ?S4 "[3]"] lowest_Min [of "[3]" 5] by (simp add: leader_init_def)
  moreover have "leader_step ?S5 ?S6"
    using leader_step.hm_stop [of ?S5] by (simp add: leader_init_def signal_cap_def)
  moreover have "leader_step ?S6 ?S7"
    using leader_step.fire_other [of ?S6] by (simp add: leader_init_def)
  ultimately have run: "leader_step\<^sup>*\<^sup>* (leader_init 5) ?S7"
    by (meson rtranclp.rtrancl_into_rtrancl rtranclp.rtrancl_refl)
  have "lt T = LT_Stop" if "leader_step\<^sup>*\<^sup>* ?S7 T" for T
    using stuck_steps [OF that] by (simp add: signal_cap_def)
  with run show ?thesis
    by (intro exI [of _ ?S7]) auto
qed

text \<open>C20: what the leader announces is what every peer ends up with. If the leader's check of its
  certificates announces anything, it is the bundle the leader then exports, and a peer that
  handles the message exports the same bundle and serves the same certificate afterwards.\<close>

theorem announced_bundle_adopted:
  assumes "acme_run env c" and "same_crypto env env'" and "same_crypto env env''"
    and "checkACMECerts env' parsed domain c = Ret (Some (t, d), c')"
  shows "\<exists>b s'. ExportBundle c' = Inr b \<and>
    handlePeerMessage env'' \<lparr>msg_Type = t, msg_From = from, msg_Data = d\<rparr> s = Ret s' \<and>
    ExportBundle (certManager s') = Inr b \<and> GetCertificatesFunc (certManager s') = GetCertificatesFunc c'"
proof -
  have "announces_own env (Some (t, d), c')"
    using check_announces_own [OF assms(1,2), of parsed domain] assms(4) by simp
  then obtain b where b: "acme_run env c'" "t = MessageClientCerts" "ExportBundle c' = Inr b"
      "d = string_bytes (json_Marshal (Bundle_json b))"
    by (auto simp: announces_own_def)
  moreover have "MessageClientCerts \<noteq> MessageACMEAccountKey"
    by (simp add: MessageClientCerts_def MessageACMEAccountKey_def)
  moreover obtain err m where "ImportBundle env'' b (\<not> srv_Debug s) (certManager s) = Ret (err, m)" "ExportBundle m = Inr b"
      "GetCertificatesFunc m = GetCertificatesFunc c'"
    using ImportBundle_exported [OF b(1,3) assms(3)] by blast
  ultimately show ?thesis
    by (simp add: handlePeerMessage_def)
qed

lemma announced_bundle_adopted_witness:
  "\<exists>c t d c' b s'. acme_run plain_env c \<and> checkACMECerts plain_env (\<lambda>cert. [Inr ([''x.y''], 10)]) ''x.y'' c = Ret (Some (t, d), c') \<and>
     ExportBundle c' = Inr b \<and> handlePeerMessage plain_env \<lparr>msg_Type = t, msg_From = 3, msg_Data = d\<rparr> plain_server = Ret s' \<and>
     ExportBundle (certManager s') = Inr b"
proof -
  let ?pc = "\<lambda>cert. [Inr ([''x.y''], 10)] :: (error + string list \<times> int) list"
  define c1 where "c1 = snd (CreateAccount plain_env plain_manager)"
  have c1: "acme_run plain_env c1"
    unfolding c1_def using plain_manager_run
    by (rule acme_more [where op = Op_CreateAccount and env' = plain_env and err = "fst (CreateAccount plain_env plain_manager)"])
      (simp_all add: same_crypto_def)
  have names: "request_names plain_conf = Ret (''_acme-challenge.t'', ''t.x.y'', [''t.x.y'', ''*.t.x.y''])"
    using request_names_wildcard [of plain_conf "''t''"] by (simp add: plain_conf_def)
  have "\<exists>t d c'. checkACMECerts plain_env ?pc ''x.y'' c1 = Ret (Some (t, d), c')"
    by (simp add: c1_def CreateAccount_def plain_manager_eq(2) plain_env_def keyToPEM_def persistAccount_def persist_json_def
        Let_def checkACMECerts_def ExportBundle_def RequestCertificate_def names order_certificate_def ExportPrivateKey_def
        ImportBundle_def pemToKey_def persisCerts_def inspect_certs_def GetCertificatesFunc_def renew_if_expiring_def
        thirty_days_def strings_Contains_def bytes_string_def string_bytes_def)
  then obtain t d c' where "checkACMECerts plain_env ?pc ''x.y'' c1 = Ret (Some (t, d), c')"
    by blast
  with announced_bundle_adopted [OF c1 _ _ this, of plain_env 3 plain_server] c1 show ?thesis
    by (fastforce simp: same_crypto_def)
qed

end
