(* ===== verification/Node.thy ===== *)
theory Node
  imports Cmd Leader
begin

text \<open>
  A running server: the goroutines that \<^verbatim>\<open>Gossip\<close>, \<^verbatim>\<open>ListenForPeers\<close> and \<^verbatim>\<open>ListenForClients\<close> start,
  composed into one step relation. A step is one turn of a loop or one call from the gossip
  library, taken as a whole; the interleavings inside a registration, a stream and the leader's
  timer are in the theories of these components.
\<close>

section \<open>Starting\<close>

datatype server_task =
    AnnounceTest | AcceptPeerTLS | AcceptPeerQUIC | HandleMembershipChange | HandlePeerEvents | HandleMerge
  | AcceptClientTLS | AcceptClientQUIC | HandleClientEvents | ShutdownGossip | ReconcilePeers

text \<open>The goroutine with the test message returns at once unless debugging is on.\<close>

definition ListenForPeers :: "('p, 'v) Server \<Rightarrow> server_task list \<times> ('p, 'v) Server" where
  "ListenForPeers s =
     ((if srv_Debug s then [AnnounceTest] else []) @
      [AcceptPeerTLS, AcceptPeerQUIC, HandleMembershipChange, HandlePeerEvents, HandleMerge],
      s\<lparr>membershipCh := membershipCh s + 1\<rparr>)"

definition ListenForClients :: "('p, 'v) Server \<Rightarrow> server_task list" where
  "ListenForClients s = [AcceptClientTLS, AcceptClientQUIC, HandleClientEvents]"

definition Server_PeerID :: "('p, 'v) Server \<Rightarrow> u64" where
  "Server_PeerID s = srv_id s"

text \<open>
  \<^verbatim>\<open>Gossip\<close>: \<open>Create\<close> and \<open>JoinMembers\<close> are the library's calls. The members are joined only if there are
  any, and an error of joining is not an error of the call; beside the error the goroutines, and
  how many members were found.
\<close>

definition Server_Gossip ::
  "(GossipCfg \<Rightarrow> error option) \<Rightarrow> (string list \<Rightarrow> nat \<times> error option) \<Rightarrow> ('p, 'v) Server \<Rightarrow>
   error option \<times> server_task list \<times> nat option" where
  "Server_Gossip Create JoinMembers s =
     (case Create (gossipCfg s) of
        Some err \<Rightarrow> (Some err, [], None)
      | None \<Rightarrow>
        (None, [ShutdownGossip, ReconcilePeers],
         if 0 < length (srv_Members s) then Some (fst (JoinMembers (srv_Members s))) else None))"

section \<open>Steps\<close>

text \<open>
  The sessions, the devices under the connections, and \<open>Peer\<close>, the identifier a session was
  made for, are parameters. The environment of the certificate manager may change from step to
  step but not its cryptography. A key of a table or the order of a snapshot is arbitrary.
\<close>

inductive server_step ::
  "'v acme_env \<Rightarrow> ('k, 'p) session_env \<Rightarrow> 'c reader \<Rightarrow> 'c writer \<Rightarrow> ('p \<Rightarrow> u64) \<Rightarrow>
   ('p, 'v) Server \<Rightarrow> ('p, 'v) Server \<Rightarrow> bool"
  for env e Read Write Peer where
  peer_tls: "peerTLSHandshake e Read now connector s conn = (s', conn') \<Longrightarrow> server_step env e Read Write Peer s s'"
| peer_quic: "peerQUICHandshake e Read now connector AcceptStream s = (s', r) \<Longrightarrow> server_step env e Read Write Peer s s'"
| client_tls: "clientTLSHandshake e Read Write Generate now connector s conn = (s', conn') \<Longrightarrow>
    server_step env e Read Write Peer s s'"
| client_quic: "clientQUICHandshake e Read Write Generate now connector AcceptStream s = (s', r) \<Longrightarrow>
    server_step env e Read Write Peer s s'"
| peer_event: "pm_notify (srv_peers s) = p # ps \<Longrightarrow>
    handlePeerEvent Initiator p (s\<lparr>srv_peers := (srv_peers s)\<lparr>pm_notify := ps\<rparr>\<rparr>) = (ts, s') \<Longrightarrow>
    server_step env e Read Write Peer s s'"
| client_event: "pm_notify (srv_clients s) = p # ps \<Longrightarrow>
    handleClientEvent p (s\<lparr>srv_clients := (srv_clients s)\<lparr>pm_notify := ps\<rparr>\<rparr>) = (ts, s') \<Longrightarrow>
    server_step env e Read Write Peer s s'"
| peer_gone: "removePeer (Peer p) s = (gone, s') \<Longrightarrow> server_step env e Read Write Peer s s'"
| client_gone: "clientGone Peer p s = (gone, s') \<Longrightarrow> server_step env e Read Write Peer s s'"
| join: "NotifyJoin s node = JoinConnect m \<Longrightarrow> connectPeer e mux_dialers Dial Write s m = (err, s', r) \<Longrightarrow>
    server_step env e Read Write Peer s s'"
| reconcile: "m \<in> set (peerReconciliation s nodes) \<Longrightarrow> connectPeer e mux_dialers Dial Write s m = (err, s', r) \<Longrightarrow>
    server_step env e Read Write Peer s s'"
| leave: "NotifyLeave s node = (gone, s') \<Longrightarrow> server_step env e Read Write Peer s s'"
| push_pull: "same_crypto env env' \<Longrightarrow> MergeRemoteState env' s buf joining = Ret s' \<Longrightarrow>
    server_step env e Read Write Peer s s'"
| merge: "updatesCh s = x # xs \<Longrightarrow> server_step env e Read Write Peer s (merge_one (s\<lparr>updatesCh := xs\<rparr>) x)"
| background: "server_step env e Read Write Peer s (backgroundDispatch Populate order s)"
| message: "same_crypto env env' \<Longrightarrow> handlePeerMessage env' msg s = Ret s' \<Longrightarrow> server_step env e Read Write Peer s s'"
| membership: "0 < membershipCh s \<Longrightarrow> membership_turn order (s\<lparr>membershipCh := membershipCh s - 1\<rparr>) = (sig, s') \<Longrightarrow>
    server_step env e Read Write Peer s s'"
| check_account: "same_crypto env env' \<Longrightarrow> checkACMEAccountKeys env' (certManager s) = Ret (ann, c) \<Longrightarrow>
    server_step env e Read Write Peer s (s\<lparr>certManager := c\<rparr>)"
| check_certs: "same_crypto env env' \<Longrightarrow> checkACMECerts env' parsed domain (certManager s) = Ret (ann, c) \<Longrightarrow>
    server_step env e Read Write Peer s (s\<lparr>certManager := c\<rparr>)"

inductive_cases server_stepE: "server_step env e Read Write Peer s s'"

text \<open>
  The invariant of a server with identifier \<open>ident\<close>: the tables count their sessions, neither the
  table of peers nor the graph has an entry for the server itself, summaries are filed under
  their owner, the cached summary is the server's own, and the flags of the certificate manager
  tell the truth.
\<close>

definition node_inv :: "'v acme_env \<Rightarrow> u64 \<Rightarrow> ('p, 'v) Server \<Rightarrow> bool" where
  "node_inv env ident s =
     (srv_id s = ident \<and> pm_inv (srv_peers s) \<and> pm_inv (srv_clients s) \<and> pm_peers (srv_peers s) ident = None \<and>
      pg_inv (srv_peerGraph s) \<and> srv_peerGraph s ident = None \<and>
      (\<forall>b. cached s = Some b \<longrightarrow> (\<exists>c. b = CC_MarshalBinary c \<and> cc_Peer c = ident)) \<and>
      cm_inv env (certManager s))"

section \<open>Lemmas\<close>

lemma node_invI:
  assumes "node_inv env ident s" and "srv_id s' = srv_id s" and "pm_inv (srv_peers s')" and "pm_inv (srv_clients s')"
    and "pm_peers (srv_peers s') ident = None" and "srv_peerGraph s' = srv_peerGraph s" and "cached s' = cached s"
    and "certManager s' = certManager s"
  shows "node_inv env ident s'"
  using assms by (simp add: node_inv_def)

lemma node_invD:
  assumes "node_inv env ident s"
  shows "srv_id s = ident" "pm_inv (srv_peers s)" "pm_inv (srv_clients s)" "pm_peers (srv_peers s) ident = None"
    "pg_inv (srv_peerGraph s)" "srv_peerGraph s ident = None" "cm_inv env (certManager s)"
  using assms by (simp_all add: node_inv_def)

lemma node_inv_certManager: "node_inv env ident s \<Longrightarrow> cm_inv env c \<Longrightarrow> node_inv env ident (s\<lparr>certManager := c\<rparr>)"
  by (simp add: node_inv_def)

lemma pm_inv_notify [simp]: "pm_inv (m\<lparr>pm_notify := ps\<rparr>) = pm_inv m"
  by (simp add: pm_inv_def)

text \<open>A registration keeps the count, and adds no key but that of the configuration.\<close>

lemma env_NewPeer_inv:
  assumes "pm_inv m" and "env_NewPeer e m proto conf = (err, m')"
  shows "pm_inv m'" and "k \<noteq> cfg_Peer conf \<Longrightarrow> pm_peers m' k = pm_peers m k"
proof -
  show "pm_inv m'"
    using pm_inv_NewPeer [OF assms(1), of "reg e" "construct e" "closes e" proto conf] assms(2) by (simp add: env_NewPeer_def)
  show "pm_peers m' k = pm_peers m k" if "k \<noteq> cfg_Peer conf"
  proof (cases err)
    case None
    with assms(2) that show ?thesis
      by (auto simp: env_NewPeer_None_iff PM_register_def PM_Notify_def PM_Count_def PM_Store_def)
  next
    case (Some x)
    with assms(2) show ?thesis
      by (auto dest: env_NewPeer_Some)
  qed
qed

lemma node_inv_peers:
  assumes "node_inv env ident s" and "env_NewPeer e (srv_peers s) proto conf = (err, m)" and "cfg_Peer conf \<noteq> ident"
  shows "node_inv env ident (s\<lparr>srv_peers := m\<rparr>)"
  using assms env_NewPeer_inv [OF node_invD(2) [OF assms(1)] assms(2)] by (simp add: node_inv_def)

lemma node_inv_clients:
  assumes "node_inv env ident s" and "env_NewPeer e (srv_clients s) proto conf = (err, m)"
  shows "node_inv env ident (s\<lparr>srv_clients := m\<rparr>)"
  using assms env_NewPeer_inv [OF node_invD(3) [OF assms(1)] assms(2)] by (simp add: node_inv_def)

lemma node_inv_peerNegotiation:
  assumes "node_inv env ident s" and "peerNegotiation e Read now connector protos s conn = (err, s', conn')"
  shows "node_inv env ident s'"
proof -
  have step: "node_inv env ident (s\<lparr>srv_peers := m\<rparr>)"
    if "env_NewPeer e (srv_peers s) proto (responder_config connector k) = (x, m)" and "k \<noteq> srv_id s" for proto k x m
    using node_inv_peers [OF assms(1) that(1)] that(2) node_invD(1) [OF assms(1)] by simp
  show ?thesis
    using assms by (auto simp: peerNegotiation_def Let_def dest: step split: prod.splits sum.splits if_splits)
qed

lemma node_inv_clientNegotiation:
  assumes "node_inv env ident s" and "clientNegotiation e Read Write Generate now connector protos s conn = (err, s', conn')"
  shows "node_inv env ident s'"
  using assms
  by (auto simp: clientNegotiation_def Let_def intro!: node_inv_clients [OF assms(1)]
      split: prod.splits sum.splits if_splits option.splits)

lemma node_inv_handshakes [inv_intros]:
  assumes "node_inv env ident s"
  shows "peerTLSHandshake e Read now connector s conn = (s', conn') \<Longrightarrow> node_inv env ident s'"
    and "peerQUICHandshake e Read now connector AcceptStream s = (s', r) \<Longrightarrow> node_inv env ident s'"
    and "clientTLSHandshake e Read Write Generate now connector s conn = (s', conn') \<Longrightarrow> node_inv env ident s'"
    and "clientQUICHandshake e Read Write Generate now connector AcceptStream s = (s', r) \<Longrightarrow> node_inv env ident s'"
  using node_inv_peerNegotiation [OF assms] node_inv_clientNegotiation [OF assms] assms
  by (auto simp: peerTLSHandshake_def peerQUICHandshake_def clientTLSHandshake_def clientQUICHandshake_def
      split: prod.splits option.splits sum.splits)

lemma node_inv_connectPeer [inv_intros]:
  assumes "node_inv env ident s" and "connectPeer e dreg Dial Write s m = (err, s', r)" and "PeerID m \<noteq> ident"
  shows "node_inv env ident s'"
  using assms
  by (auto simp: connectPeer_def Let_def initiator_config_def intro!: node_inv_peers [OF assms(1)]
      split: prod.splits sum.splits option.splits)

text \<open>Neither joins nor the reconciliation choose the server itself.\<close>

lemma join_other: "NotifyJoin s node = JoinConnect m \<Longrightarrow> PeerID m \<noteq> srv_id s"
  by (auto simp: NotifyJoin_def split: if_splits sum.splits)

lemma reconcile_other: "m \<in> set (reconcile s m0 nodes) \<Longrightarrow> PeerID m \<noteq> srv_id s"
  by (induction nodes arbitrary: m0) (auto split: if_splits sum.splits)

lemma PM_Remove_keeps_None: "PM_Remove m k = (gone, m') \<Longrightarrow> pm_peers m j = None \<Longrightarrow> pm_peers m' j = None"
  by (auto simp: PM_Remove_def PM_Count_def Let_def split: option.splits)

lemma node_inv_removePeer [inv_intros]:
  assumes "node_inv env ident s" and "removePeer k s = (gone, s')"
  shows "node_inv env ident s'"
  using assms pm_inv_Remove [OF node_invD(2) [OF assms(1)], of k]
    pg_inv_Remove [OF node_invD(5) [OF assms(1)], of k]
  by (auto simp: removePeer_def Let_def node_inv_def PeerGraph_Remove_def intro: PM_Remove_keeps_None split: prod.splits)

lemma node_inv_clientGone [inv_intros]:
  assumes "node_inv env ident s" and "clientGone Peer p s = (gone, s')"
  shows "node_inv env ident s'"
  using assms pm_inv_Remove [OF node_invD(3) [OF assms(1)], of "Peer p"]
  by (auto simp: clientGone_def node_inv_def split: prod.splits)

lemma node_inv_merge [inv_intros]:
  assumes "node_inv env ident s"
  shows "node_inv env ident (merge_one (s\<lparr>updatesCh := xs\<rparr>) x)"
  using assms pg_inv_Replace [OF node_invD(5) [OF assms], of x]
  by (auto simp: merge_one_def node_inv_def PeerGraph_Replace_def Let_def split: option.splits)

lemma node_inv_background [inv_intros]:
  assumes "node_inv env ident s"
  shows "node_inv env ident (backgroundDispatch Populate order s)"
  using assms
  by (auto simp: backgroundDispatch_def generateConnectedClients_def node_inv_def NewConnectedClients_def Let_def
      split: sum.splits)

subsection \<open>The certificate manager in the loops\<close>

lemma cm_inv_ImportAccount_Ret:
  "cm_inv env c \<Longrightarrow> ImportAccount env' af persist c = Ret (err, c') \<Longrightarrow> cm_inv env c'"
  using cm_inv_ImportAccount [of env c env' af persist] by simp

lemma cm_inv_ImportBundle_Ret:
  "same_crypto env env' \<Longrightarrow> cm_inv env c \<Longrightarrow> ImportBundle env' b persist c = Ret (err, c') \<Longrightarrow> cm_inv env c'"
  using cm_inv_ImportBundle [of env env' c b persist] by simp

lemma cm_inv_Request_Ret:
  "same_crypto env env' \<Longrightarrow> cm_inv env c \<Longrightarrow> RequestCertificate env' c = Ret (err, c') \<Longrightarrow> cm_inv env c'"
  using cm_inv_RequestCertificate [of env env' c] by simp

lemma node_inv_push_pull [inv_intros]:
  assumes inv: "node_inv env ident s" and crypto: "same_crypto env env'" and run: "MergeRemoteState env' s buf joining = Ret s'"
  shows "node_inv env ident s'"
proof -
  note cm = node_invD(7) [OF inv]
  have acc: "node_inv env ident (s\<lparr>certManager := c\<rparr>) \<and> cm_inv env c" if "ImportAccount env' af p (certManager s) = Ret (x, c)" for af p x c
    using cm_inv_ImportAccount_Ret [OF cm that] node_inv_certManager [OF inv] by blast
  have bun: "node_inv env ident (s\<lparr>certManager := d\<rparr>)"
    if "ImportAccount env' af p (certManager s) = Ret (x, c)" "ImportBundle env' b p' c = Ret (y, d)" for af p x c b p' y d
    using acc [OF that(1)] cm_inv_ImportBundle_Ret [OF crypto _ that(2)] node_inv_certManager [OF inv] by blast
  have upd: "node_inv env ident (s\<lparr>updatesCh := xs\<rparr>)" for xs
    using inv by (simp add: node_inv_def)
  show ?thesis
  proof (cases "buf \<noteq> [] \<and> \<not> joining")
    case True
    with run obtain r where "CC_UnmarshalBinary buf = Ret r"
        "(case r of Inl err \<Rightarrow> Ret s | Inr c \<Rightarrow> Ret (s\<lparr>updatesCh := updatesCh s @ [c]\<rparr>)) = Ret s'"
      by (auto simp: MergeRemoteState_def bind_go_Ret_iff)
    then show ?thesis
      using inv upd by (cases r) auto
  next
    case False
    then show ?thesis
      using run inv
      by (auto simp: MergeRemoteState_def Let_def bind_go_Ret_iff dest: acc bun
          split: if_splits option.splits prod.splits)
  qed
qed

lemma node_inv_message [inv_intros]:
  assumes inv: "node_inv env ident s" and crypto: "same_crypto env env'" and run: "handlePeerMessage env' m s = Ret s'"
  shows "node_inv env ident s'"
  using run inv cm_inv_ImportAccount_Ret [OF node_invD(7) [OF inv]] cm_inv_ImportBundle_Ret [OF crypto node_invD(7) [OF inv]]
  by (auto simp: handlePeerMessage_def bind_go_Ret_iff intro!: node_inv_certManager
      split: if_splits option.splits prod.splits)

lemma cm_inv_announce_account: "announce_account env' c = Ret (ann, c') \<Longrightarrow> c' = c"
  by (auto simp: announce_account_def elim!: bind_go_RetE split: sum.splits)

lemma cm_inv_Load_Ret:
  "same_crypto env env' \<Longrightarrow> cm_inv env c \<Longrightarrow> LoadAccountFromFile env' c = Ret (err, c') \<Longrightarrow> cm_inv env c'"
  using cm_inv_apply [of env env' c Op_LoadAccountFromFile] by simp

lemma cm_inv_check_account [inv_intros]:
  assumes "same_crypto env env'" and "cm_inv env c" and "checkACMEAccountKeys env' c = Ret (ann, c')"
  shows "cm_inv env c'"
proof -
  have load: "cm_inv env d" if "LoadAccountFromFile env' c = Ret (x, d)" for x d
    using cm_inv_Load_Ret [OF assms(1,2) that] .
  have "cm_inv env (snd (CreateAccount env' d))" if "LoadAccountFromFile env' c = Ret (x, d)" for x d
    using cm_inv_CreateAccount [OF load [OF that]] .
  then have create: "cm_inv env d'" if "LoadAccountFromFile env' c = Ret (x, d)" "CreateAccount env' d = (y, d')" for x d y d'
    using that by (metis snd_conv)
  show ?thesis
    using assms(2,3)
    by (auto simp: checkACMEAccountKeys_def elim!: bind_go_RetE split: sum.splits prod.splits if_splits option.splits)
      (metis load create cm_inv_announce_account)+
qed

lemma cm_inv_renew:
  assumes "same_crypto env env'" and "cm_inv env c" and "renew_if_expiring env' left b renewed c = Ret (ann, c')"
  shows "cm_inv env c'"
  using assms(2,3) cm_inv_Request_Ret [OF assms(1,2)]
  by (auto simp: renew_if_expiring_def Let_def elim!: bind_go_RetE split: if_splits prod.splits option.splits sum.splits)

lemma cm_inv_inspect:
  assumes "same_crypto env env'" and "cm_inv env c" and "inspect_certs env' parsed domain b renewed c = Ret (ann, c')"
  shows "cm_inv env c'"
  using assms(2,3) cm_inv_renew [OF assms(1,2)]
  by (auto simp: inspect_certs_def split: sum.splits option.splits)

lemma cm_inv_check_certs [inv_intros]:
  assumes "same_crypto env env'" and "cm_inv env c" and "checkACMECerts env' parsed domain c = Ret (ann, c')"
  shows "cm_inv env c'"
proof -
  have req: "cm_inv env d" if "RequestCertificate env' c = Ret (x, d)" for x d
    using cm_inv_Request_Ret [OF assms(1,2) that] .
  have insp: "cm_inv env c'" if "RequestCertificate env' c = Ret (x, d)" "inspect_certs env' parsed domain b True d = Ret (ann, c')" for x d b
    using cm_inv_inspect [OF assms(1) req [OF that(1)] that(2)] .
  show ?thesis
    using assms(2,3) cm_inv_inspect [OF assms(1,2)]
    by (auto simp: checkACMECerts_def elim!: bind_go_RetE dest: req insp split: sum.splits prod.splits if_splits option.splits)
qed

subsection \<open>Every step\<close>

lemma node_inv_step:
  assumes "server_step env e Read Write Peer s s'" and inv: "node_inv env ident s"
  shows "node_inv env ident s'"
  using assms(1)
proof cases
  case (peer_event p ps Initiator ts)
  with inv show ?thesis
    by (auto simp: handlePeerEvent_def node_inv_def)
next
  case (client_event p ps ts)
  with inv show ?thesis
    by (auto simp: handleClientEvent_def node_inv_def)
next
  case (join node m Dial err r)
  with inv show ?thesis
    using node_inv_connectPeer [OF inv join(2)] join_other node_invD(1) [OF inv] by metis
next
  case (reconcile m nodes Dial err r)
  with inv show ?thesis
    using node_inv_connectPeer [OF inv reconcile(2)] reconcile_other node_invD(1) [OF inv]
    unfolding peerReconciliation_def by metis
next
  case (leave node gone)
  with inv show ?thesis
    by (auto simp: NotifyLeave_def intro: node_inv_removePeer split: if_splits sum.splits)
next
  case (membership order sig)
  with inv show ?thesis
    by (auto simp: membership_turn_def Let_def node_inv_def split: if_splits)
next
  case (check_account env' ann c)
  with inv show ?thesis
    using cm_inv_check_account node_inv_certManager node_invD(7) by metis
next
  case (check_certs env' parsed domain ann c)
  with inv show ?thesis
    using cm_inv_check_certs node_inv_certManager node_invD(7) by metis
qed (use inv in \<open>auto intro: inv_intros\<close>)

interpretation node_runs: step_invariant "server_step env e Read Write Peer" "node_inv env ident"
  by unfold_locales (rule node_inv_step)

end
