(* ===== verification/Client_Run.thy ===== *)
theory Client_Run
  imports Client
begin

text \<open>
  The client's commands once they run: what \<^verbatim>\<open>Tunnel\<close> prints, the requests its reverse proxy
  sends to the target, and the goroutines of \<^verbatim>\<open>Tunnel\<close>, \<^verbatim>\<open>Connect\<close> and \<^verbatim>\<open>Forward\<close> as step
  relations (\<^verbatim>\<open>client/tunnel.go\<close>, \<^verbatim>\<open>client/connect.go\<close>, \<^verbatim>\<open>client/forward.go\<close>). The channel of
  signals has one place; the run time drops a signal that finds it full.
\<close>

section \<open>What is printed\<close>

definition newline :: string where
  "newline = [CHR 0x0A]"

definition banner_rule :: string where
  "banner_rule = newline @ replicate 50 (CHR ''='') @ newline @ newline"

text \<open>\<open>sep\<close> is \<^verbatim>\<open>os.PathSeparator\<close>.\<close>

definition tunnel_banner :: "char \<Rightarrow> TunnelOpts \<Rightarrow> URL \<Rightarrow> string \<Rightarrow> string \<Rightarrow> string" where
  "tunnel_banner sep opts u hostname hostHeader =
     (if to_Concise opts then hostname @ newline
      else
        banner_rule @
        (if url_Scheme u = ''http'' \<or> url_Scheme u = ''https'' then
           ''HTTPS requests will be forwarded to: '' @ to_Forward opts @ '' (Host: '' @ hostHeader @ '')'' @ newline
         else if url_Scheme u = ''tcp'' then
           ''TCP connections will be forwarded to: '' @ to_Forward opts @ newline @ newline @
           ''Example usages:'' @ newline @ newline @
           ''SSH:'' @ newline @
           ''ssh -o ProxyCommand='' @ [CHR 0x22] @ ''.'' @ [sep] @ to_AppName opts @ '' connect -url '' @ hostname @ [CHR 0x22] @
             '' user@127.0.0.1'' @ newline
         else '''') @
        newline @ ''Your Hostname: '' @ hostname @ newline @
        banner_rule)"

section \<open>The reverse proxy\<close>

text \<open>
  An address with its path and query, for paths whose encoding is the default one, and a request
  as far as the director changes it. The director is that of \<^verbatim>\<open>httputil.NewSingleHostReverseProxy\<close>.
\<close>

record full_URL = URL +
  url_Path :: string
  url_RawQuery :: string

record request =
  req_URL :: full_URL
  req_Host :: string
  req_Header :: "string \<rightharpoonup> string list"

definition singleJoiningSlash :: "string \<Rightarrow> string \<Rightarrow> string" where
  "singleJoiningSlash a b =
     (let aslash = HasSuffix a ''/'';
          bslash = (b \<noteq> [] \<and> hd b = CHR ''/'') in
      if aslash \<and> bslash then a @ tl b
      else if \<not> aslash \<and> \<not> bslash then a @ ''/'' @ b
      else a @ b)"

definition single_host_director :: "full_URL \<Rightarrow> request \<Rightarrow> request" where
  "single_host_director target req =
     (let u = req_URL req;
          u = u\<lparr>url_Scheme := url_Scheme target, url_Host := url_Host target\<rparr>;
          u = u\<lparr>url_Path := singleJoiningSlash (url_Path target) (url_Path u)\<rparr>;
          u = u\<lparr>url_RawQuery :=
                 (if url_RawQuery target = '''' \<or> url_RawQuery u = '''' then url_RawQuery target @ url_RawQuery u
                  else url_RawQuery target @ ''&'' @ url_RawQuery u)\<rparr>;
          req = req\<lparr>req_URL := u\<rparr> in
      if req_Header req ''User-Agent'' = None
      then req\<lparr>req_Header := (req_Header req)(''User-Agent'' \<mapsto> [''''])\<rparr> else req)"

definition tunnel_Director :: "full_URL \<Rightarrow> string \<Rightarrow> request \<Rightarrow> request" where
  "tunnel_Director target hostHeader r = (single_host_director target r)\<lparr>req_Host := hostHeader\<rparr>"

text \<open>The status and the text for an error whose own text is \<open>msg\<close>.\<close>

definition tunnel_ErrorHandler :: "string \<Rightarrow> nat \<times> string" where
  "tunnel_ErrorHandler msg = (502, ''Forwarding target returned error: '' @ msg)"

section \<open>The goroutines of \<^verbatim>\<open>Tunnel\<close>\<close>

text \<open>
  The loop over the streams holds a stream while the channel of the HTTP server is full. Beside
  the variables of the program the state has all streams that arrived and what became of them.
\<close>

datatype 'c loop_pc = L_Range | L_Offer 'c | L_Done

datatype watch_pc = Watching | Sending | Sent

record ('c, 'n, 'p) tunnel_run =
  tn_sigs :: nat
  tn_session :: lifecycle
  tn_watch :: watch_pc
  tn_returned :: bool
  tn_table :: "'p PeerMap"
  tn_handle :: lifecycle
  tn_streams :: "(Link \<times> 'c) list"
  tn_loop :: "'c loop_pc"
  tn_ch :: "'c list"
  tn_arrived :: "'c multiset"
  tn_served :: "'c multiset"
  tn_connected :: "('c \<times> 'n) multiset"
  tn_closed :: "'c multiset"
  tn_fatal :: "string option"

definition sigs_cap :: nat where
  "sigs_cap = 1"

definition accepter_cap :: nat where
  "accepter_cap = 32"

definition tunnel_start :: "'p PeerMap \<Rightarrow> ('c, 'n, 'p) tunnel_run" where
  "tunnel_start pm =
     \<lparr>tn_sigs = 0, tn_session = Open, tn_watch = Watching, tn_returned = False, tn_table = pm, tn_handle = Open,
      tn_streams = [], tn_loop = L_Range, tn_ch = [], tn_arrived = {#}, tn_served = {#}, tn_connected = {#},
      tn_closed = {#}, tn_fatal = None\<rparr>"

text \<open>
  \<open>peer\<close> is what \<^verbatim>\<open>p.Peer()\<close> returns, the number the session was registered under. The session
  may end, streams may arrive and the channel of streams may be closed at any time; \<open>Dial\<close> is what
  dialling the target gives this time.
\<close>

inductive tunnel_step ::
  "URL \<Rightarrow> u64 \<Rightarrow> ('c, 'n, 'p) tunnel_run \<Rightarrow> ('c, 'n, 'p) tunnel_run \<Rightarrow> bool" for u peer where
  signalled: "tn_fatal S = None \<Longrightarrow> tunnel_step u peer S (S\<lparr>tn_sigs := sigs_cap\<rparr>)"
| session_ends: "tn_fatal S = None \<Longrightarrow> tunnel_step u peer S (S\<lparr>tn_session := Closed\<rparr>)"
| watch_closed: "tn_fatal S = None \<Longrightarrow> tn_watch S = Watching \<Longrightarrow> tn_session S = Closed \<Longrightarrow>
    tunnel_step u peer S (S\<lparr>tn_watch := Sending\<rparr>)"
| watch_sends: "tn_fatal S = None \<Longrightarrow> tn_watch S = Sending \<Longrightarrow> tn_sigs S < sigs_cap \<Longrightarrow>
    tunnel_step u peer S (S\<lparr>tn_watch := Sent, tn_sigs := Suc (tn_sigs S)\<rparr>)"
| main_returns: "tn_fatal S = None \<Longrightarrow> \<not> tn_returned S \<Longrightarrow> tn_sigs S = Suc n \<Longrightarrow>
    tunnel_step u peer S (S\<lparr>tn_returned := True, tn_sigs := n, tn_session := Closed, tn_table := snd (PM_Remove (tn_table S) peer)\<rparr>)"
| stream_arrives: "tn_fatal S = None \<Longrightarrow> tn_handle S = Open \<Longrightarrow>
    tunnel_step u peer S (S\<lparr>tn_streams := tn_streams S @ [(l, c)], tn_arrived := add_mset c (tn_arrived S)\<rparr>)"
| handle_closed: "tn_fatal S = None \<Longrightarrow> tunnel_step u peer S (S\<lparr>tn_handle := Closed\<rparr>)"
| loop_closes: "tn_fatal S = None \<Longrightarrow> tn_loop S = L_Range \<Longrightarrow> tn_streams S = (l, c) # ss \<Longrightarrow>
    handle_stream (Dial :: string \<Rightarrow> error + 'n) u l = CloseStream \<Longrightarrow>
    tunnel_step u peer S (S\<lparr>tn_streams := ss, tn_closed := add_mset c (tn_closed S)\<rparr>)"
| loop_connects: "tn_fatal S = None \<Longrightarrow> tn_loop S = L_Range \<Longrightarrow> tn_streams S = (l, c) # ss \<Longrightarrow>
    handle_stream Dial u l = ConnectTo n \<Longrightarrow>
    tunnel_step u peer S (S\<lparr>tn_streams := ss, tn_connected := add_mset (c, n) (tn_connected S)\<rparr>)"
| loop_http: "tn_fatal S = None \<Longrightarrow> tn_loop S = L_Range \<Longrightarrow> tn_streams S = (l, c) # ss \<Longrightarrow>
    handle_stream (Dial :: string \<Rightarrow> error + 'n) u l = ServeHTTP \<Longrightarrow> tunnel_step u peer S (S\<lparr>tn_streams := ss, tn_loop := L_Offer c\<rparr>)"
| loop_fatal: "tn_fatal S = None \<Longrightarrow> tn_loop S = L_Range \<Longrightarrow> tn_streams S = (l, c) # ss \<Longrightarrow>
    handle_stream (Dial :: string \<Rightarrow> error + 'n) u l = Exit \<Longrightarrow>
    tunnel_step u peer S (S\<lparr>tn_fatal := Some ''received alpn proposal for multiplexer on forward target''\<rparr>)"
| loop_offers: "tn_fatal S = None \<Longrightarrow> tn_loop S = L_Offer c \<Longrightarrow> length (tn_ch S) < accepter_cap \<Longrightarrow>
    tunnel_step u peer S (S\<lparr>tn_loop := L_Range, tn_ch := tn_ch S @ [c]\<rparr>)"
| loop_ends: "tn_fatal S = None \<Longrightarrow> tn_loop S = L_Range \<Longrightarrow> tn_streams S = [] \<Longrightarrow> tn_handle S = Closed \<Longrightarrow>
    tunnel_step u peer S (S\<lparr>tn_loop := L_Done\<rparr>)"
| http_accepts: "tn_fatal S = None \<Longrightarrow> tn_ch S = c # cs \<Longrightarrow> client_Accept (Some c) = Inr d \<Longrightarrow>
    tunnel_step u peer S (S\<lparr>tn_ch := cs, tn_served := add_mset d (tn_served S)\<rparr>)"

section \<open>The goroutines of \<^verbatim>\<open>Connect\<close>\<close>

text \<open>The two copies, what they send, and the wait of the main goroutine; steps carry what happened.\<close>

datatype copy_pc = Copying | Failed | Ended

record connect_run =
  cn_sigs :: nat
  cn_out :: copy_pc
  cn_in :: copy_pc
  cn_returned :: bool

datatype connect_event = C_Signal | C_Out "error option" | C_In "error option" | C_SendOut | C_SendIn | C_Return

definition connect_start :: connect_run where
  "connect_start = \<lparr>cn_sigs = 0, cn_out = Copying, cn_in = Copying, cn_returned = False\<rparr>"

definition after_copy :: "error option \<Rightarrow> copy_pc" where
  "after_copy err = (if copy_signals err then Failed else Ended)"

inductive connect_cmd_step :: "connect_event \<Rightarrow> connect_run \<Rightarrow> connect_run \<Rightarrow> bool" where
  cn_signalled: "connect_cmd_step C_Signal S (S\<lparr>cn_sigs := sigs_cap\<rparr>)"
| out_copied: "cn_out S = Copying \<Longrightarrow> connect_cmd_step (C_Out err) S (S\<lparr>cn_out := after_copy err\<rparr>)"
| in_copied: "cn_in S = Copying \<Longrightarrow> connect_cmd_step (C_In err) S (S\<lparr>cn_in := after_copy err\<rparr>)"
| out_sends: "cn_out S = Failed \<Longrightarrow> cn_sigs S < sigs_cap \<Longrightarrow>
    connect_cmd_step C_SendOut S (S\<lparr>cn_out := Ended, cn_sigs := Suc (cn_sigs S)\<rparr>)"
| in_sends: "cn_in S = Failed \<Longrightarrow> cn_sigs S < sigs_cap \<Longrightarrow>
    connect_cmd_step C_SendIn S (S\<lparr>cn_in := Ended, cn_sigs := Suc (cn_sigs S)\<rparr>)"
| cn_returns: "\<not> cn_returned S \<Longrightarrow> cn_sigs S = Suc n \<Longrightarrow>
    connect_cmd_step C_Return S (S\<lparr>cn_returned := True, cn_sigs := n\<rparr>)"

inductive connect_reaches :: "connect_event list \<Rightarrow> connect_run \<Rightarrow> bool" where
  cn_start: "connect_reaches [] connect_start"
| cn_more: "connect_reaches evs S \<Longrightarrow> connect_cmd_step ev S T \<Longrightarrow> connect_reaches (evs @ [ev]) T"

section \<open>The goroutines of \<^verbatim>\<open>Forward\<close>\<close>

text \<open>
  The goroutine that waits for a signal closes the listener, after which \<^verbatim>\<open>Accept\<close> fails; it may
  fail at any other time. The loop has no other end than that failure.
\<close>

record ('c, 'n) forward_run =
  fw_sigs :: nat
  fw_waiting :: bool
  fw_listener :: lifecycle
  fw_cancelled :: bool
  fw_connected :: "('c \<times> 'n) multiset"
  fw_closed :: "'c multiset"
  fw_fatal :: "string option"

definition forward_start :: "('c, 'n) forward_run" where
  "forward_start =
     \<lparr>fw_sigs = 0, fw_waiting = True, fw_listener = Open, fw_cancelled = False, fw_connected = {#}, fw_closed = {#}, fw_fatal = None\<rparr>"

inductive forward_step :: "bool \<Rightarrow> URL \<Rightarrow> ('c, 'n) forward_run \<Rightarrow> ('c, 'n) forward_run \<Rightarrow> bool" for debug u where
  fw_signalled: "fw_fatal S = None \<Longrightarrow> forward_step debug u S (S\<lparr>fw_sigs := sigs_cap\<rparr>)"
| fw_closes: "fw_fatal S = None \<Longrightarrow> fw_waiting S \<Longrightarrow> fw_sigs S = Suc n \<Longrightarrow>
    forward_step debug u S (S\<lparr>fw_waiting := False, fw_sigs := n, fw_listener := Closed, fw_cancelled := True\<rparr>)"
| fw_accepts_closing: "fw_fatal S = None \<Longrightarrow> fw_listener S = Open \<Longrightarrow> forward_conn (Dial :: _ \<Rightarrow> error + 'n) debug u = CloseStream \<Longrightarrow>
    forward_step debug u S (S\<lparr>fw_closed := add_mset c (fw_closed S)\<rparr>)"
| fw_accepts: "fw_fatal S = None \<Longrightarrow> fw_listener S = Open \<Longrightarrow> forward_conn Dial debug u = ConnectTo n \<Longrightarrow>
    forward_step debug u S (S\<lparr>fw_connected := add_mset (c, n) (fw_connected S)\<rparr>)"
| fw_accept_fails: "fw_fatal S = None \<Longrightarrow> forward_step debug u S (S\<lparr>fw_fatal := Some ''accepting tcp connections''\<rparr>)"

section \<open>Invariants\<close>

fun held_stream :: "'c loop_pc \<Rightarrow> 'c multiset" where
  "held_stream (L_Offer c) = {#c#}"
| "held_stream L_Range = {#}"
| "held_stream L_Done = {#}"

definition conserved :: "('c, 'n, 'p) tunnel_run \<Rightarrow> bool" where
  "conserved S =
     (tn_arrived S = mset (map snd (tn_streams S)) + held_stream (tn_loop S) + mset (tn_ch S) + tn_served S +
        image_mset fst (tn_connected S) + tn_closed S)"

text \<open>Streams go to the HTTP server or to connections, according to the scheme of the target.\<close>

definition by_scheme :: "URL \<Rightarrow> ('c, 'n, 'p) tunnel_run \<Rightarrow> bool" where
  "by_scheme u S =
     (if url_Scheme u = ''tcp'' then held_stream (tn_loop S) = {#} \<and> tn_ch S = [] \<and> tn_served S = {#}
      else tn_connected S = {#})"

definition exit_inv :: "u64 \<Rightarrow> 'p \<Rightarrow> ('c, 'n, 'p) tunnel_run \<Rightarrow> bool" where
  "exit_inv peer p S =
     (tn_sigs S \<le> sigs_cap \<and>
      (tn_watch S = Sent \<and> \<not> tn_returned S \<longrightarrow> 0 < tn_sigs S) \<and>
      (tn_watch S \<noteq> Watching \<or> tn_returned S \<longrightarrow> tn_session S = Closed) \<and>
      pm_inv (tn_table S) \<and> pm_peers (tn_table S) = (if tn_returned S then Map.empty else [peer \<mapsto> p]))"

definition tn_inv :: "URL \<Rightarrow> u64 \<Rightarrow> 'p \<Rightarrow> ('c, 'n, 'p) tunnel_run \<Rightarrow> bool" where
  "tn_inv u peer p S =
     (tn_fatal S = None \<and> length (tn_ch S) \<le> accepter_cap \<and>
      conserved S \<and> by_scheme u S \<and> exit_inv peer p S)"

text \<open>The steps that the end of the session still has to cause.\<close>

definition exit_left :: "('c, 'n, 'p) tunnel_run \<Rightarrow> nat" where
  "exit_left S = (case tn_watch S of Watching \<Rightarrow> 2 | Sending \<Rightarrow> 1 | Sent \<Rightarrow> 0) + (if tn_returned S then 0 else 1)"

section \<open>Lemmas\<close>

lemma handle_stream_scheme:
  "handle_stream Dial u l \<noteq> Exit"
  "handle_stream Dial u l = ServeHTTP \<Longrightarrow> url_Scheme u \<noteq> ''tcp''"
  "handle_stream Dial u l = ConnectTo n \<Longrightarrow> url_Scheme u = ''tcp''"
  by (auto simp: handle_stream_def alpnCheck_def split: sum.splits if_splits)

lemma conserved_step: "tunnel_step u peer S T \<Longrightarrow> conserved S \<Longrightarrow> conserved T"
  by (induction rule: tunnel_step.induct) (simp_all add: conserved_def client_Accept_def)

lemma by_scheme_step: "tunnel_step u peer S T \<Longrightarrow> by_scheme u S \<Longrightarrow> by_scheme u T"
  by (induction rule: tunnel_step.induct)
    (auto simp: by_scheme_def split: if_splits dest: handle_stream_scheme(2,3))

lemma exit_inv_step: "tunnel_step u peer S T \<Longrightarrow> exit_inv peer p S \<Longrightarrow> exit_inv peer p T"
proof (induction rule: tunnel_step.induct)
  case (main_returns S n)
  then have "pm_inv (snd (PM_Remove (tn_table S) peer))"
    by (auto simp: exit_inv_def intro!: pm_inv_Remove)
  moreover have "pm_peers (snd (PM_Remove (tn_table S) peer)) = Map.empty"
    using main_returns by (simp add: exit_inv_def PM_Remove_def PM_Count_def)
  ultimately show ?case
    using main_returns by (simp add: exit_inv_def)
qed (auto simp: exit_inv_def sigs_cap_def)

lemma tn_inv_step:
  assumes step: "tunnel_step u peer S T" and inv: "tn_inv u peer p S"
  shows "tn_inv u peer p T"
proof -
  from step inv have "tn_fatal T = None \<and> length (tn_ch T) \<le> accepter_cap"
    by (induction rule: tunnel_step.induct) (auto simp: tn_inv_def handle_stream_scheme(1))
  then show ?thesis
    using inv conserved_step [OF step] by_scheme_step [OF step] exit_inv_step [OF step] by (auto simp: tn_inv_def)
qed

interpretation tunnel_runs: step_invariant "tunnel_step u peer" "tn_inv u peer p"
  by unfold_locales (rule tn_inv_step)

lemma tunnel_start_inv:
  assumes "Tunnel te Read Write opts = Some (Running (u, link, hostname, hostHeader, p, pm))"
  shows "tn_inv u (Destination link) p (tunnel_start pm)"
  using Tunnel_sound [OF assms]
  by (auto simp: tn_inv_def tunnel_start_def conserved_def by_scheme_def exit_inv_def accepter_cap_def pm_inv_def)

lemma exit_left_mono: "tunnel_step u peer S T \<Longrightarrow> exit_left T \<le> exit_left S"
  by (induction rule: tunnel_step.induct) (simp_all add: exit_left_def)

lemma exit_left_progress:
  assumes "exit_inv peer p S" and "tn_fatal S = None" and "tn_session S = Closed" and "\<not> tn_returned S"
  shows "\<exists>T. tunnel_step u peer S T \<and> exit_left T < exit_left S"
proof (cases "tn_sigs S")
  case (Suc n)
  from main_returns [OF assms(2,4) this, of u peer] show ?thesis
    using assms(4) by - (intro exI conjI, assumption, simp add: exit_left_def)
next
  case 0
  show ?thesis
  proof (cases "tn_watch S")
    case Watching
    from watch_closed [OF assms(2) this assms(3), of u peer] show ?thesis
      using Watching by - (intro exI conjI, assumption, simp add: exit_left_def)
  next
    case Sending
    from watch_sends [OF assms(2) this, of u peer] show ?thesis
      using Sending 0 by - (intro exI conjI, auto simp: exit_left_def sigs_cap_def)
  next
    case Sent
    with assms 0 show ?thesis
      by (simp add: exit_inv_def)
  qed
qed

lemma after_copy_simps [simp]: "after_copy err = Failed \<longleftrightarrow> (\<exists>e. err = Some e)" "after_copy (Some e) = Failed"
  by (auto simp: after_copy_def copy_signals_def)

text \<open>Before a signal or a failed copy nothing makes \<^verbatim>\<open>Connect\<close> return.\<close>

lemma connect_quiet:
  assumes "connect_reaches evs S" and "C_Signal \<notin> set evs" and "\<forall>err. C_Out (Some err) \<notin> set evs \<and> C_In (Some err) \<notin> set evs"
  shows "cn_sigs S = 0 \<and> \<not> cn_returned S \<and> cn_out S \<noteq> Failed \<and> cn_in S \<noteq> Failed"
  using assms
proof (induction rule: connect_reaches.induct)
  case (cn_more evs S ev T)
  then have "cn_sigs S = 0 \<and> \<not> cn_returned S \<and> cn_out S \<noteq> Failed \<and> cn_in S \<noteq> Failed"
    by simp
  with cn_more.hyps(2) cn_more.prems show ?case
    by (cases rule: connect_cmd_step.cases) (auto, (metis option.exhaust)+)
qed (simp add: connect_start_def)

text \<open>After a failed copy the program returns: one of the remaining steps is always possible until then.\<close>

lemma connect_failure_returns:
  assumes "connect_reaches evs S" and "C_Out (Some err) \<in> set evs \<or> C_In (Some err) \<in> set evs" and "\<not> cn_returned S"
  shows "\<exists>ev T. ev \<in> {C_SendOut, C_SendIn, C_Return} \<and> connect_cmd_step ev S T"
proof -
  have "cn_out S = Failed \<or> cn_in S = Failed \<or> 0 < cn_sigs S"
    using assms
  proof (induction rule: connect_reaches.induct)
    case (cn_more evs S ev T)
    from cn_more.hyps(2) cn_more.prems cn_more.IH show ?case
      by (cases rule: connect_cmd_step.cases) (auto simp: sigs_cap_def)
  qed simp
  then consider "cn_out S = Failed" "cn_sigs S = 0" | "cn_in S = Failed" "cn_sigs S = 0" | n where "cn_sigs S = Suc n"
    by (cases "cn_sigs S") auto
  then show ?thesis
  proof cases
    case 1
    then show ?thesis using out_sends [of S] by (auto simp: sigs_cap_def)
  next
    case 2
    then show ?thesis using in_sends [of S] by (auto simp: sigs_cap_def)
  next
    case 3
    then show ?thesis using cn_returns [OF assms(3)] by blast
  qed
qed

text \<open>Once its listener is closed, \<^verbatim>\<open>Forward\<close> takes no connection any more and can only end the process with an error.\<close>

lemma forward_after_close:
  assumes "(forward_step debug u)\<^sup>*\<^sup>* S T" and "fw_listener S = Closed" and "fw_fatal S = None"
  shows "fw_listener T = Closed \<and> fw_connected T = fw_connected S \<and> fw_closed T = fw_closed S \<and>
    fw_fatal T \<in> {None, Some ''accepting tcp connections''}"
  using assms
proof (induction rule: rtranclp_induct)
  case (step T U)
  from step.hyps(2) step.IH step.prems show ?case
    by (cases rule: forward_step.cases) auto
qed simp

lemma Tunnel_header:
  assumes "Tunnel te Read Write opts = Some (Running (u, link, hostname, hostHeader, p, pm))"
  shows "te_Parse te (to_Forward opts) = Inr u \<and>
    (if to_Overwrite opts then \<exists>t. te_Parse te hostname = Inr t \<and> hostHeader = url_Host t else hostHeader = url_Host u)"
  using assms
  by (auto simp: Tunnel_def Let_def split: sum.splits if_splits option.splits exit.splits prod.splits list.splits)

lemma singleJoiningSlash_joins:
  obtains a' b' where "singleJoiningSlash a b = a' @ ''/'' @ b'" and "a = a' \<or> a = a' @ ''/''" and "b = b' \<or> b = ''/'' @ b'"
proof -
  define a' where "a' = TrimSuffix a ''/''"
  define b' where "b' = (if b \<noteq> [] \<and> hd b = CHR ''/'' then tl b else b)"
  have "a = (if HasSuffix a ''/'' then a' @ ''/'' else a')"
    by (auto simp: a'_def TrimSuffix_def HasSuffix_iff)
  moreover have "b = (if b \<noteq> [] \<and> hd b = CHR ''/'' then ''/'' @ b' else b')"
    by (cases b) (auto simp: b'_def)
  ultimately show ?thesis
    by (intro that [of a' b']) (auto simp: singleJoiningSlash_def Let_def split: if_splits)
qed

section \<open>Properties\<close>

text \<open>C14: a running tunnel loses no stream and does not fall over. From the state that \<^verbatim>\<open>Tunnel\<close>
leaves to its goroutines on, whatever arrives: the process is not ended by the loop over the
streams; every stream that arrived is waiting, in the hands of the loop, queued for the HTTP
server, served, connected or closed, each exactly once; the queue holds at most 32; with a TCP
target nothing reaches the HTTP server, with any other nothing is connected directly; and when
\<^verbatim>\<open>Tunnel\<close> has returned, its table of sessions is empty.\<close>

theorem tunnel_run_safe:
  assumes run: "Tunnel te Read Write opts = Some (Running (u, link, hostname, hostHeader, p, pm))"
    and steps: "(tunnel_step u (Destination link))\<^sup>*\<^sup>* (tunnel_start pm) S"
  shows "tn_fatal S = None \<and>
    tn_arrived S = mset (map snd (tn_streams S)) + held_stream (tn_loop S) + mset (tn_ch S) + tn_served S +
      image_mset fst (tn_connected S) + tn_closed S \<and>
    length (tn_ch S) \<le> 32 \<and>
    (if url_Scheme u = ''tcp'' then tn_ch S = [] \<and> tn_served S = {#} else tn_connected S = {#}) \<and>
    (tn_returned S \<longrightarrow> PM_Len (tn_table S) = 0)"
proof -
  have "tn_inv u (Destination link) p S"
    using steps tunnel_start_inv [OF run] by (rule tunnel_runs.run_keeps)
  then show ?thesis
    by (auto simp: tn_inv_def conserved_def by_scheme_def exit_inv_def accepter_cap_def PM_Len_def pm_inv_def)
qed

lemma tunnel_run_safe_witness:
  "\<exists>(u :: URL) (link :: Link) pm (S :: (unit, string, nat) tunnel_run). (tunnel_step u (Destination link))\<^sup>*\<^sup>* (tunnel_start pm) S \<and> url_Scheme u = ''tcp'' \<and>
     tn_connected S = {#((), ''h:22'')#} \<and> tn_arrived S = {#()#} \<and> tn_ch S = [] \<and> tn_served S = {#}"
proof -
  let ?u = "\<lparr>url_Scheme = ''tcp'', url_Host = ''h:22''\<rparr>"
  let ?l = "\<lparr>Source = 3, Destination = 7, Protocol = Yamux, ALPN = ALPN_Multiplexer\<rparr> :: Link"
  let ?s = "\<lparr>Source = 9, Destination = 3, Protocol = Yamux, ALPN = ALPN_Raw\<rparr> :: Link"
  obtain p pm where run: "Tunnel plain_tunnel duplex_Read duplex_Write (plain_opts 1) =
      Some (Running (?u, ?l, ''https://a-b.x.y'', ''h:22'', p, pm))"
    using plain_tunnel_runs by blast
  have "handle_stream Inr ?u ?s = ConnectTo (URL_Hostname ?u @ '':'' @ URL_Port ?u)"
    by (simp add: handle_stream_def alpnCheck_def)
  moreover have "URL_Hostname ?u = ''h''" "URL_Port ?u = ''22''"
    by code_simp+
  ultimately have h: "handle_stream Inr ?u ?s = ConnectTo ''h:22''"
    by simp
  let ?S0 = "tunnel_start pm :: (unit, string, nat) tunnel_run"
  let ?S1 = "?S0\<lparr>tn_streams := tn_streams ?S0 @ [(?s, ())], tn_arrived := add_mset () (tn_arrived ?S0)\<rparr>"
  let ?S2 = "?S1\<lparr>tn_streams := [], tn_connected := add_mset ((), ''h:22'') (tn_connected ?S1)\<rparr>"
  have "tunnel_step ?u (Destination ?l) ?S0 ?S1"
    by (rule stream_arrives) (simp_all add: tunnel_start_def)
  moreover have "tunnel_step ?u (Destination ?l) ?S1 ?S2"
    by (rule loop_connects [OF _ _ _ h]) (simp_all add: tunnel_start_def)
  ultimately have "(tunnel_step ?u (Destination ?l))\<^sup>*\<^sup>* ?S0 ?S2"
    by (meson converse_rtranclp_into_rtranclp rtranclp.rtrancl_refl)
  moreover define S where "S = ?S2"
  ultimately have reach: "(tunnel_step ?u (Destination ?l))\<^sup>*\<^sup>* ?S0 S"
    by (simp only:)
  moreover have "url_Scheme ?u = ''tcp''" "tn_connected S = {#((), ''h:22'')#}" "tn_arrived S = {#()#}"
    by (simp_all add: S_def tunnel_start_def)
  moreover have "tn_ch S = [] \<and> tn_served S = {#}"
    using tunnel_run_safe [OF run reach] by simp
  ultimately show ?thesis
    by - (rule exI [of _ ?u], rule exI [of _ ?l], rule exI [of _ pm], rule exI [of _ S], simp)
qed

text \<open>C15: the end of the session ends the program. In every state that the goroutines can reach
and in which the session is closed, as long as \<^verbatim>\<open>Tunnel\<close> has not returned, one of the three steps
that lead there (the watcher sees it, the watcher sends a signal, the main goroutine receives
one) is possible and lowers the number of those steps, and no other step raises it.\<close>

theorem tunnel_ends:
  assumes run: "Tunnel te Read Write opts = Some (Running (u, link, hostname, hostHeader, p, pm))"
    and steps: "(tunnel_step u (Destination link))\<^sup>*\<^sup>* (tunnel_start pm) S" and closed: "tn_session S = Closed"
  shows "exit_left S \<le> 3 \<and>
    (\<not> tn_returned S \<longrightarrow> (\<exists>T. tunnel_step u (Destination link) S T \<and> exit_left T < exit_left S)) \<and>
    (\<forall>T. tunnel_step u (Destination link) S T \<longrightarrow> exit_left T \<le> exit_left S \<and> tn_session T = Closed)"
proof -
  have inv: "tn_inv u (Destination link) p S"
    using steps tunnel_start_inv [OF run] by (rule tunnel_runs.run_keeps)
  have "tunnel_step u (Destination link) S T \<Longrightarrow> tn_session T = Closed" for T
    using closed by (auto elim: tunnel_step.cases)
  with inv closed show ?thesis
    using exit_left_progress [of "Destination link" p S u] exit_left_mono [of u "Destination link" S]
    by (auto simp: tn_inv_def exit_left_def split: watch_pc.splits)
qed

lemma tunnel_ends_witness:
  "\<exists>(u :: URL) (link :: Link) pm (S :: (unit, string, nat) tunnel_run) T. (tunnel_step u (Destination link))\<^sup>*\<^sup>* (tunnel_start pm) S \<and>
     tn_session S = Closed \<and> \<not> tn_returned S \<and> tunnel_step u (Destination link) S T \<and> exit_left T < exit_left S"
proof -
  let ?u = "\<lparr>url_Scheme = ''tcp'', url_Host = ''h:22''\<rparr>"
  let ?l = "\<lparr>Source = 3, Destination = 7, Protocol = Yamux, ALPN = ALPN_Multiplexer\<rparr> :: Link"
  obtain p pm where run: "Tunnel plain_tunnel duplex_Read duplex_Write (plain_opts 1) =
      Some (Running (?u, ?l, ''https://a-b.x.y'', ''h:22'', p, pm))"
    using plain_tunnel_runs by blast
  let ?start = "tunnel_start pm :: (unit, string, nat) tunnel_run"
  let ?T = "?start\<lparr>tn_session := Closed\<rparr>"
  have step: "(tunnel_step ?u (Destination ?l))\<^sup>*\<^sup>* ?start ?T"
    by (rule r_into_rtranclp, rule session_ends) (simp add: tunnel_start_def)
  have closed: "tn_session ?T = Closed" and "\<not> tn_returned ?T"
    by (simp_all add: tunnel_start_def)
  with tunnel_ends [OF run step closed] step show ?thesis
    by blast
qed

text \<open>\<^verbatim>\<open>connect\<close> outlives its connection. Unless a signal arrives or a copy fails, the program does
not return; in particular, once both copies have come to their ends without an error, as they do
when the gateway closes the connection and the input ends, nothing but a signal can happen any
more.\<close>

lemma connect_outlives_copies:
  assumes "connect_reaches evs S" and "C_Signal \<notin> set evs" and "\<forall>err. C_Out (Some err) \<notin> set evs \<and> C_In (Some err) \<notin> set evs"
  shows "\<not> cn_returned S \<and>
    (cn_out S = Ended \<and> cn_in S = Ended \<longrightarrow> (\<forall>ev T. connect_cmd_step ev S T \<longrightarrow> ev = C_Signal))"
  using connect_quiet [OF assms] by (auto elim: connect_cmd_step.cases)

lemma connect_outlives_copies_witness:
  "\<exists>S. connect_reaches [C_Out None, C_In None] S \<and> cn_out S = Ended \<and> cn_in S = Ended \<and> \<not> cn_returned S \<and>
     (\<forall>ev T. connect_cmd_step ev S T \<longrightarrow> ev = C_Signal)"
proof -
  let ?S1 = "connect_start\<lparr>cn_out := after_copy None\<rparr>"
  let ?S2 = "?S1\<lparr>cn_in := after_copy None\<rparr>"
  have "connect_cmd_step (C_Out None) connect_start ?S1"
    by (rule out_copied) (simp add: connect_start_def)
  from cn_more [OF cn_start this] have "connect_reaches [C_Out None] ?S1"
    by simp
  moreover have "connect_cmd_step (C_In None) ?S1 ?S2"
    by (rule in_copied) (simp add: connect_start_def)
  ultimately have reach: "connect_reaches [C_Out None, C_In None] ?S2"
    using cn_more by fastforce
  have "cn_out ?S2 = Ended" "cn_in ?S2 = Ended"
    by (simp_all add: after_copy_def copy_signals_def)
  with connect_outlives_copies [OF reach] reach show ?thesis
    by auto
qed

text \<open>What the target of an HTTP tunnel gets to see. A request that the proxy of a running tunnel
forwards goes to the scheme and host of the target; its path is the target's and the
visitor's joined by one slash, its query both, joined by an ampersand unless one is empty; it
carries the target's host as its Host header or, with \<^verbatim>\<open>-overwrite\<close>, the host of the tunnel's
address; and of its other headers only a missing User-Agent is filled in, with an empty value.\<close>

lemma proxied_request:
  assumes run: "Tunnel te Read Write opts = Some (Running (u, link, hostname, hostHeader, p, pm))"
    and target: "URL.truncate target = u" and r': "tunnel_Director target hostHeader r = r'"
  shows "url_Scheme (req_URL r') = url_Scheme u \<and> url_Host (req_URL r') = url_Host u \<and>
    (if to_Overwrite opts then \<exists>t. te_Parse te hostname = Inr t \<and> req_Host r' = url_Host t else req_Host r' = url_Host u) \<and>
    (\<exists>a b. url_Path (req_URL r') = a @ ''/'' @ b \<and> url_Path target \<in> {a, a @ ''/''} \<and> url_Path (req_URL r) \<in> {b, ''/'' @ b}) \<and>
    url_RawQuery (req_URL r') =
      url_RawQuery target @ (if url_RawQuery target = '''' \<or> url_RawQuery (req_URL r) = '''' then '''' else ''&'') @
      url_RawQuery (req_URL r) \<and>
    (\<forall>k. req_Header r' k = (if k = ''User-Agent'' \<and> req_Header r k = None then Some [''''] else req_Header r k))"
proof -
  obtain a b where "singleJoiningSlash (url_Path target) (url_Path (req_URL r)) = a @ ''/'' @ b"
      "url_Path target \<in> {a, a @ ''/''}" "url_Path (req_URL r) \<in> {b, ''/'' @ b}"
    by (rule singleJoiningSlash_joins [of "url_Path target" "url_Path (req_URL r)"]) auto
  moreover have "url_Path (req_URL r') = singleJoiningSlash (url_Path target) (url_Path (req_URL r))"
    "url_Scheme (req_URL r') = url_Scheme target" "url_Host (req_URL r') = url_Host target" "req_Host r' = hostHeader"
    unfolding r' [symmetric] by (simp_all add: tunnel_Director_def single_host_director_def Let_def)
  moreover have "url_Scheme target = url_Scheme u" "url_Host target = url_Host u"
    unfolding target [symmetric] by (simp_all add: URL.truncate_def)
  moreover have "url_RawQuery (req_URL r') =
      url_RawQuery target @ (if url_RawQuery target = '''' \<or> url_RawQuery (req_URL r) = '''' then '''' else ''&'') @
      url_RawQuery (req_URL r)"
    unfolding r' [symmetric] by (simp add: tunnel_Director_def single_host_director_def Let_def)
  moreover have "req_Header r' k = (if k = ''User-Agent'' \<and> req_Header r k = None then Some [''''] else req_Header r k)" for k
    unfolding r' [symmetric] by (auto simp: tunnel_Director_def single_host_director_def Let_def)
  ultimately show ?thesis
    using Tunnel_header [OF run] by auto
qed

lemma proxied_request_witness:
  "\<exists>r'. tunnel_Director (URL.extend \<lparr>url_Scheme = ''tcp'', url_Host = ''h:22''\<rparr> (full_URL.fields ''/api/'' ''k=1'')) ''h:22''
       \<lparr>req_URL = URL.extend \<lparr>url_Scheme = '''', url_Host = ''''\<rparr> (full_URL.fields ''/v'' ''x''), req_Host = ''a-b.x.y'', req_Header = Map.empty\<rparr> = r' \<and>
     url_Host (req_URL r') = ''h:22'' \<and> req_Host r' = ''h:22'' \<and> req_Header r' ''User-Agent'' = Some ['''']"
proof -
  let ?u = "\<lparr>url_Scheme = ''tcp'', url_Host = ''h:22''\<rparr>"
  let ?l = "\<lparr>Source = 3, Destination = 7, Protocol = Yamux, ALPN = ALPN_Multiplexer\<rparr> :: Link"
  obtain p pm where run: "Tunnel plain_tunnel duplex_Read duplex_Write (plain_opts 1) =
      Some (Running (?u, ?l, ''https://a-b.x.y'', ''h:22'', p, pm))"
    using plain_tunnel_runs by blast
  have "URL.truncate (URL.extend ?u (full_URL.fields ''/api/'' ''k=1'')) = ?u"
    by (simp add: URL.defs full_URL.defs)
  from proxied_request [OF run this refl] show ?thesis
    by (auto simp: plain_opts_def)
qed

end
