(* ===== verification/Client_Cmd.thy ===== *)
theory Client_Cmd
  imports Client_Run
begin

text \<open>
  The client's command line (\<^verbatim>\<open>cmd/client/main.go\<close>): the declared flags, and how \<^verbatim>\<open>main\<close> turns
  them into the options of package \<^verbatim>\<open>client\<close>. Parsing is the work of the library
  \<^verbatim>\<open>urfave/cli\<close>: what it finds is an argument, and \<open>cli_documented\<close> says what its
  documentation promises of the context it hands to the actions.
\<close>

section \<open>Declarations\<close>

text \<open>The name, the aliases, the default and whether the flag is required; usage texts are left out.\<close>

datatype flag =
    StringFlag string "string list" string bool
  | BoolFlag string "string list" bool
  | IntFlag string "string list" int

record command =
  cmd_Name :: string
  cmd_Flags :: "flag list"

definition DefaultConnect :: string where
  "DefaultConnect = ''https://exhaust-timing-harmless-saved-startup.tunnel.example.com''"

definition global_flags :: "flag list" where
  "global_flags = [BoolFlag ''debug'' [] False]"

definition tunnel_command :: command where
  "tunnel_command =
     \<lparr>cmd_Name = ''tunnel'',
      cmd_Flags =
        [StringFlag ''where'' [''w''] ''tunnel.example.com'' True,
         StringFlag ''forward'' [''f''] ''http://127.0.0.1:3000'' False,
         BoolFlag ''overwrite'' [''o''] False,
         IntFlag ''protocol'' [''p''] (uint Mplex),
         BoolFlag ''concise'' [''c''] False]\<rparr>"

definition connect_command :: command where
  "connect_command = \<lparr>cmd_Name = ''connect'', cmd_Flags = [StringFlag ''url'' [''u''] DefaultConnect True]\<rparr>"

definition forward_command :: command where
  "forward_command =
     \<lparr>cmd_Name = ''forward'',
      cmd_Flags = [StringFlag ''url'' [''u''] DefaultConnect True, StringFlag ''listen'' [''l''] '':5678'' False]\<rparr>"

definition client_commands :: "command list" where
  "client_commands = [tunnel_command, connect_command, forward_command]"

section \<open>Actions\<close>

text \<open>The context of an action: the name of the program and the values of the flags.\<close>

record cli_ctx =
  app_Name :: string
  ctx_String :: "string \<Rightarrow> string"
  ctx_Int :: "string \<Rightarrow> int"
  ctx_Bool :: "string \<Rightarrow> bool"

definition tunnel_action :: "string \<Rightarrow> cli_ctx \<Rightarrow> TunnelOpts" where
  "tunnel_action Version c =
     \<lparr>to_AppName = app_Name c, to_Forward = ctx_String c ''forward'', to_Where = ctx_String c ''where'',
      to_Proto = ctx_Int c ''protocol'', to_Debug = ctx_Bool c ''debug'', to_Overwrite = ctx_Bool c ''overwrite'',
      to_Version = Version, to_Concise = ctx_Bool c ''concise''\<rparr>"

definition connect_action :: "cli_ctx \<Rightarrow> ConnectOpts" where
  "connect_action c = \<lparr>co_URL = ctx_String c ''url'', co_Debug = ctx_Bool c ''debug''\<rparr>"

definition forward_action :: "cli_ctx \<Rightarrow> ForwardOpts" where
  "forward_action c = \<lparr>fo_URL = ctx_String c ''url'', fo_Addr = ctx_String c ''listen'', fo_Debug = ctx_Bool c ''debug''\<rparr>"

text \<open>
  \<^verbatim>\<open>Before\<close>: the logger is built for development or production, writing to the standard error
  output; \<open>Build\<close> and \<open>Redirect\<close> are the errors of the logging library.
\<close>

record log_config =
  log_Development :: bool
  log_OutputPaths :: "string list"

definition client_Before :: "(log_config \<Rightarrow> error option) \<Rightarrow> error option \<Rightarrow> cli_ctx \<Rightarrow> error option" where
  "client_Before Build Redirect c =
     (let logCfg = \<lparr>log_Development = ctx_Bool c ''debug'', log_OutputPaths = [''stderr'']\<rparr> in
      case Build logCfg of Some err \<Rightarrow> Some err | None \<Rightarrow> Redirect)"

text \<open>\<^verbatim>\<open>after\<close>, which runs when an action has returned: the log is no longer redirected, and a second passes.\<close>

datatype after_step = UndoRedirect | Sleep nat

definition client_after :: "after_step list" where
  "client_after = [UndoRedirect, Sleep second]"

datatype client_call = CallTunnel TunnelOpts | CallConnect ConnectOpts | CallForward ForwardOpts | NoCall

text \<open>
  \<^verbatim>\<open>main\<close>: \<open>globals\<close> is the outcome of parsing the options of the program, \<open>selected\<close> that of the
  command and its options. The result is the call that is made, or the error that is printed.
\<close>

definition client_main ::
  "string \<Rightarrow> (log_config \<Rightarrow> error option) \<Rightarrow> error option \<Rightarrow> error + cli_ctx \<Rightarrow> error + string \<times> cli_ctx \<Rightarrow> error + client_call" where
  "client_main Version Build Redirect globals selected =
     (case globals of
        Inl err \<Rightarrow> Inl err
      | Inr c \<Rightarrow>
        (case client_Before Build Redirect c of
           Some err \<Rightarrow> Inl err
         | None \<Rightarrow>
           (case selected of
              Inl err \<Rightarrow> Inl err
            | Inr (name, c) \<Rightarrow>
              Inr (if name = cmd_Name tunnel_command then CallTunnel (tunnel_action Version c)
                   else if name = cmd_Name connect_command then CallConnect (connect_action c)
                   else if name = cmd_Name forward_command then CallForward (forward_action c)
                   else NoCall))))"

section \<open>What the library documents\<close>

text \<open>
  The options given on the command line, each under its name or an alias. A flag has the value
  given for it, else its default; a required flag was given; a flag of the program is seen by
  the commands.
\<close>

datatype given = GivenString string | GivenInt int | GivenBool bool

definition lookup_flag :: "(string \<times> given) list \<Rightarrow> string list \<Rightarrow> given option" where
  "lookup_flag opts names = map_option snd (find (\<lambda>(n, v). n \<in> set names) opts)"

definition flag_documented :: "(string \<times> given) list \<Rightarrow> cli_ctx \<Rightarrow> flag \<Rightarrow> bool" where
  "flag_documented opts c f =
     (case f of
        StringFlag name aliases v required \<Rightarrow>
          (case lookup_flag opts (name # aliases) of
             None \<Rightarrow> \<not> required \<and> ctx_String c name = v
           | Some (GivenString s) \<Rightarrow> ctx_String c name = s
           | _ \<Rightarrow> False)
      | IntFlag name aliases v \<Rightarrow>
          (case lookup_flag opts (name # aliases) of
             None \<Rightarrow> ctx_Int c name = v
           | Some (GivenInt i) \<Rightarrow> ctx_Int c name = i
           | _ \<Rightarrow> False)
      | BoolFlag name aliases v \<Rightarrow>
          (case lookup_flag opts (name # aliases) of
             None \<Rightarrow> ctx_Bool c name = v
           | Some (GivenBool b) \<Rightarrow> ctx_Bool c name = b
           | _ \<Rightarrow> False))"

definition cli_documented :: "command \<Rightarrow> (string \<times> given) list \<Rightarrow> cli_ctx \<Rightarrow> bool" where
  "cli_documented cmd opts c = list_all (flag_documented opts c) (global_flags @ cmd_Flags cmd)"

text \<open>A context for examples: the command \<^verbatim>\<open>tunnel -w x.y\<close>.\<close>

definition plain_ctx :: cli_ctx where
  "plain_ctx =
     \<lparr>app_Name = ''t'',
      ctx_String = (\<lambda>n. if n = ''where'' then ''x.y'' else ''http://127.0.0.1:3000''),
      ctx_Int = (\<lambda>n. uint Mplex), ctx_Bool = (\<lambda>n. False)\<rparr>"

section \<open>Lemmas\<close>

lemma debug_off:
  assumes "cli_documented cmd opts c" and "lookup_flag opts [''debug''] = None"
  shows "\<not> ctx_Bool c ''debug''"
  using assms by (simp add: cli_documented_def global_flags_def flag_documented_def)

text \<open>The options of \<^verbatim>\<open>tunnel\<close> with nothing but the host name of a server given.\<close>

lemma tunnel_defaults:
  assumes "cli_documented tunnel_command [(n, GivenString host)] c" and "n = ''where'' \<or> n = ''w''"
  shows "tunnel_action Version c =
    \<lparr>to_AppName = app_Name c, to_Forward = ''http://127.0.0.1:3000'', to_Where = host, to_Proto = 2, to_Debug = False,
     to_Overwrite = False, to_Version = Version, to_Concise = False\<rparr>"
  using assms
  by (auto simp: cli_documented_def global_flags_def tunnel_command_def flag_documented_def lookup_flag_def
      tunnel_action_def Mplex_def)

text \<open>Without \<^verbatim>\<open>-debug\<close> only answers to verified connections matter.\<close>

lemma discover_cong: "te_Get te debug = te_Get te' debug \<Longrightarrow> discover te debug wh = discover te' debug wh"
  by (simp add: discover_def)

lemma Tunnel_cong:
  assumes "te_Parse te = te_Parse te'" and "te_sessions te = te_sessions te'"
    and "te_Get te (to_Debug opts) = te_Get te' (to_Debug opts)"
    and "\<And>m. te_Dial te m (to_Debug opts) = te_Dial te' m (to_Debug opts)"
  shows "Tunnel te Read Write opts = Tunnel te' Read Write opts"
  unfolding Tunnel_def assms(1,2,4) discover_cong [OF assms(3)] ..

lemma client_main_debug:
  assumes "client_main Version Build Redirect globals (Inr (name, c)) = Inr call"
  shows "call = CallTunnel topts \<Longrightarrow> to_Debug topts = ctx_Bool c ''debug''"
    and "call = CallConnect copts \<Longrightarrow> co_Debug copts = ctx_Bool c ''debug''"
    and "call = CallForward fopts \<Longrightarrow> fo_Debug fopts = ctx_Bool c ''debug''"
  using assms
  by (auto simp: client_main_def tunnel_action_def connect_action_def forward_action_def split: sum.splits option.splits if_splits)

section \<open>Properties\<close>

text \<open>C16: without \<^verbatim>\<open>-debug\<close> nothing that an unverified server says has any influence. Whatever call
\<^verbatim>\<open>main\<close> makes for a command line that does not give that option: the outcome of \<^verbatim>\<open>Tunnel\<close> is the
same in two worlds that differ only in how requests and dials without verification of the
certificate end, and \<^verbatim>\<open>Connect\<close> and the connections of \<^verbatim>\<open>Forward\<close> dial with verification, proposing
the protocol \<^verbatim>\<open>raw\<close> only.\<close>

theorem client_verifies:
  assumes main: "client_main Version Build Redirect globals (Inr (name, c)) = Inr call"
    and doc: "cli_documented cmd opts c" and off: "lookup_flag opts [''debug''] = None"
    and "te_Parse te = te_Parse te'" and "te_sessions te = te_sessions te'"
    and "te_Get te False = te_Get te' False" and "\<forall>m. te_Dial te m False = te_Dial te' m False"
  shows "case call of
      CallTunnel topts \<Rightarrow> Tunnel te Read Write topts = Tunnel te' Read Write topts
    | CallConnect copts \<Rightarrow>
        client_Connect Parse Dial copts = client_Connect Parse (\<lambda>(addr, skip, protos). Dial (addr, False, [''raw''])) copts
    | CallForward fopts \<Rightarrow>
        forward_conn Dial (fo_Debug fopts) u = forward_conn (\<lambda>(addr, skip, protos). Dial (addr, False, [''raw''])) (fo_Debug fopts) u
    | NoCall \<Rightarrow> True"
proof -
  have debug: "\<not> ctx_Bool c ''debug''"
    using doc off by (rule debug_off)
  show ?thesis
  proof (cases call)
    case (CallTunnel topts)
    then have "\<not> to_Debug topts"
      using debug client_main_debug(1) [OF main] by blast
    then have "Tunnel te Read Write topts = Tunnel te' Read Write topts"
      using assms(4-7) by (intro Tunnel_cong) auto
    with CallTunnel show ?thesis
      by simp
  next
    case (CallConnect copts)
    then have "\<not> co_Debug copts"
      using debug client_main_debug(2) [OF main] by blast
    with CallConnect show ?thesis
      by (simp add: client_Connect_def getConn_def Let_def split: sum.split)
  next
    case (CallForward fopts)
    then have "\<not> fo_Debug fopts"
      using debug client_main_debug(3) [OF main] by blast
    with CallForward show ?thesis
      by (simp add: forward_conn_def getConn_def Let_def)
  qed simp
qed

lemma client_verifies_witness:
  "\<exists>topts. client_main ''dev'' (\<lambda>cfg. None) None (Inr plain_ctx) (Inr (''tunnel'', plain_ctx)) = Inr (CallTunnel topts) \<and>
     cli_documented tunnel_command [(''w'', GivenString ''x.y'')] plain_ctx \<and>
     Tunnel plain_tunnel duplex_Read duplex_Write topts =
       Tunnel (plain_tunnel\<lparr>te_Get := \<lambda>skip url. if skip then Inl (Errorf ''x'' []) else te_Get plain_tunnel skip url\<rparr>)
         duplex_Read duplex_Write topts"
proof -
  let ?te = "plain_tunnel\<lparr>te_Get := \<lambda>skip url. if skip then Inl (Errorf ''x'' []) else te_Get plain_tunnel skip url\<rparr>"
  have main: "client_main ''dev'' (\<lambda>cfg. None) None (Inr plain_ctx) (Inr (''tunnel'', plain_ctx)) =
      Inr (CallTunnel (tunnel_action ''dev'' plain_ctx))"
    by (simp add: client_main_def client_Before_def Let_def tunnel_command_def)
  have doc: "cli_documented tunnel_command [(''w'', GivenString ''x.y'')] plain_ctx"
    by (simp add: cli_documented_def global_flags_def tunnel_command_def flag_documented_def lookup_flag_def plain_ctx_def)
  have off: "lookup_flag [(''w'', GivenString ''x.y'')] [''debug''] = None"
    by (simp add: lookup_flag_def)
  have "case CallTunnel (tunnel_action ''dev'' plain_ctx) of
      CallTunnel topts \<Rightarrow> Tunnel plain_tunnel duplex_Read duplex_Write topts = Tunnel ?te duplex_Read duplex_Write topts
    | CallConnect copts \<Rightarrow> client_Connect (\<lambda>s. Inl (Errorf s [])) (\<lambda>a. Inr a) copts =
        client_Connect (\<lambda>s. Inl (Errorf s [])) (\<lambda>(addr, skip, protos). Inr (addr, False, [''raw''])) copts
    | CallForward fopts \<Rightarrow> forward_conn (\<lambda>a. Inr a) (fo_Debug fopts) \<lparr>url_Scheme = '''', url_Host = ''''\<rparr> =
        forward_conn (\<lambda>(addr, skip, protos). Inr (addr, False, [''raw''])) (fo_Debug fopts) \<lparr>url_Scheme = '''', url_Host = ''''\<rparr>
    | NoCall \<Rightarrow> True"
    by (rule client_verifies [OF main doc off]) simp_all
  with main doc show ?thesis
    by auto
qed

end
