(* ===== verification/System.thy ===== *)
theory System
  imports Cmd
begin

text \<open>
  The parts that talk to the operating system and to operators: socket options (package
  \<^verbatim>\<open>sock\<close>) and the listeners opened with them, the name servers on Android (package
  \<^verbatim>\<open>workaround\<close>), and the counters and the debugging endpoint (package \<^verbatim>\<open>profiler\<close>).
\<close>

section \<open>Socket options\<close>

text \<open>
  The builds by target: \<^verbatim>\<open>control.go\<close> is for every system not named otherwise. A socket is a map
  from options to values; \<open>refuse\<close> is the error with which the system answers an option.
\<close>

datatype target = Unix | BSD | Windows | Plan9 | Wasm

datatype level = SOL_SOCKET | IPPROTO_IP

datatype sockopt = SO_REUSEADDR | IP_PKTINFO | IP_RECVDSTADDR

type_synonym sock = "level \<times> sockopt \<rightharpoonup> int"

definition SetsockoptInt :: "(sockopt \<Rightarrow> error option) \<Rightarrow> sock \<Rightarrow> level \<Rightarrow> sockopt \<Rightarrow> int \<Rightarrow> error option \<times> sock" where
  "SetsockoptInt refuse fd l opt v =
     (case refuse opt of Some err \<Rightarrow> (Some err, fd) | None \<Rightarrow> (None, fd((l, opt) \<mapsto> v)))"

text \<open>\<^verbatim>\<open>RawConn.Control\<close> runs the function on the descriptor, or gives an error without running it.\<close>

definition RawConn_Control :: "error option \<Rightarrow> (sock \<Rightarrow> sock) \<Rightarrow> sock \<Rightarrow> error option \<times> sock" where
  "RawConn_Control err f fd = (case err of Some e \<Rightarrow> (Some e, fd) | None \<Rightarrow> (None, f fd))"

definition Control_unix :: "(sockopt \<Rightarrow> error option) \<Rightarrow> error option \<Rightarrow> sock \<Rightarrow> error option \<times> sock" where
  "Control_unix refuse err =
     RawConn_Control err (\<lambda>fd.
       let fd = snd (SetsockoptInt refuse fd SOL_SOCKET SO_REUSEADDR 1)
       in snd (SetsockoptInt refuse fd IPPROTO_IP IP_PKTINFO 1))"

definition Control_bsd :: "(sockopt \<Rightarrow> error option) \<Rightarrow> error option \<Rightarrow> sock \<Rightarrow> error option \<times> sock" where
  "Control_bsd refuse err =
     RawConn_Control err (\<lambda>fd.
       let fd = snd (SetsockoptInt refuse fd SOL_SOCKET SO_REUSEADDR 1)
       in snd (SetsockoptInt refuse fd IPPROTO_IP IP_RECVDSTADDR 1))"

definition Control_windows :: "(sockopt \<Rightarrow> error option) \<Rightarrow> error option \<Rightarrow> sock \<Rightarrow> error option \<times> sock" where
  "Control_windows refuse err =
     RawConn_Control err (\<lambda>fd.
       let fd = snd (SetsockoptInt refuse fd SOL_SOCKET SO_REUSEADDR 1)
       in snd (SetsockoptInt refuse fd IPPROTO_IP IP_PKTINFO 1))"

definition Control_plan9 :: "sock \<Rightarrow> error option \<times> sock" where
  "Control_plan9 fd = (None, fd)"

definition Control_wasm :: "sock \<Rightarrow> error option \<times> sock" where
  "Control_wasm fd = (None, fd)"

fun Control :: "target \<Rightarrow> (sockopt \<Rightarrow> error option) \<Rightarrow> error option \<Rightarrow> sock \<Rightarrow> error option \<times> sock" where
  "Control Unix refuse err fd = Control_unix refuse err fd"
| "Control BSD refuse err fd = Control_bsd refuse err fd"
| "Control Windows refuse err fd = Control_windows refuse err fd"
| "Control Plan9 refuse err fd = Control_plan9 fd"
| "Control Wasm refuse err fd = Control_wasm fd"

text \<open>
  \<^verbatim>\<open>ListenConfig.Listen\<close> and \<^verbatim>\<open>ListenPacket\<close> call the control function on the new socket before
  they bind it, which is \<open>Bind\<close>.
\<close>

definition listen_with ::
  "(sock \<Rightarrow> error option \<times> sock) \<Rightarrow> (sock \<Rightarrow> string \<Rightarrow> string \<Rightarrow> error + 'l) \<Rightarrow> string \<Rightarrow> string \<Rightarrow> error + 'l" where
  "listen_with control Bind network address =
     (case control Map.empty of
        (Some err, fd) \<Rightarrow> Inl err
      | (None, fd) \<Rightarrow> Bind fd network address)"

definition getReuseListener ::
  "target \<Rightarrow> (sockopt \<Rightarrow> error option) \<Rightarrow> error option \<Rightarrow> (sock \<Rightarrow> string \<Rightarrow> string \<Rightarrow> error + 'l) \<Rightarrow> string \<Rightarrow> string \<Rightarrow> error + 'l" where
  "getReuseListener os refuse err Bind network address = listen_with (Control os refuse err) Bind network address"

definition getReusePacketConn ::
  "target \<Rightarrow> (sockopt \<Rightarrow> error option) \<Rightarrow> error option \<Rightarrow> (sock \<Rightarrow> string \<Rightarrow> string \<Rightarrow> error + 'l) \<Rightarrow> string \<Rightarrow> string \<Rightarrow> error + 'l" where
  "getReusePacketConn os refuse err Bind network address = listen_with (Control os refuse err) Bind network address"

section \<open>The end of the server's \<^verbatim>\<open>main\<close>\<close>

text \<open>The goroutines that it starts, in order, before it waits for a signal, and what it has deferred.\<close>

datatype main_task = Task_Gossip | Task_Peers | Task_Clients | Task_Redirect | Task_Gateway | Task_Profiler | Task_ALPN

definition main_tasks :: "main_task list" where
  "main_tasks = [Task_Gossip, Task_Peers, Task_Clients, Task_Redirect, Task_Gateway, Task_Profiler, Task_ALPN]"

datatype deferred =
    Sync_Logger | Undo_Redirect | Sleep nat | Cancel_Context | Close_PeerQUIC | Close_ClientQUIC | Close_PeerTLS | Close_Gateway

definition main_deferred :: "deferred list" where
  "main_deferred =
     [Sync_Logger, Undo_Redirect, Sleep second, Cancel_Context, Close_PeerQUIC, Close_ClientQUIC, Close_PeerTLS, Close_Gateway]"

text \<open>Deferred calls run in the reverse order.\<close>

definition server_main_returns :: "deferred list" where
  "server_main_returns = rev main_deferred"

section \<open>Name servers on Android\<close>

text \<open>The copies of the resolver's structures; locks are left out and times are nanoseconds.\<close>

record dnsConfig =
  dns_servers :: "string list"
  dns_search :: "string list"
  dns_ndots :: int
  dns_timeout :: int
  dns_attempts :: int
  dns_rotate :: bool
  dns_unknownOpt :: bool
  dns_lookup :: "string list"
  dns_err :: "error option"
  dns_mtime :: int
  dns_soffset :: "32 word"

record resolverConfig =
  rc_lastChecked :: int
  rc_dnsConfig :: "dnsConfig option"

text \<open>\<open>tryUpdate\<close> is the resolver's own function, reached by its linker name.\<close>

definition setDefaultNS ::
  "(resolverConfig \<Rightarrow> resolverConfig) \<Rightarrow> int \<Rightarrow> string list \<Rightarrow> bool \<Rightarrow> resolverConfig \<Rightarrow> resolverConfig go" where
  "setDefaultNS tryUpdate now addrs loadFromSystem rc =
     (let rc = (if rc_dnsConfig rc = None then tryUpdate rc else rc);
          rc = (if loadFromSystem then rc\<lparr>rc_lastChecked := now - 6 * int second\<rparr> else rc) in
      case rc_dnsConfig rc of
        None \<Rightarrow> Panic NilDereference
      | Some c \<Rightarrow>
        (let c = (if loadFromSystem then c\<lparr>dns_mtime := now\<rparr> else c);
             c = c\<lparr>dns_servers := addrs\<rparr>
         in Ret (rc\<lparr>rc_dnsConfig := Some c\<rparr>)))"

definition SetDNSPair ::
  "(resolverConfig \<Rightarrow> resolverConfig) \<Rightarrow> int \<Rightarrow> string \<Rightarrow> string \<Rightarrow> bool \<Rightarrow> resolverConfig \<Rightarrow> resolverConfig go" where
  "SetDNSPair tryUpdate now primary secondary loadFromSystem rc =
     setDefaultNS tryUpdate now [primary, secondary] loadFromSystem rc"

definition workaround_init :: "(resolverConfig \<Rightarrow> resolverConfig) \<Rightarrow> int \<Rightarrow> resolverConfig \<Rightarrow> resolverConfig go" where
  "workaround_init tryUpdate now rc = SetDNSPair tryUpdate now ''1.1.1.1:53'' ''8.8.8.8:53'' False rc"

section \<open>Counters\<close>

text \<open>The vectors of counters with their labels, and the histogram, which has none.\<close>

record metric =
  m_Namespace :: string
  m_Subsystem :: string
  m_Name :: string
  m_labels :: "string list"

definition GatewayRequests :: metric where
  "GatewayRequests =
     \<lparr>m_Namespace = ''t'', m_Subsystem = ''server'', m_Name = ''gateway_requests_total'', m_labels = [''status'', ''type'']\<rparr>"

definition GatewayReqsType :: metric where
  "GatewayReqsType =
     \<lparr>m_Namespace = ''t'', m_Subsystem = ''server'', m_Name = ''gateway_tunnel_type'', m_labels = [''type'']\<rparr>"

definition ConnectionStats :: metric where
  "ConnectionStats =
     \<lparr>m_Namespace = ''t'', m_Subsystem = ''server'', m_Name = ''multiplexer_stats'', m_labels = [''desc'', ''type'']\<rparr>"

definition PeerLatencyHist :: metric where
  "PeerLatencyHist = \<lparr>m_Namespace = ''t'', m_Subsystem = ''server'', m_Name = ''peer_rtt_ms'', m_labels = []\<rparr>"

definition metrics_registered :: "metric list" where
  "metrics_registered = [GatewayRequests, GatewayReqsType, ConnectionStats, PeerLatencyHist]"

text \<open>
  What the gateway and the pipes count: a counter with the values of its labels, as passed to
  \<^verbatim>\<open>WithLabelValues\<close>, and the amount added.
\<close>

type_synonym count = "metric \<times> string list \<times> nat"

definition handshake_counts :: "error option \<Rightarrow> count list" where
  "handshake_counts err =
     (case err of
        Some e \<Rightarrow> [(GatewayRequests, [''error'', ''handshake''], 1)]
      | None \<Rightarrow> [(GatewayRequests, [''success'', ''handshake''], 1)])"

text \<open>\<open>err\<close> is the error of \<^verbatim>\<open>Forward\<close>, for raw connections.\<close>

definition handleConnection_counts :: "Gateway \<Rightarrow> tls_conn \<Rightarrow> error option \<Rightarrow> count list" where
  "handleConnection_counts g conn err =
     (if ServerName conn = RootDomain (gw_conf g) then []
      else if NegotiatedProtocol conn = ALPN_String ALPN_Unknown \<or> NegotiatedProtocol conn = ALPN_String ALPN_HTTP
      then [(GatewayReqsType, [''http''], 1)]
      else if NegotiatedProtocol conn = ALPN_String ALPN_Raw then
        (GatewayReqsType, [''raw''], 1) #
        (case err of
           None \<Rightarrow> []
         | Some e \<Rightarrow> if errors_Is e ErrDestinationNotFound then [(GatewayRequests, [''not_found'', ''forward''], 1)] else [])
      else if NegotiatedProtocol conn = ALPN_String ALPN_Multiplexer then [(GatewayReqsType, [''multiplexer''], 1)]
      else [(GatewayReqsType, [''error''], 1)])"

definition errorHandler_counts :: "error \<Rightarrow> count list" where
  "errorHandler_counts e =
     (if errors_Is e ErrDestinationNotFound then [(GatewayRequests, [''not_found'', ''forward''], 1)]
      else if IsTimeout e then [(GatewayRequests, [''timeout'', ''forward''], 1)]
      else if errors_Is e Canceled then []
      else [(GatewayRequests, [''error'', ''forward''], 1)])"

definition ModifyResponse_counts :: "count list" where
  "ModifyResponse_counts = [(GatewayRequests, [''success'', ''forward''], 1)]"

text \<open>\<open>forth\<close> says whether the direction is from the source to the destination of \<^verbatim>\<open>Connect\<close>, and \<open>n\<close> is the number of bytes.\<close>

definition pipe_counts :: "bool \<Rightarrow> nat \<Rightarrow> count list" where
  "pipe_counts forth n =
     (if forth then [(ConnectionStats, [''src_to_dst'', ''bidirectional''], n)]
      else [(ConnectionStats, [''dst_to_src'', ''bidirectional''], n)])"

definition connect_counts :: "count list" where
  "connect_counts = [(ConnectionStats, [''closed'', ''bidirectional''], 1)]"

text \<open>The library panics on a wrong number of labels.\<close>

definition well_labelled :: "count \<Rightarrow> bool" where
  "well_labelled x = (case x of (m, ls, n) \<Rightarrow> m \<in> set metrics_registered \<and> length ls = length (m_labels m))"

section \<open>The debugging endpoint\<close>

text \<open>
  \<^verbatim>\<open>http.ServeMux\<close> on a clean path: the longest pattern that is the path itself or, ending in a
  slash, begins it.
\<close>

definition pattern_matches :: "string \<Rightarrow> string \<Rightarrow> bool" where
  "pattern_matches pat path = (pat = path \<or> pat \<noteq> [] \<and> last pat = CHR ''/'' \<and> take (length pat) path = pat)"

fun ServeMux_match :: "(string \<times> 'h) list \<Rightarrow> string \<Rightarrow> (string \<times> 'h) option" where
  "ServeMux_match [] path = None"
| "ServeMux_match ((pat, h) # ps) path =
     (case ServeMux_match ps path of
        None \<Rightarrow> if pattern_matches pat path then Some (pat, h) else None
      | Some (q, k) \<Rightarrow> if pattern_matches pat path \<and> length q < length pat then Some (pat, h) else Some (q, k))"

datatype endpoint = Pprof_Index | Pprof_Cmdline | Pprof_Profile | Pprof_Symbol | Pprof_Trace | ExpVars | Metrics

definition debug_mux :: "(string \<times> endpoint) list" where
  "debug_mux =
     [(''/debug/pprof/'', Pprof_Index), (''/debug/pprof/cmdline'', Pprof_Cmdline), (''/debug/pprof/profile'', Pprof_Profile),
      (''/debug/pprof/symbol'', Pprof_Symbol), (''/debug/pprof/trace'', Pprof_Trace), (''/debug/vars'', ExpVars)]"

text \<open>The handler that \<^verbatim>\<open>StartProfiler\<close> installs; \<^const>\<open>None\<close> is the answer that there is no such page.\<close>

definition profiler_route :: "string \<Rightarrow> endpoint option" where
  "profiler_route path =
     (case ServeMux_match [(''/'', None), (''/metrics'', Some Metrics)] path of
        None \<Rightarrow> None
      | Some (pat, Some e) \<Rightarrow> Some e
      | Some (pat, None) \<Rightarrow> map_option snd (ServeMux_match debug_mux path))"

text \<open>\<^verbatim>\<open>strconv.Quote\<close>, the format \<^verbatim>\<open>%q\<close>; bytes above \<^verbatim>\<open>0x7f\<close> are copied, as in printable UTF-8.\<close>

definition go_quote_char :: "char \<Rightarrow> string" where
  "go_quote_char c =
     (if c = CHR 0x22 then [CHR 0x5C, CHR 0x22]
      else if c = CHR 0x5C then [CHR 0x5C, CHR 0x5C]
      else if c = CHR 0x07 then [CHR 0x5C, CHR ''a'']
      else if c = CHR 0x08 then [CHR 0x5C, CHR ''b'']
      else if c = CHR 0x0C then [CHR 0x5C, CHR ''f'']
      else if c = CHR 0x0A then [CHR 0x5C, CHR ''n'']
      else if c = CHR 0x0D then [CHR 0x5C, CHR ''r'']
      else if c = CHR 0x09 then [CHR 0x5C, CHR ''t'']
      else if c = CHR 0x0B then [CHR 0x5C, CHR ''v'']
      else if of_char c < (32 :: nat) \<or> c = CHR 0x7F
      then [CHR 0x5C, CHR ''x'', hex_char (of_char c div 16), hex_char (of_char c mod 16)]
      else [c])"

definition go_quote :: "string \<Rightarrow> string" where
  "go_quote s = CHR 0x22 # concat (map go_quote_char s) @ [CHR 0x22]"

text \<open>The loop of \<^verbatim>\<open>expVars\<close> over the published variables, given by key and printed value.\<close>

fun expVars_loop :: "bool \<Rightarrow> (string \<times> string) list \<Rightarrow> string" where
  "expVars_loop first [] = ''''"
| "expVars_loop first ((k, v) # kvs) =
     (if \<not> first then [CHR '','', CHR 0x0A] else '''') @ go_quote k @ '': '' @ v @ expVars_loop False kvs"

definition expVars :: "(string \<times> string) list \<Rightarrow> string" where
  "expVars kvs = ''{'' @ [CHR 0x0A] @ expVars_loop True kvs @ [CHR 0x0A] @ ''}'' @ [CHR 0x0A]"

text \<open>Keys that are printed as they are.\<close>

definition plain_key :: "string \<Rightarrow> bool" where
  "plain_key k = list_all (\<lambda>c. (32 :: nat) \<le> of_char c \<and> c \<noteq> CHR 0x22 \<and> c \<noteq> CHR 0x5C \<and> c \<noteq> CHR 0x7F) k"

section \<open>Lemmas\<close>

subsection \<open>Sockets\<close>

text \<open>An option that the system refuses is passed over; only the descriptor itself can fail.\<close>

lemma Control_error: "fst (Control os refuse err fd) = (if os \<in> {Plan9, Wasm} then None else err)"
  by (cases os; cases err)
    (simp_all add: Control_unix_def Control_bsd_def Control_windows_def Control_plan9_def Control_wasm_def RawConn_Control_def)

lemma Control_reuse:
  assumes "os \<notin> {Plan9, Wasm}" and "refuse SO_REUSEADDR = None"
  shows "snd (Control os refuse None fd) (SOL_SOCKET, SO_REUSEADDR) = Some 1"
  using assms
  by (cases os)
    (simp_all add: Control_unix_def Control_bsd_def Control_windows_def RawConn_Control_def SetsockoptInt_def Let_def split: option.split)

text \<open>Every listener of the server is bound with the address reusable, wherever the system knows the option.\<close>

lemma getReuseListener_binds:
  assumes "os \<notin> {Plan9, Wasm}" and "refuse SO_REUSEADDR = None"
  shows "\<exists>fd. fd (SOL_SOCKET, SO_REUSEADDR) = Some 1 \<and>
    getReuseListener os refuse None Bind network address = Bind fd network address \<and>
    getReusePacketConn os refuse None Bind network address = Bind fd network address"
  using assms Control_reuse [of os refuse Map.empty] Control_error [of os refuse None Map.empty]
  by (cases "Control os refuse None Map.empty")
    (auto simp: getReuseListener_def getReusePacketConn_def listen_with_def split: if_splits)

text \<open>When \<^verbatim>\<open>main\<close> returns, all listeners are closed before the context is cancelled, and the log is written last.\<close>

lemma server_main_returns_order:
  "server_main_returns = [Close_Gateway, Close_PeerTLS, Close_ClientQUIC, Close_PeerQUIC] @ [Cancel_Context, Sleep second] @
     [Undo_Redirect, Sync_Logger]"
  by (simp add: server_main_returns_def main_deferred_def)

subsection \<open>Name servers\<close>

text \<open>
  If the resolver's own update leaves a configuration, the name servers are replaced and nothing
  else of it is changed, as often as the function is called; without one the program panics.
\<close>

lemma setDefaultNS_sets:
  assumes "\<And>rc. \<exists>c. rc_dnsConfig (tryUpdate rc) = Some c"
  shows "\<exists>c rc'. setDefaultNS tryUpdate now addrs False rc = Ret rc' \<and>
    rc_dnsConfig (if rc_dnsConfig rc = None then tryUpdate rc else rc) = Some c \<and>
    rc_dnsConfig rc' = Some (c\<lparr>dns_servers := addrs\<rparr>) \<and>
    setDefaultNS tryUpdate now' addrs False rc' = Ret rc'"
proof -
  let ?base = "if rc_dnsConfig rc = None then tryUpdate rc else rc"
  obtain c where c: "rc_dnsConfig ?base = Some c"
    using assms [of rc] by (cases "rc_dnsConfig rc") auto
  let ?rc = "?base\<lparr>rc_dnsConfig := Some (c\<lparr>dns_servers := addrs\<rparr>)\<rparr>"
  have "setDefaultNS tryUpdate now addrs False rc = Ret ?rc"
    using c by (simp add: setDefaultNS_def Let_def)
  moreover have "setDefaultNS tryUpdate now' addrs False ?rc = Ret ?rc"
    by (simp add: setDefaultNS_def Let_def)
  ultimately show ?thesis
    using c by (intro exI [of _ c] exI [of _ ?rc]) simp
qed

lemma setDefaultNS_nil: "rc_dnsConfig rc = None \<Longrightarrow> rc_dnsConfig (tryUpdate rc) = None \<Longrightarrow>
    setDefaultNS tryUpdate now addrs load rc = Panic NilDereference"
  by (simp add: setDefaultNS_def Let_def)

lemma workaround_init_servers:
  assumes "\<And>rc. \<exists>c. rc_dnsConfig (tryUpdate rc) = Some c"
  shows "\<exists>rc' c. workaround_init tryUpdate now rc = Ret rc' \<and> rc_dnsConfig rc' = Some c \<and> dns_servers c = [''1.1.1.1:53'', ''8.8.8.8:53'']"
  using setDefaultNS_sets [of tryUpdate now "[''1.1.1.1:53'', ''8.8.8.8:53'']" rc now] assms
  by (auto simp: workaround_init_def SetDNSPair_def)

subsection \<open>Counters\<close>

text \<open>The library panics when a name is registered twice or the number of labels is wrong: neither happens.\<close>

lemma metrics_distinct: "distinct (map (\<lambda>m. (m_Namespace m, m_Subsystem m, m_Name m)) metrics_registered)"
  by (simp add: metrics_registered_def GatewayRequests_def GatewayReqsType_def ConnectionStats_def PeerLatencyHist_def)

lemma metric_arity [simp]:
  "length (m_labels GatewayRequests) = 2" "length (m_labels GatewayReqsType) = 1" "length (m_labels ConnectionStats) = 2"
  by (simp_all add: GatewayRequests_def GatewayReqsType_def ConnectionStats_def)

lemma counts_well_labelled:
  "list_all well_labelled (handshake_counts err)" "list_all well_labelled (handleConnection_counts g conn err)"
  "list_all well_labelled (errorHandler_counts e)" "list_all well_labelled (pipe_counts forth k)"
  "list_all well_labelled connect_counts" "list_all well_labelled ModifyResponse_counts"
  by (simp_all add: well_labelled_def metrics_registered_def handshake_counts_def handleConnection_counts_def ModifyResponse_counts_def
      errorHandler_counts_def pipe_counts_def connect_counts_def split: option.split)

text \<open>An error is counted exactly if the visitor gets an answer, under the name that goes with its status.\<close>

lemma errorHandler_counted:
  "map (\<lambda>(m, ls, n). hd ls) (errorHandler_counts e) =
     (case errorHandler host e of
        None \<Rightarrow> []
      | Some (status, text) \<Rightarrow> [if status = 404 then ''not_found'' else if status = 504 then ''timeout'' else ''error''])"
  by (simp add: errorHandler_counts_def errorHandler_def)

subsection \<open>Pages\<close>

lemma ServeMux_longest:
  assumes "ServeMux_match ps path = Some (q, h)"
  shows "(q, h) \<in> set ps \<and> pattern_matches q path \<and> (\<forall>(p, k) \<in> set ps. pattern_matches p path \<longrightarrow> length p \<le> length q)"
  using assms
proof (induction ps arbitrary: q h)
  case (Cons p ps)
  obtain pat k where p: "p = (pat, k)"
    by (cases p)
  show ?case
  proof (cases "ServeMux_match ps path")
    case None
    have "\<not> pattern_matches a path" if "(a, b) \<in> set ps" for a b
      using None that by (induction ps path rule: ServeMux_match.induct) (auto split: option.splits if_splits prod.splits)
    with None Cons.prems p show ?thesis
      by (auto split: if_splits)
  next
    case (Some r)
    with Cons.IH [of "fst r" "snd r"] Cons.prems p show ?thesis
      by (fastforce split: if_splits prod.splits)
  qed
qed simp

lemma profiler_routes:
  "profiler_route ''/metrics'' = Some Metrics" "profiler_route ''/debug/vars'' = Some ExpVars"
  "profiler_route ''/debug/pprof/heap'' = Some Pprof_Index" "profiler_route ''/debug/pprof/trace'' = Some Pprof_Trace"
  "profiler_route ''/'' = None"
  by (simp_all add: profiler_route_def debug_mux_def pattern_matches_def)

subsection \<open>Published variables\<close>

lemma expect_newline [simp]: "expect c (CHR 0x0A # s) = expect c s"
  by (simp add: expect_def skip_ws_def is_ws_def)

lemma json_value_space: "json_value n (CHR '' '' # s) = json_value n s"
proof (cases n)
  case (Suc k)
  have "skip_ws (CHR '' '' # s) = skip_ws s"
    by (simp add: skip_ws_def is_ws_def)
  then show ?thesis
    by (simp only: Suc json_value.simps)
qed simp

lemma go_quote_char_plain:
  assumes "plain_key [c]"
  shows "go_quote_char c = [c]"
proof -
  have n: "\<not> of_char c < (32 :: nat)" and c: "c \<noteq> CHR 0x22" "c \<noteq> CHR 0x5C" "c \<noteq> CHR 0x7F"
    using assms by (simp_all add: plain_key_def not_less)
  have "c \<notin> {CHR 0x07, CHR 0x08, CHR 0x0C, CHR 0x0A, CHR 0x0D, CHR 0x09, CHR 0x0B}"
    using n by (auto simp del: not_less)
  with n c show ?thesis
    by (simp add: go_quote_char_def)
qed

lemma json_unquote_plain:
  "plain_key [c] \<Longrightarrow> json_unquote (c # s) = map_option (map_prod ((#) c) id) (json_unquote s)"
  by (cases "json_unquote s") (simp_all add: plain_key_def not_less [symmetric] split: prod.split)

lemma plain_key_Cons: "plain_key (c # k) \<longleftrightarrow> plain_key [c] \<and> plain_key k"
  by (simp add: plain_key_def)

lemma go_quote_plain:
  "plain_key k \<Longrightarrow> json_unquote (concat (map go_quote_char k) @ CHR 0x22 # r) = Some (k, r)"
proof (induction k)
  case (Cons c k)
  then have "plain_key [c]" "json_unquote (concat (map go_quote_char k) @ CHR 0x22 # r) = Some (k, r)"
    by (simp_all add: plain_key_Cons [of c k])
  then show ?case
    by (simp only: list.map concat.simps go_quote_char_plain append.simps json_unquote_plain) simp
qed simp

lemma json_object_expVars:
  assumes "kvs \<noteq> []" and "list_all (\<lambda>(k, v). plain_key k) kvs" and "\<forall>(k, v) \<in> set kvs. length (json_Marshal v) + length kvs \<le> n"
  shows "json_object n (expVars_loop True (map (\<lambda>(k, v). (k, json_Marshal v)) kvs) @ CHR 0x0A # CHR ''}'' # r) = Some (kvs, r)"
  using assms
proof (induction kvs arbitrary: n)
  case (Cons m kvs)
  obtain k v where m: "m = (k, v)"
    by (cases m)
  obtain n' where n: "n = Suc n'"
    using Cons.prems(3) m by (cases n) auto
  have val: "json_value n' (json_Marshal v @ s) = Some (v, s)" if "num_end s" for s
    using Cons.prems(3) m n that by (intro json_roundtrip_aux(1)) auto
  show ?case
  proof (cases kvs)
    case Nil
    have "num_end (CHR 0x0A # CHR ''}'' # r)"
      by (simp add: num_end_def is_digit_def)
    with Cons.prems m n Nil val show ?thesis
      by (simp add: go_quote_def go_quote_plain json_value_space)
  next
    case (Cons m' kvs')
    then have loop: "expVars_loop False (map (\<lambda>(k, v). (k, json_Marshal v)) kvs) =
        CHR '','' # CHR 0x0A # expVars_loop True (map (\<lambda>(k, v). (k, json_Marshal v)) kvs)"
      by (cases m') simp
    have "json_object n' (expVars_loop True (map (\<lambda>(k, v). (k, json_Marshal v)) kvs) @ CHR 0x0A # CHR ''}'' # r) = Some (kvs, r)"
      using Cons.IH Cons.prems Cons n by auto
    moreover have "json_object n' (CHR 0x0A # s) = json_object n' s" for s
      by (cases n') simp_all
    ultimately show ?thesis
      using Cons.prems m n val by (simp add: go_quote_def go_quote_plain json_value_space loop)
  qed
qed simp

lemma expVars_loop_length:
  "(k, v) \<in> set kvs \<Longrightarrow> length v + length kvs \<le> length (expVars_loop first kvs)"
proof (induction first kvs rule: expVars_loop.induct)
  case (2 first k' v' kvs)
  have "length kvs \<le> length (expVars_loop b kvs)" for b
    by (induction b kvs rule: expVars_loop.induct) auto
  from this [of False] 2 show ?case
    by (auto simp: go_quote_def)
qed simp

text \<open>The page is a JSON object with the published variables, in their order.\<close>

lemma expVars_roundtrip:
  assumes "list_all (\<lambda>(k, v). plain_key k) kvs"
  shows "json_Unmarshal (expVars (map (\<lambda>(k, v). (k, json_Marshal v)) kvs)) = Some (JObj kvs)"
proof (cases "kvs = []")
  case True
  then show ?thesis
    by (simp add: expVars_def json_Unmarshal_def json_Decode_def) (simp add: skip_ws_def is_ws_def)
next
  case False
  let ?loop = "expVars_loop True (map (\<lambda>(k, v). (k, json_Marshal v)) kvs)"
  let ?n = "length (expVars (map (\<lambda>(k, v). (k, json_Marshal v)) kvs))"
  have "length (json_Marshal v) + length kvs \<le> ?n" if "(k, v) \<in> set kvs" for k v
    using expVars_loop_length [of k "json_Marshal v" "map (\<lambda>(k, v). (k, json_Marshal v)) kvs" True] that
    by (force simp: expVars_def)
  then have "json_object ?n (?loop @ CHR 0x0A # CHR ''}'' # [CHR 0x0A]) = Some (kvs, [CHR 0x0A])"
    using False assms by (intro json_object_expVars) auto
  moreover have "json_object ?n (CHR 0x0A # s) = json_object ?n s" for s
    by (cases ?n) simp_all
  moreover have "expect (CHR ''}'') (?loop @ s) = None" for s
    using False by (cases kvs) (auto simp: go_quote_def)
  ultimately have "json_value (Suc ?n) (CHR ''{'' # CHR 0x0A # ?loop @ CHR 0x0A # CHR ''}'' # [CHR 0x0A]) = Some (JObj kvs, [CHR 0x0A])"
    by simp
  then show ?thesis
    by (simp add: json_Unmarshal_def json_Decode_def expVars_def skip_ws_def is_ws_def del: json_value.simps)
qed

end
