(* ===== verification/Spec2Isabelle.thy ===== *)
theory Spec2Isabelle
  imports Channel Messaging Node Client_Cmd System
begin

text \<open>
  \<^bold>\<open>Verification of the tunnelling program t.\<close>

  \<^bold>\<open>The program.\<close> Servers (\<^verbatim>\<open>src/cmd/server\<close>) form a mesh: they find each other by gossip, keep one
  multiplexed session with every other server, and elect the one with the lowest identifier to
  obtain the certificate. A client (\<^verbatim>\<open>src/client\<close>) shakes hands with one server and is given a random
  name; the hash of the name is its identifier. Each server sends the others a summary of its
  clients, a checksum and a filter. A visitor connects to the gateway (\<^verbatim>\<open>src/gateway\<close>) of any server;
  the server name tells the client's name, the server looks the client up among its own
  clients, then in the summaries, and forwards the stream, directly or through the server that
  has the client.

  \<^bold>\<open>Conventions.\<close> A struct is a record, a constant type a datatype or a word, \<^verbatim>\<open>uint64\<close> is \<^typ>\<open>u64\<close>, a byte
  slice is \<^typ>\<open>bytes\<close>. A function that returns an error gives a sum or an optional error beside the
  new state; one that can panic has a result in \<^typ>\<open>'a go\<close>; one that can end the process has a result
  in \<^typ>\<open>'a exit\<close>. Goroutines are program counters in an inductive step relation, with channels as
  bounded lists. What a map's iteration visits first, the clock, random numbers and every library
  that is not part of the repository are arguments; what is assumed of them is a named premise
  (\<^const>\<open>reader_contract\<close>, \<^const>\<open>Fqdn_doc\<close>, \<^const>\<open>no_false_negatives\<close>, ...). Loops that may not end are
  partial functions into an option (\<^const>\<open>CopyBuffer\<close>, \<^const>\<open>Decoder_Decode\<close>): not returning is \<^const>\<open>None\<close>,
  and the properties state that they return. The only fuel is that of the JSON parser, the length
  of its input, which its round trip shows to be enough.

  \<^bold>\<open>The theories\<close>, and the sources they model.

    \<^item> \<open>Prelude\<close>, \<open>Bytes\<close>, \<open>JSON\<close>, \<open>Net\<close>: the Go run time and standard library as far as it is used:
      errors and \<^verbatim>\<open>errors.Is\<close>, panics, slices, strings, big-endian integers with the locales of codecs,
      JSON values with printer and parser, connections with deadlines. \<open>Prelude\<close> also has the locale
      \<open>step_invariant\<close>, which the step relations of \<open>Channel\<close>, \<open>Peer_Map\<close>, \<open>Leader\<close>, \<open>Gateway\<close>, \<open>Client_Run\<close>
      and \<open>Node\<close> interpret.
    \<^item> \<open>Link\<close>: \<^verbatim>\<open>multiplexer/link.go\<close>, \<^verbatim>\<open>protocol\<close>, \<^verbatim>\<open>alpn\<close>, \<^verbatim>\<open>const.go\<close>, the registries. Links survive the wire;
      exactly 18 bytes decode; the log records tell links apart.
    \<^item> \<open>Hashing\<close>: \<^verbatim>\<open>shared/hash.go\<close> and the checksum of client lists, with a table equal to the polynomial
      division it comes from; replacing one client changes the checksum.
    \<^item> \<open>Meta\<close>, \<open>Messages\<close>: \<^verbatim>\<open>server/meta.go\<close>, \<^verbatim>\<open>messaging/message.go\<close>, the envelopes of \<^verbatim>\<open>rpc.go\<close>. Round trips,
      exact conditions for reading a message, and where unpacking panics.
    \<^item> \<open>Connected_Clients\<close>, \<open>Peer_Graph\<close>, \<open>Peer_Map\<close>: package \<^verbatim>\<open>state\<close>. The summary's encoding; the graph of
      summaries as an interpretation of \<open>summary_store\<close>; the session table as an interpretation of
      \<open>session_table\<close>, and under overlapping calls the exact meaning of its counter.
    \<^item> \<open>Channel\<close>: \<^verbatim>\<open>multiplexer/channel.go\<close>. No send on a closed channel, order, and the \<^verbatim>\<open>Put\<close> that waits for ever.
    \<^item> \<open>Pipe\<close>: \<^verbatim>\<open>multiplexer/pipe.go\<close>, \<^verbatim>\<open>util/reader.go\<close>. The copy is exact; every schedule of \<^verbatim>\<open>Connect\<close> ends.
    \<^item> \<open>Mux_Peers\<close>: package \<^verbatim>\<open>mux\<close>, the three implementations of a session behind one interface, interpreted
      four times in the locale \<open>session_end\<close>. Connectors have the type that is asserted; the accept
      loop ends without a panic; sessions and streams have the addresses of the connection.
    \<^item> \<open>Messaging\<close>: \<^verbatim>\<open>messaging/channel.go\<close>, \<^verbatim>\<open>rpc.go\<close>. All goroutines of streams and calls in one system, with an
      executable transition function; order of messages, causes of crashes, replies and time-outs.
    \<^item> \<open>Acme\<close>, \<open>Provider\<close>: \<^verbatim>\<open>acme/acme.go\<close>, \<^verbatim>\<open>provider/rfc2136.go\<close>. The certificate manager over an arbitrary CA and
      file system; the record that is updated for a challenge.
    \<^item> \<open>Server\<close>, \<open>Handshake\<close>, \<open>Gossip\<close>, \<open>Leader\<close>, \<open>Routing\<close>: package \<^verbatim>\<open>server\<close>. Construction and path finding;
      handshakes with exact conditions of success; who dials whom; what the periodic reconciliation
      dials, compared with a fresh look at every node; the exchange of state, by which a joining
      server takes over the certificate; election, timer and renewal; that an announced client is
      found from another server.
    \<^item> \<open>Client\<close>: package \<^verbatim>\<open>client\<close>. Discovery, the client's half of the handshake and its agreement with the
      server's, the dispatch of streams.
    \<^item> \<open>Client_Run\<close>: what the functions of package \<^verbatim>\<open>client\<close> leave running, as step relations: the goroutines of
      \<^verbatim>\<open>Tunnel\<close>, \<^verbatim>\<open>Connect\<close> and \<^verbatim>\<open>Forward\<close>, and the rewriting of requests by the tunnel's proxy. No stream is
      lost, and the end of the session ends the program.
    \<^item> \<open>Client_Cmd\<close>: \<^verbatim>\<open>cmd/client\<close>. Flags, actions and \<^verbatim>\<open>main\<close>; without \<^verbatim>\<open>-debug\<close> no connection to a server goes
      unverified.
    \<^item> \<open>Gateway\<close>: package \<^verbatim>\<open>gateway\<close>. The multiplexer by ALPN as a step relation, the handling of a visitor on
      every branch, landing page, proxy and redirection; a visitor reaches the client of its name.
    \<^item> \<open>Cmd\<close>: \<^verbatim>\<open>cmd/server\<close>. Authorization, derived configuration, TLS configurations, \<^verbatim>\<open>main\<close>; the parts agree on
      names and ports, and the challenge's record is where the CA looks.
    \<^item> \<open>System\<close>: packages \<^verbatim>\<open>sock\<close>, \<^verbatim>\<open>profiler\<close> and \<^verbatim>\<open>workaround\<close>, the reusable listeners of \<^verbatim>\<open>cmd/server\<close>, the tasks its
      \<^verbatim>\<open>main\<close> starts and what it does on return. Socket options by platform, metrics with as many labels
      as they declare, routes of the profiler, and a page of variables that is JSON.
    \<^item> \<open>Node\<close>: the running server, the handlers of all components as steps of one relation. The invariant
      of a server under every sequence of them is the property of this theory.

  \<^bold>\<open>Interleaving.\<close> Registration (\<open>Peer_Map\<close>), streams of sessions (\<open>Channel\<close>), messages (\<open>Messaging\<close>), pipes (\<open>Pipe\<close>),
  election (\<open>Leader\<close>), the routing by ALPN (\<open>Gateway\<close>) and the client (\<open>Client_Run\<close>) are modelled at the grain of single sends,
  receives and updates. In \<open>Node\<close> a turn of a loop is one step; that registrations overlap inside a
  turn is the subject of \<open>Peer_Map\<close> and not repeated there.

  \<^bold>\<open>What goes wrong.\<close> Several theorems state a failure of the code: two overlapping registrations of one
  peer, a forwarding loop between two servers, the timer that waits for itself, the stale clean-up of
  a messaging stream, the reply that comes too late, the imported key that blocks renewal, the
  reconciliation that dials against the rule, the protocol number that wraps around, the
  names of a certificate for the zone itself, the visitor's command that outlives its connection.
  They are theorems about the same definitions as the others.

  \<^bold>\<open>Bounds.\<close> Channels have the capacities of the code. The allocation limit of \<^verbatim>\<open>make\<close> is the constant of
  the theory \<open>Prelude\<close>. Ports, ticks of the clock and counts of tasks are natural numbers; identifiers,
  the session counter, protocol and ALPN numbers are words and wrap around. The decoder of JSON
  reads chunks of 512 bytes, as Go's does; properties about replies ask that they fit one chunk.

  \<^bold>\<open>Not modelled.\<close> TLS, QUIC, yamux, mplex, memberlist, the ACME and DNS clients, the binary fuse filter and
  cryptography: libraries, taken as arguments. The forwarding of HTTP requests by \<^verbatim>\<open>httputil.ReverseProxy\<close>,
  apart from the functions the code gives it; in the client these do not include the proxy's
  transport to the user's own server, which verifies it unless \<^verbatim>\<open>-debug\<close> is given. The templates of
  the landing page, the parsing of command lines and the serving of metrics are
  library code too. Log messages, apart from the records of links and metadata. \<^verbatim>\<open>Close\<close> and \<^verbatim>\<open>Addr\<close> of the
  listeners in \<^verbatim>\<open>gateway\<close> and \<^verbatim>\<open>client\<close>, which return nothing or forward to the listener below. Seeding of
  random numbers. \<^verbatim>\<open>sock/doc.go\<close> and \<^verbatim>\<open>workaround/dns.go\<close> have no code.
\<close>

section \<open>The running server\<close>

lemma node_inv_New:
  assumes "Server_New v6 NewKeyring ident pick conf = Ret (Inr s)" and "sc_CertManager conf = Some c" and "acme_run env c"
  shows "node_inv env ident (snd (ListenForPeers s))"
proof -
  have "pm_peers (srv_peers s) ident = None" "srv_peerGraph s ident = None" "cached s = None" "certManager s = c"
    using assms(1,2)
    by (auto simp: Server_New_def Let_def NewPeerMap_def NewPeerGraph_def elim!: bind_go_RetE
        split: option.splits sum.splits if_splits)
  with Server_New_Inr [OF assms(1)] cm_inv_run [OF assms(3)] show ?thesis
    by (simp add: node_inv_def ListenForPeers_def pm_inv_def)
qed



end
